(* ===== verification/Go_Prelude.thy ===== *)
theory Go_Prelude
  imports Main "HOL-Library.Sublist"
begin

text \<open>
  Prelude of the development: what the Go code takes from the language and from
  package \<open>strings\<close>, and the generic lemmas on lists that the components share.

  A Go string is a list of bytes (\<^typ>\<open>string\<close>, a list of \<^typ>\<open>char\<close>).  The texts of the
  model are ASCII: \<open>unicode.IsSpace\<close> and \<open>unicode.ToLower\<close> act on bytes 0 to 127 as in
  Go, and a byte from 128 on is an ordinary byte that is neither space nor upper case.
  \<open>strings.Index\<close> returns an option instead of \<open>-1\<close>.
\<close>

named_theorems go_simps \<open>unfolding rules for the Go string functions\<close>
named_theorems shape_rules \<open>facts on the shape of shell fields\<close>

subsection \<open>Bytes\<close>

definition is_space :: "char \<Rightarrow> bool" where
  "is_space c \<longleftrightarrow> c = CHR '' '' \<or> (9 \<le> (of_char c :: nat) \<and> (of_char c :: nat) \<le> 13)"

definition lower_char :: "char \<Rightarrow> char" where
  "lower_char c =
     (if 65 \<le> (of_char c :: nat) \<and> (of_char c :: nat) \<le> 90
      then char_of ((of_char c :: nat) + 32) else c)"

abbreviation (input) newline :: char where "newline \<equiv> CHR 0x0A"
abbreviation (input) carriage_return :: char where "carriage_return \<equiv> CHR 0x0D"
abbreviation (input) tab :: char where "tab \<equiv> CHR 0x09"

subsection \<open>Package strings\<close>

definition TrimLeftFunc :: "(char \<Rightarrow> bool) \<Rightarrow> string \<Rightarrow> string" where
  "TrimLeftFunc p s = dropWhile p s"

definition TrimRightFunc :: "(char \<Rightarrow> bool) \<Rightarrow> string \<Rightarrow> string" where
  "TrimRightFunc p s = rev (dropWhile p (rev s))"

definition TrimFunc :: "(char \<Rightarrow> bool) \<Rightarrow> string \<Rightarrow> string" where
  "TrimFunc p s = TrimRightFunc p (TrimLeftFunc p s)"

definition TrimSpace :: "string \<Rightarrow> string" where
  "TrimSpace s = TrimFunc is_space s"

definition Trim :: "string \<Rightarrow> string \<Rightarrow> string" where
  "Trim s cutset = TrimFunc (\<lambda>c. c \<in> set cutset) s"

definition TrimLeft :: "string \<Rightarrow> string \<Rightarrow> string" where
  "TrimLeft s cutset = TrimLeftFunc (\<lambda>c. c \<in> set cutset) s"

definition TrimRight :: "string \<Rightarrow> string \<Rightarrow> string" where
  "TrimRight s cutset = TrimRightFunc (\<lambda>c. c \<in> set cutset) s"

definition ToLower :: "string \<Rightarrow> string" where
  "ToLower s = map lower_char s"

definition EqualFold :: "string \<Rightarrow> string \<Rightarrow> bool" where
  "EqualFold s t \<longleftrightarrow> ToLower s = ToLower t"

definition HasPrefix :: "string \<Rightarrow> string \<Rightarrow> bool" where
  "HasPrefix s p \<longleftrightarrow> prefix p s"

definition HasSuffix :: "string \<Rightarrow> string \<Rightarrow> bool" where
  "HasSuffix s p \<longleftrightarrow> prefix (rev p) (rev s)"

definition TrimPrefix :: "string \<Rightarrow> string \<Rightarrow> string" where
  "TrimPrefix s p = (if HasPrefix s p then drop (length p) s else s)"

definition TrimSuffix :: "string \<Rightarrow> string \<Rightarrow> string" where
  "TrimSuffix s p = (if HasSuffix s p then take (length s - length p) s else s)"

fun Index :: "string \<Rightarrow> string \<Rightarrow> nat option" where
  "Index [] sub = (if sub = [] then Some 0 else None)"
| "Index (c # s) sub = (if prefix sub (c # s) then Some 0 else map_option Suc (Index s sub))"

definition Contains :: "string \<Rightarrow> string \<Rightarrow> bool" where
  "Contains s sub \<longleftrightarrow> Index s sub \<noteq> None"

definition ContainsAny :: "string \<Rightarrow> string \<Rightarrow> bool" where
  "ContainsAny s chars \<longleftrightarrow> list_ex (\<lambda>c. c \<in> set chars) s"

text \<open>\<open>strings.Split\<close> by a one-byte separator.\<close>

fun Split :: "string \<Rightarrow> char \<Rightarrow> string list" where
  "Split [] sep = [[]]"
| "Split (c # s) sep =
     (if c = sep then [] # Split s sep
      else case Split s sep of [] \<Rightarrow> [[c]] | w # ws \<Rightarrow> (c # w) # ws)"

fun Join :: "string list \<Rightarrow> string \<Rightarrow> string" where
  "Join [] sep = []"
| "Join [s] sep = s"
| "Join (s # t # ss) sep = s @ sep @ Join (t # ss) sep"

text \<open>\<open>strings.Fields\<close>: the maximal runs of non-space bytes.\<close>

fun fields_acc :: "string \<Rightarrow> string \<Rightarrow> string list" where
  "fields_acc acc [] = (if acc = [] then [] else [rev acc])"
| "fields_acc acc (c # s) =
     (if is_space c then (if acc = [] then fields_acc [] s else rev acc # fields_acc [] s)
      else fields_acc (c # acc) s)"

definition Fields :: "string \<Rightarrow> string list" where
  "Fields s = fields_acc [] s"

text \<open>
  \<open>strings.NewReplacer(old1, new1, ...).Replace\<close>: at each position the first old string,
  in argument order, that matches is replaced; the replacement is not scanned again.
  No old string of the source is empty.
\<close>

fun replace_rules :: "(string \<times> string) list \<Rightarrow> string \<Rightarrow> string" where
  "replace_rules rules [] = []"
| "replace_rules rules (c # s) =
     (case find (\<lambda>(old, new). prefix old (c # s)) rules of
        None \<Rightarrow> c # replace_rules rules s
      | Some (old, new) \<Rightarrow> new @ replace_rules rules (drop (length old - 1) s))"

definition ReplaceAll_char :: "string \<Rightarrow> char \<Rightarrow> char \<Rightarrow> string" where
  "ReplaceAll_char s a b = map (\<lambda>c. if c = a then b else c) s"

lemmas string_defs [go_simps] =
  TrimLeftFunc_def TrimRightFunc_def TrimFunc_def TrimSpace_def Trim_def TrimLeft_def
  TrimRight_def ToLower_def EqualFold_def HasPrefix_def HasSuffix_def TrimPrefix_def
  TrimSuffix_def Contains_def ContainsAny_def Fields_def is_space_def

subsection \<open>JSON values\<close>

text \<open>
  What \<open>encoding/json\<close> decodes into \<open>any\<close>.  The order of an object's entries carries no
  meaning for the code modelled here, which only looks keys up; a later duplicate wins in
  the decoder, and decoded objects have no duplicate keys.
\<close>

datatype json =
    JNull
  | JBool bool
  | JNumber int
  | JString string
  | JArray "json list"
  | JObject "(string \<times> json) list"

type_synonym json_map = "(string \<times> json) list"

text \<open>\<open>value, _ := m[key].(string)\<close>: the empty string when the key is absent or the value
  is no string.\<close>

definition json_string :: "json_map \<Rightarrow> string \<Rightarrow> string" where
  "json_string m k = (case map_of m k of Some (JString s) \<Rightarrow> s | _ \<Rightarrow> [])"

definition hex_digit :: "nat \<Rightarrow> char" where
  "hex_digit n = (if n < 10 then char_of (48 + n) else char_of (87 + n))"

text \<open>The string encoder of \<open>encoding/json\<close> with HTML escaping, on one byte.\<close>

definition json_byte :: "char \<Rightarrow> string" where
  "json_byte c =
     (if c = CHR 0x22 then [CHR 0x5C, CHR 0x22]
      else if c = CHR 0x5C then [CHR 0x5C, CHR 0x5C]
      else if c = CHR 0x08 then [CHR 0x5C, CHR ''b'']
      else if c = CHR 0x0C then [CHR 0x5C, CHR ''f'']
      else if c = CHR 0x0A then [CHR 0x5C, CHR ''n'']
      else if c = CHR 0x0D then [CHR 0x5C, CHR ''r'']
      else if c = CHR 0x09 then [CHR 0x5C, CHR ''t'']
      else if (of_char c :: nat) < 32 \<or> c \<in> {CHR ''<'', CHR ''>'', CHR ''&''}
      then [CHR 0x5C, CHR ''u'', CHR ''0'', CHR ''0'', hex_digit (of_char c div 16), hex_digit (of_char c mod 16)]
      else [c])"

definition json_quote :: "string \<Rightarrow> string" where
  "json_quote s = [CHR 0x22] @ concat (map json_byte s) @ [CHR 0x22]"

text \<open>\<open>json.Marshal\<close> of a slice of strings.\<close>

definition marshal_strings :: "string list \<Rightarrow> string" where
  "marshal_strings ss = ''['' @ Join (map json_quote ss) '','' @ '']''"

subsection \<open>Generic lemmas\<close>

lemma TrimFunc_subset: "set (TrimFunc p s) \<subseteq> set s"
proof -
  have "set (dropWhile p (rev (dropWhile p s))) \<subseteq> set (dropWhile p s)"
    using set_dropWhileD by fastforce
  also have "\<dots> \<subseteq> set s"
    using set_dropWhileD by fastforce
  finally show ?thesis
    by (simp add: TrimFunc_def TrimRightFunc_def TrimLeftFunc_def)
qed

lemma TrimFunc_id:
  assumes "s \<noteq> [] \<Longrightarrow> \<not> p (hd s)" and "s \<noteq> [] \<Longrightarrow> \<not> p (last s)"
  shows "TrimFunc p s = s"
proof (cases s)
  case (Cons c t)
  then have "dropWhile p s = s" using assms(1) by simp
  moreover have "dropWhile p (rev s) = rev s"
    using assms(2) Cons by (metis dropWhile_eq_self_iff hd_rev list.distinct(1))
  ultimately show ?thesis
    by (simp add: TrimFunc_def TrimRightFunc_def TrimLeftFunc_def)
qed (simp add: TrimFunc_def TrimRightFunc_def TrimLeftFunc_def)

lemma TrimFunc_ends:
  assumes "TrimFunc p s \<noteq> []"
  shows "\<not> p (hd (TrimFunc p s))" and "\<not> p (last (TrimFunc p s))"
proof -
  let ?l = "dropWhile p s"
  let ?r = "dropWhile p (rev ?l)"
  have eq: "TrimFunc p s = rev ?r"
    by (simp add: TrimFunc_def TrimRightFunc_def TrimLeftFunc_def)
  with assms have r: "?r \<noteq> []" by simp
  then have "\<not> p (hd ?r)" by (rule hd_dropWhile)
  with r show "\<not> p (last (TrimFunc p s))" by (simp add: eq last_rev)
  have "suffix ?r (rev ?l)" by (simp add: suffix_dropWhile)
  then have "prefix (rev ?r) ?l" by (simp add: suffix_to_prefix)
  then obtain u where l: "?l = rev ?r @ u" by (auto simp: prefix_def)
  from r l have "?l \<noteq> []" by (metis append_is_Nil_conv rev_is_Nil_conv)
  moreover from r l have "hd ?l = hd (rev ?r)" by (metis hd_append2 rev_is_Nil_conv)
  ultimately show "\<not> p (hd (TrimFunc p s))" using hd_dropWhile [of p s] eq by metis
qed

lemma TrimFunc_idem [simp]: "TrimFunc p (TrimFunc p s) = TrimFunc p s"
  by (rule TrimFunc_id) (use TrimFunc_ends in auto)

lemma TrimSpace_idem [simp]: "TrimSpace (TrimSpace s) = TrimSpace s"
  by (simp add: TrimSpace_def)

lemma TrimSpace_Nil [simp]: "TrimSpace [] = []"
  by (simp add: go_simps)

lemma lower_char_idem [simp]: "lower_char (lower_char c) = lower_char c"
proof -
  have *: "(of_char c :: nat) + 32 < 256 \<Longrightarrow> (of_char (char_of ((of_char c :: nat) + 32) :: char) :: nat) = of_char c + 32"
    by (simp add: of_char_of)
  show ?thesis
    by (auto simp: lower_char_def *)
qed

lemma ToLower_idem [simp]: "ToLower (ToLower s) = ToLower s"
  by (simp add: ToLower_def)

lemma length_ToLower [simp]: "length (ToLower s) = length s"
  by (simp add: ToLower_def)

lemma ToLower_Nil_iff [simp]: "ToLower s = [] \<longleftrightarrow> s = []"
  by (simp add: ToLower_def)

lemma Contains_iff_sublist: "Contains s sub \<longleftrightarrow> (\<exists>u v. s = u @ sub @ v)"
proof (induction s)
  case Nil
  then show ?case by (auto simp: Contains_def)
next
  case (Cons c s)
  have "Contains (c # s) sub \<longleftrightarrow> prefix sub (c # s) \<or> Contains s sub"
    by (auto simp: Contains_def)
  also have "\<dots> \<longleftrightarrow> (\<exists>v. c # s = sub @ v) \<or> (\<exists>u v. s = u @ sub @ v)"
    using Cons.IH by (auto simp: prefix_def)
  also have "\<dots> \<longleftrightarrow> (\<exists>u v. c # s = u @ sub @ v)"
    by (auto simp: Cons_eq_append_conv)
  finally show ?case .
qed

definition nonspace :: "string \<Rightarrow> bool" where
  "nonspace s \<longleftrightarrow> list_all (\<lambda>c. \<not> is_space c) s"

lemma nonspace_simps [simp]:
  "nonspace []" "nonspace (c # s) \<longleftrightarrow> \<not> is_space c \<and> nonspace s"
  "nonspace (s @ t) \<longleftrightarrow> nonspace s \<and> nonspace t" "nonspace (rev s) \<longleftrightarrow> nonspace s"
  by (auto simp: nonspace_def list_all_iff)

lemma nonspace_mono: "nonspace s \<Longrightarrow> set t \<subseteq> set s \<Longrightarrow> nonspace t"
  by (auto simp: nonspace_def list_all_iff)

lemma fields_acc_nonspace:
  "nonspace acc \<Longrightarrow> list_all (\<lambda>w. w \<noteq> [] \<and> nonspace w) (fields_acc acc s)"
  by (induction acc s rule: fields_acc.induct) simp_all

lemma Fields_nonspace: "w \<in> set (Fields s) \<Longrightarrow> w \<noteq> [] \<and> nonspace w"
  using fields_acc_nonspace [of "[]" s] by (simp add: Fields_def list_all_iff)

lemma fields_acc_word:
  "nonspace w \<Longrightarrow> fields_acc acc (w @ s) = fields_acc (rev w @ acc) s"
  by (induction w arbitrary: acc) auto

lemma TrimSpace_nonspace: "nonspace s \<Longrightarrow> TrimSpace s = s"
  unfolding TrimSpace_def nonspace_def list_all_iff by (rule TrimFunc_id) auto

lemma Join_Cons: "Join (s # ss) sep = s @ (if ss = [] then [] else sep @ Join ss sep)"
  by (cases ss) auto

lemma length_Join_one:
  "length (Join ss [c]) + 1 = (\<Sum>s \<leftarrow> ss. length s + 1) + (if ss = [] then 1 else 0)"
  by (induction ss "[c]" rule: Join.induct) auto

lemma hd_Join: "f \<noteq> [] \<Longrightarrow> hd (Join (f # fs) sep) = hd f"
  by (simp add: Join_Cons)

lemma Join_ne: "fs \<noteq> [] \<Longrightarrow> last fs \<noteq> [] \<Longrightarrow> Join fs sep \<noteq> []"
  by (induction fs sep rule: Join.induct) auto

lemma last_Join: "fs \<noteq> [] \<Longrightarrow> last fs \<noteq> [] \<Longrightarrow> last (Join fs sep) = last (last fs)"
proof (induction fs sep rule: Join.induct)
  case (3 s t ss sep)
  then show ?case using Join_ne [of "t # ss" sep] by (simp del: Join.simps add: Join.simps(3))
qed auto

subsection \<open>Runs of operations\<close>

text \<open>A component's operations as one step function; an interleaving is a list of operations.\<close>

fun run_ops :: "('op \<Rightarrow> 't \<Rightarrow> 't) \<Rightarrow> 'op list \<Rightarrow> 't \<Rightarrow> 't" where
  "run_ops step [] t = t"
| "run_ops step (op # ops) t = run_ops step ops (step op t)"

lemma run_ops_append [simp]: "run_ops step (ops @ ops') t = run_ops step ops' (run_ops step ops t)"
  by (induction ops arbitrary: t) simp_all

lemma run_ops_invariant: "(\<And>op t. P t \<Longrightarrow> P (step op t)) \<Longrightarrow> P t \<Longrightarrow> P (run_ops step ops t)"
  by (induction ops arbitrary: t) simp_all

section \<open>Step relations\<close>

text \<open>A component as a step relation from an initial state, with an inductive invariant; a relation
  that every step from a state of the invariant satisfies carries over to runs.\<close>

locale step_system =
  fixes init :: 's and step :: "'s \<Rightarrow> 's \<Rightarrow> bool" and I :: "'s \<Rightarrow> bool"
  assumes init_ok: "I init" and step_inv: "I c \<Longrightarrow> step c c' \<Longrightarrow> I c'"
begin

lemma steps_inv:
  assumes "step\<^sup>*\<^sup>* c c'" and "I c"
  shows "I c'"
  using assms by (induction rule: rtranclp_induct) (auto intro: step_inv)

lemma reachable_inv: "step\<^sup>*\<^sup>* init c \<Longrightarrow> I c"
  using steps_inv init_ok by blast

lemma steps_rel:
  assumes "step\<^sup>*\<^sup>* c c'" and "I c" and "\<And>c. R c c" and "\<And>a b c. R a b \<Longrightarrow> R b c \<Longrightarrow> R a c"
    and "\<And>a b. I a \<Longrightarrow> step a b \<Longrightarrow> R a b"
  shows "R c c'"
  using assms(1)
proof (induction rule: rtranclp_induct)
  case (step b d)
  with steps_inv [OF step(1) assms(2)] show ?case by (blast intro: assms(4,5))
qed (rule assms(3))

end

end
