(* ===== verification/Go_Path.thy ===== *)
theory Go_Path
  imports Go_Prelude
begin

text \<open>
  Package \<open>path/filepath\<close> on a Unix build, where the separator is a slash and there are no
  volume names: \<open>Clean\<close>, \<open>Join\<close>, \<open>Base\<close>, \<open>Dir\<close> and \<open>IsAbs\<close>, written over the list of
  path components.  The lemmas characterise cleaned absolute paths by their components:
  no empty, dot or dot-dot component is left, cleaning is idempotent, and the textual
  prefix test of the policies is the prefix order on components.
\<close>

abbreviation (input) slash :: char where "slash \<equiv> CHR ''/''"

fun clean_stack :: "bool \<Rightarrow> string list \<Rightarrow> string list \<Rightarrow> string list" where
  "clean_stack rooted st [] = rev st"
| "clean_stack rooted st (c # cs) =
     (if c = [] \<or> c = ''.'' then clean_stack rooted st cs
      else if c = ''..'' then
        (case st of
           [] \<Rightarrow> clean_stack rooted (if rooted then [] else [c]) cs
         | t # ts \<Rightarrow> clean_stack rooted (if t = ''..'' then c # st else ts) cs)
      else clean_stack rooted (c # st) cs)"

definition filepath_IsAbs :: "string \<Rightarrow> bool" where
  "filepath_IsAbs path \<longleftrightarrow> HasPrefix path [slash]"

definition filepath_Clean :: "string \<Rightarrow> string" where
  "filepath_Clean path =
     (if path = [] then ''.''
      else if filepath_IsAbs path then slash # Join (clean_stack True [] (Split path slash)) [slash]
      else case clean_stack False [] (Split path slash) of
             [] \<Rightarrow> ''.''
           | c # cs \<Rightarrow> Join (c # cs) [slash])"

text \<open>\<open>filepath.Join\<close> ignores leading empty elements; the result is cleaned.\<close>

definition filepath_Join :: "string list \<Rightarrow> string" where
  "filepath_Join elems =
     (case dropWhile (\<lambda>e. e = []) elems of
        [] \<Rightarrow> []
      | e # es \<Rightarrow> filepath_Clean (Join (e # es) [slash]))"

text \<open>The text after the last slash, and up to and including it.\<close>

definition after_last_slash :: "string \<Rightarrow> string" where
  "after_last_slash path = rev (takeWhile (\<lambda>c. c \<noteq> slash) (rev path))"

definition upto_last_slash :: "string \<Rightarrow> string" where
  "upto_last_slash path = rev (dropWhile (\<lambda>c. c \<noteq> slash) (rev path))"

definition filepath_Base :: "string \<Rightarrow> string" where
  "filepath_Base path =
     (if path = [] then ''.''
      else let base = after_last_slash (TrimRight path [slash])
           in if base = [] then [slash] else base)"

definition filepath_Dir :: "string \<Rightarrow> string" where
  "filepath_Dir path = filepath_Clean (upto_last_slash path)"

subsection \<open>Components\<close>

definition plain_component :: "string \<Rightarrow> bool" where
  "plain_component c \<longleftrightarrow> c \<noteq> [] \<and> c \<noteq> ''.'' \<and> c \<noteq> ''..'' \<and> slash \<notin> set c"

text \<open>The components of a path, empty ones and dots left out.\<close>

definition path_comps :: "string \<Rightarrow> string list" where
  "path_comps path = clean_stack True [] (Split path slash)"

lemma Split_nonempty [simp]: "Split s sep \<noteq> []"
  by (induction s) (auto split: list.splits)

lemma Split_no_sep: "c \<in> set (Split s sep) \<Longrightarrow> sep \<notin> set c"
proof (induction s arbitrary: c)
  case (Cons a s)
  then show ?case by (fastforce split: if_splits list.splits)
qed simp

lemma Split_word: "sep \<notin> set w \<Longrightarrow> Split w sep = [w]"
  by (induction w) auto

lemma Split_append_sep: "sep \<notin> set w \<Longrightarrow> Split (w @ sep # s) sep = w # Split s sep"
  by (induction w) auto

lemma Split_Join:
  assumes "cs \<noteq> []" and "\<forall>c \<in> set cs. sep \<notin> set c"
  shows "Split (Join cs [sep]) sep = cs"
  using assms
  by (induction cs "[sep]" rule: Join.induct) (auto simp: Split_word Split_append_sep)

lemma clean_stack_plain:
  assumes "list_all plain_component st" and "\<forall>c \<in> set cs. slash \<notin> set c"
  shows "list_all plain_component (clean_stack True st cs)"
  using assms
proof (induction True st cs rule: clean_stack.induct)
  case (2 st c cs)
  then show ?case
    by (auto simp: plain_component_def split: list.splits)
qed simp

lemma path_comps_plain: "list_all plain_component (path_comps path)"
  unfolding path_comps_def by (rule clean_stack_plain) (auto dest: Split_no_sep)

lemma clean_stack_append_plain:
  assumes "list_all plain_component cs"
  shows "clean_stack True st (cs @ ds) = clean_stack True (rev cs @ st) ds"
  using assms by (induction cs arbitrary: st) (auto simp: plain_component_def)

lemma path_comps_of_Join:
  assumes "list_all plain_component cs"
  shows "path_comps (slash # Join cs [slash]) = cs"
proof (cases "cs = []")
  case False
  with assms have "Split (Join cs [slash]) slash = cs"
    by (intro Split_Join) (auto simp: list_all_iff plain_component_def)
  then have "path_comps (slash # Join cs [slash]) = clean_stack True [] (cs @ [])"
    by (simp add: path_comps_def)
  also have "\<dots> = cs"
    by (subst clean_stack_append_plain [OF assms]) simp
  finally show ?thesis .
qed (simp add: path_comps_def)

lemma Clean_abs:
  "filepath_IsAbs path \<Longrightarrow> filepath_Clean path = slash # Join (path_comps path) [slash]"
  by (auto simp: filepath_Clean_def path_comps_def filepath_IsAbs_def HasPrefix_def)

lemma Clean_abs_IsAbs: "filepath_IsAbs path \<Longrightarrow> filepath_IsAbs (filepath_Clean path)"
  by (simp add: Clean_abs filepath_IsAbs_def HasPrefix_def)

lemma path_comps_Clean:
  "filepath_IsAbs path \<Longrightarrow> path_comps (filepath_Clean path) = path_comps path"
  by (simp add: Clean_abs path_comps_of_Join path_comps_plain)

lemma Clean_idem_abs:
  "filepath_IsAbs path \<Longrightarrow> filepath_Clean (filepath_Clean path) = filepath_Clean path"
  by (metis Clean_abs Clean_abs_IsAbs path_comps_Clean)

text \<open>A path that is already in cleaned absolute form.\<close>

definition clean_abs :: "string \<Rightarrow> bool" where
  "clean_abs p \<longleftrightarrow> (\<exists>cs. list_all plain_component cs \<and> p = slash # Join cs [slash])"

lemma clean_absI: "list_all plain_component cs \<Longrightarrow> clean_abs (slash # Join cs [slash])"
  by (auto simp: clean_abs_def)

lemma clean_abs_Clean: "filepath_IsAbs path \<Longrightarrow> clean_abs (filepath_Clean path)"
  by (simp add: Clean_abs clean_absI path_comps_plain)

lemma clean_abs_eq: "clean_abs p \<Longrightarrow> p = slash # Join (path_comps p) [slash]"
  by (auto simp: clean_abs_def path_comps_of_Join)

lemma clean_abs_Clean_id: "clean_abs p \<Longrightarrow> filepath_Clean p = p"
  by (metis Clean_abs HasPrefix_def clean_abs_eq filepath_IsAbs_def prefix_def append_Cons append_Nil)

lemma clean_abs_inj: "clean_abs p \<Longrightarrow> clean_abs q \<Longrightarrow> p = q \<longleftrightarrow> path_comps p = path_comps q"
  by (metis clean_abs_eq)

lemma Join_append_ne:
  "as \<noteq> [] \<Longrightarrow> bs \<noteq> [] \<Longrightarrow> Join (as @ bs) sep = Join as sep @ sep @ Join bs sep"
  by (induction as sep rule: Join.induct) (auto simp: Join_Cons)

lemma Split_Join_append:
  assumes "list_all plain_component cs" and "cs \<noteq> []"
  shows "Split (Join cs [slash] @ slash # rest) slash = cs @ Split rest slash"
  using assms
  by (induction cs "[slash]" rule: Join.induct) (auto simp: Split_append_sep plain_component_def)

text \<open>
  The textual test of the policies, equality or the root followed by a slash as a prefix,
  is exactly the prefix order on components (for a root other than the file-system root).
\<close>

lemma prefix_slash_iff:
  assumes "clean_abs p" and "clean_abs root" and "path_comps root \<noteq> []"
  shows "p = root \<or> HasPrefix p (root @ [slash]) \<longleftrightarrow> prefix (path_comps root) (path_comps p)"
proof
  assume "p = root \<or> HasPrefix p (root @ [slash])"
  then show "prefix (path_comps root) (path_comps p)"
  proof
    assume "HasPrefix p (root @ [slash])"
    then obtain rest where p: "p = root @ slash # rest"
      by (auto simp: HasPrefix_def prefix_def)
    let ?rs = "path_comps root"
    have plain: "list_all plain_component ?rs" by (rule path_comps_plain)
    have "Split p slash = [] # Split (Join ?rs [slash] @ slash # rest) slash"
      by (subst p, subst clean_abs_eq [OF assms(2)]) simp
    also have "Split (Join ?rs [slash] @ slash # rest) slash = ?rs @ Split rest slash"
      using plain assms(3) by (rule Split_Join_append)
    finally have split: "Split p slash = [] # ?rs @ Split rest slash" .
    have "Split p slash = [] # path_comps p"
      if "path_comps p \<noteq> []"
      using that clean_abs_eq [OF assms(1)] path_comps_plain [of p] Split_Join [of "path_comps p" slash]
      by (metis (no_types, lifting) Split.simps(2) list_all_iff plain_component_def)
    moreover have "path_comps p \<noteq> []"
    proof
      assume "path_comps p = []"
      with clean_abs_eq [OF assms(1)] have "p = [slash]" by simp
      with p clean_abs_eq [OF assms(2)] assms(3) show False
        by (metis append_Cons append_is_Nil_conv list.distinct(1) list.sel(3))
    qed
    ultimately have "path_comps p = ?rs @ Split rest slash" using split by simp
    then show ?thesis by simp
  qed simp
next
  assume "prefix (path_comps root) (path_comps p)"
  then obtain ds where ds: "path_comps p = path_comps root @ ds" by (auto simp: prefix_def)
  show "p = root \<or> HasPrefix p (root @ [slash])"
  proof (cases "ds = []")
    case True
    with ds clean_abs_inj [OF assms(1,2)] show ?thesis by simp
  next
    case False
    then have "p = slash # Join (path_comps root) [slash] @ slash # Join ds [slash]"
      using clean_abs_eq [OF assms(1)] ds Join_append_ne [OF assms(3) False, of "[slash]"] by simp
    then have "p = root @ slash # Join ds [slash]"
      using clean_abs_eq [OF assms(2)] by simp
    then show ?thesis by (simp add: HasPrefix_def)
  qed
qed

end
