(* ===== verification/Sandbox_Types.thy ===== *)
theory Sandbox_Types
  imports Go_Path
begin

text \<open>
  The backend-neutral sandbox contract: \<open>agent-sdk/sandbox/sandbox.go\<close> (constraints,
  descriptors, their normalization), \<open>policy_snapshot.go\<close>, and the effective policy that
  \<open>backend/policy/policy.go\<close> derives from a configuration and a constraint set.

  The enumerations of the Go code are string types, so any text can occur in them and
  trimming matters: they are \<^typ>\<open>string\<close> here, with the constants of the code.  A nil
  slice and an empty slice are the same empty list.
\<close>

section \<open>Constraints\<close>

type_synonym Route = string
type_synonym Backend = string
type_synonym Permission = string
type_synonym Isolation = string
type_synonym Network = string
type_synonym PathAccess = string

abbreviation "RouteHost \<equiv> ''host''"
abbreviation "RouteSandbox \<equiv> ''sandbox''"
abbreviation "BackendHost \<equiv> ''host''"
abbreviation "BackendWindows \<equiv> ''windows''"
abbreviation "PermissionDefault \<equiv> ''default''"
abbreviation "PermissionWorkspaceWrite \<equiv> ''workspace_write''"
abbreviation "PermissionFullAccess \<equiv> ''danger_full_access''"
abbreviation "IsolationHost \<equiv> ''host''"
abbreviation "IsolationProcess \<equiv> ''process''"
abbreviation "IsolationContainer \<equiv> ''container''"
abbreviation "NetworkInherit \<equiv> ''inherit''"
abbreviation "NetworkEnabledText \<equiv> ''enabled''"
abbreviation "NetworkDisabled \<equiv> ''disabled''"
abbreviation "PathAccessReadWrite \<equiv> ''read_write''"
abbreviation "PathAccessHidden \<equiv> ''hidden''"

record PathRule =
  rPath :: string
  rAccess :: PathAccess

record Constraints =
  cRoute :: Route
  cBackend :: Backend
  cPermission :: Permission
  cIsolation :: Isolation
  cNetwork :: Network
  cPathRules :: "PathRule list"

text \<open>The zero value.\<close>

definition no_constraints :: Constraints where
  "no_constraints = \<lparr>cRoute = [], cBackend = [], cPermission = [], cIsolation = [], cNetwork = [], cPathRules = []\<rparr>"

record Descriptor =
  dBackend :: Backend
  dIsolation :: Isolation
  dDefaultConstraints :: Constraints

definition CanonicalBackend :: "Backend \<Rightarrow> Backend" where
  "CanonicalBackend backend =
     (let t = ToLower (TrimSpace backend)
      in if t \<in> {'''', ''auto'', ''default''} then []
         else if t = ''host'' then BackendHost
         else if t = ''seatbelt'' then ''seatbelt''
         else if t = ''bwrap'' then ''bwrap''
         else if t = ''landlock'' then ''landlock''
         else if t \<in> {''windows'', ''windows-restricted-token'', ''windows_restricted_token'', ''windows-elevated'',
                      ''windows_elevated'', ''windows elevated'', ''elevated''} then BackendWindows
         else if t = ''custom'' then ''custom''
         else TrimSpace backend)"

definition ClonePathRules :: "PathRule list \<Rightarrow> PathRule list" where
  "ClonePathRules rules =
     map (\<lambda>r. r\<lparr>rPath := TrimSpace (rPath r), rAccess := TrimSpace (rAccess r)\<rparr>) rules"

definition NormalizeConstraints :: "Constraints \<Rightarrow> Constraints" where
  "NormalizeConstraints c =
     c\<lparr>cRoute := TrimSpace (cRoute c), cBackend := TrimSpace (cBackend c),
       cPermission := TrimSpace (cPermission c), cIsolation := TrimSpace (cIsolation c),
       cNetwork := TrimSpace (cNetwork c), cPathRules := ClonePathRules (cPathRules c)\<rparr>"

definition ConstraintsRequestExplicitHost :: "Constraints \<Rightarrow> bool" where
  "ConstraintsRequestExplicitHost c0 =
     (let c = NormalizeConstraints c0
      in cBackend c = BackendHost \<or> cRoute c = RouteHost \<or> cPermission c = PermissionFullAccess)"

definition CloneDescriptor :: "Descriptor \<Rightarrow> Descriptor" where
  "CloneDescriptor d =
     d\<lparr>dBackend := TrimSpace (dBackend d), dIsolation := TrimSpace (dIsolation d),
       dDefaultConstraints := NormalizeConstraints (dDefaultConstraints d)\<rparr>"

definition DescriptorImpliesHostExecution :: "Descriptor \<Rightarrow> bool" where
  "DescriptorImpliesHostExecution d0 =
     (let d = CloneDescriptor d0
      in dBackend d = BackendHost \<or> ConstraintsRequestExplicitHost (dDefaultConstraints d))"

text \<open>The fields of a command request that carry legacy constraints.\<close>

record CommandRequest =
  qPermission :: Permission
  qRouteHint :: Route
  qBackend :: Backend
  qConstraints :: Constraints

definition EffectiveConstraints :: "CommandRequest \<Rightarrow> Constraints" where
  "EffectiveConstraints req =
     (let out = NormalizeConstraints (qConstraints req);
          out = (if cRoute out = [] then out\<lparr>cRoute := TrimSpace (qRouteHint req)\<rparr> else out);
          out = (if cBackend out = [] then out\<lparr>cBackend := TrimSpace (qBackend req)\<rparr> else out)
      in if cPermission out = [] then out\<lparr>cPermission := TrimSpace (qPermission req)\<rparr> else out)"

text \<open>\<open>OutputReadWindow\<close> on 64-bit cursors; \<open>n\<close> is the number of bytes returned.  The
  subtraction stays within 64 bits because both operands are non-negative.\<close>

definition OutputReadWindow :: "int \<Rightarrow> int \<Rightarrow> int \<Rightarrow> int \<times> bool" where
  "OutputReadWindow marker0 n nextMarker0 =
     (let marker = max marker0 0; nextMarker = max nextMarker0 0;
          retainedStart = max (nextMarker - n) 0
      in (retainedStart, marker < retainedStart))"

section \<open>String lists\<close>

text \<open>\<open>normalizeStringSlice\<close> and \<open>normalizeStringList\<close>: trimmed, without empty entries and
  without repetitions, in first-occurrence order; the set \<open>seen\<close> is an argument.\<close>

fun normalize_strings :: "string list \<Rightarrow> string list \<Rightarrow> string list" where
  "normalize_strings seen [] = []"
| "normalize_strings seen (raw # raws) =
     (let value = TrimSpace raw
      in if value = [] \<or> value \<in> set seen then normalize_strings seen raws
         else value # normalize_strings (value # seen) raws)"

definition normalizeStringSlice :: "string list \<Rightarrow> string list" where
  "normalizeStringSlice values = normalize_strings [] values"

section \<open>Policy snapshots\<close>

record PolicySnapshot =
  sRoute :: Route
  sBackend :: Backend
  sPermission :: Permission
  sIsolation :: Isolation
  sNetwork :: Network
  sWritableRoots :: "string list"
  sReadOnlySubpaths :: "string list"

record PolicySummary =
  mRoute :: Route
  mPermission :: Permission
  mNetwork :: Network
  mReadOnlySubpaths :: "string list"

definition ClonePolicySnapshot :: "PolicySnapshot \<Rightarrow> PolicySnapshot" where
  "ClonePolicySnapshot s =
     s\<lparr>sRoute := TrimSpace (sRoute s), sBackend := CanonicalBackend (sBackend s),
       sPermission := TrimSpace (sPermission s), sIsolation := TrimSpace (sIsolation s),
       sNetwork := TrimSpace (sNetwork s), sWritableRoots := normalizeStringSlice (sWritableRoots s),
       sReadOnlySubpaths := normalizeStringSlice (sReadOnlySubpaths s)\<rparr>"

definition PolicySnapshotEmpty :: "PolicySnapshot \<Rightarrow> bool" where
  "PolicySnapshotEmpty s0 =
     (let s = ClonePolicySnapshot s0
      in sRoute s = [] \<and> sBackend s = [] \<and> sPermission s = [] \<and> sIsolation s = [] \<and> sNetwork s = [] \<and>
         sWritableRoots s = [] \<and> sReadOnlySubpaths s = [])"

definition SummarizePolicy :: "PolicySnapshot \<Rightarrow> PolicySummary" where
  "SummarizePolicy s0 =
     (let s = ClonePolicySnapshot s0
      in \<lparr>mRoute = sRoute s, mPermission = sPermission s, mNetwork = sNetwork s,
          mReadOnlySubpaths = sReadOnlySubpaths s\<rparr>)"

section \<open>The effective backend policy\<close>

text \<open>\<open>ResourceLimits\<close>: an absent read ceiling is \<^const>\<open>None\<close>.\<close>

record ResourceLimits =
  lReadPaths :: "string list option"
  lWritePaths :: "string list"
  lNetwork :: Network

record Config =
  gWritableRoots :: "string list"
  gReadOnlySubpaths :: "string list"
  gResourceLimits :: "ResourceLimits option"

datatype PolicyType = TypeReadOnly | TypeWorkspaceWrite | TypeDangerFull | TypeExternal

record Policy =
  pResourceLimits :: "ResourceLimits option"
  pType :: PolicyType
  pNetworkAccess :: bool
  pWritableRoots :: "string list"
  pGitProtectionRoots :: "string list"
  pWriteOverrides :: "string list"
  pHiddenRoots :: "string list"
  pReadOnlySubpaths :: "string list"

fun applyPathRules :: "Policy \<Rightarrow> PathRule list \<Rightarrow> Policy" where
  "applyPathRules p [] = p"
| "applyPathRules p (rule # rules) =
     (let path = TrimSpace (rPath rule)
      in if path = [] then applyPathRules p rules
         else if rAccess rule = PathAccessReadWrite then
           applyPathRules (p\<lparr>pWritableRoots := pWritableRoots p @ [path],
                             pWriteOverrides := pWriteOverrides p @ [path]\<rparr>) rules
         else if rAccess rule = PathAccessHidden then
           applyPathRules (p\<lparr>pHiddenRoots := pHiddenRoots p @ [path]\<rparr>) rules
         else applyPathRules p rules)"

definition normalize_policy :: "Policy \<Rightarrow> Policy" where
  "normalize_policy p =
     p\<lparr>pWritableRoots := normalizeStringSlice (pWritableRoots p),
       pGitProtectionRoots := normalizeStringSlice (pGitProtectionRoots p),
       pWriteOverrides := normalizeStringSlice (pWriteOverrides p),
       pHiddenRoots := normalizeStringSlice (pHiddenRoots p),
       pReadOnlySubpaths := normalizeStringSlice (pReadOnlySubpaths p)\<rparr>"

definition Default :: "Config \<Rightarrow> Constraints \<Rightarrow> Policy" where
  "Default cfg constraints =
     (case gResourceLimits cfg of
        Some limits \<Rightarrow>
          \<lparr>pResourceLimits = Some limits, pType = TypeWorkspaceWrite,
           pNetworkAccess = (lNetwork limits \<noteq> NetworkDisabled), pWritableRoots = lWritePaths limits,
           pGitProtectionRoots = [], pWriteOverrides = [], pHiddenRoots = [], pReadOnlySubpaths = []\<rparr>
      | None \<Rightarrow>
          let p = \<lparr>pResourceLimits = None, pType = TypeWorkspaceWrite,
                   pNetworkAccess = (cNetwork constraints \<noteq> NetworkDisabled),
                   pWritableRoots = gWritableRoots cfg, pGitProtectionRoots = gWritableRoots cfg,
                   pWriteOverrides = [], pHiddenRoots = [], pReadOnlySubpaths = gReadOnlySubpaths cfg\<rparr>
          in if cPermission constraints = PermissionFullAccess
             then normalize_policy (p\<lparr>pType := TypeDangerFull, pNetworkAccess := True, pWritableRoots := [],
                     pGitProtectionRoots := [], pWriteOverrides := [], pHiddenRoots := [], pReadOnlySubpaths := []\<rparr>)
             else let p = p\<lparr>pReadOnlySubpaths := pReadOnlySubpaths p @ [''.git'']\<rparr>;
                      p = (if cNetwork constraints = [] then p\<lparr>pNetworkAccess := True\<rparr> else p)
                  in normalize_policy (applyPathRules p (cPathRules constraints)))"

section \<open>Facts\<close>

lemma ClonePathRules_idem [simp]: "ClonePathRules (ClonePathRules rules) = ClonePathRules rules"
  by (simp add: ClonePathRules_def)

lemma NormalizeConstraints_idem [simp]: "NormalizeConstraints (NormalizeConstraints c) = NormalizeConstraints c"
  by (simp add: NormalizeConstraints_def)

lemma explicit_host_normalized [simp]:
  "ConstraintsRequestExplicitHost (NormalizeConstraints c) = ConstraintsRequestExplicitHost c"
  by (simp add: ConstraintsRequestExplicitHost_def)

lemma normalize_strings_spec:
  "distinct (normalize_strings seen raws) \<and>
   set (normalize_strings seen raws) = {v \<in> TrimSpace ` set raws. v \<noteq> []} - set seen"
  by (induction seen raws rule: normalize_strings.induct) (auto simp: Let_def)

lemma normalizeStringSlice_distinct: "distinct (normalizeStringSlice raws)"
  using normalize_strings_spec [of "[]" raws] by (simp add: normalizeStringSlice_def)

lemma set_normalizeStringSlice: "set (normalizeStringSlice raws) = {v \<in> TrimSpace ` set raws. v \<noteq> []}"
  using normalize_strings_spec [of "[]" raws] by (simp add: normalizeStringSlice_def)

lemma normalize_strings_fixed:
  "distinct raws \<Longrightarrow> set raws \<inter> set seen = {} \<Longrightarrow> (\<forall>v \<in> set raws. v \<noteq> [] \<and> TrimSpace v = v) \<Longrightarrow>
   normalize_strings seen raws = raws"
  by (induction seen raws rule: normalize_strings.induct) (auto simp: Let_def)

lemma normalizeStringSlice_idem [simp]:
  "normalizeStringSlice (normalizeStringSlice raws) = normalizeStringSlice raws"
  unfolding normalizeStringSlice_def
  by (rule normalize_strings_fixed) (use normalize_strings_spec [of "[]" raws] in auto)

lemma CanonicalBackend_trim [simp]: "CanonicalBackend (TrimSpace b) = CanonicalBackend b"
  by (simp add: CanonicalBackend_def Let_def)

lemma CanonicalBackend_names:
  "CanonicalBackend [] = []" "CanonicalBackend ''host'' = ''host''" "CanonicalBackend ''seatbelt'' = ''seatbelt''"
  "CanonicalBackend ''bwrap'' = ''bwrap''" "CanonicalBackend ''landlock'' = ''landlock''"
  "CanonicalBackend ''windows'' = ''windows''" "CanonicalBackend ''custom'' = ''custom''"
  by (simp_all add: CanonicalBackend_def go_simps lower_char_def)

lemma CanonicalBackend_cases:
  "CanonicalBackend b \<in> {[], ''host'', ''seatbelt'', ''bwrap'', ''landlock'', ''windows'', ''custom'', TrimSpace b}"
  by (simp add: CanonicalBackend_def Let_def)

lemma CanonicalBackend_idem [simp]: "CanonicalBackend (CanonicalBackend b) = CanonicalBackend b"
  using CanonicalBackend_cases [of b] by (auto simp: CanonicalBackend_names)

lemma ClonePolicySnapshot_idem [simp]: "ClonePolicySnapshot (ClonePolicySnapshot s) = ClonePolicySnapshot s"
  by (simp add: ClonePolicySnapshot_def)

lemma applyPathRules_same:
  "pResourceLimits (applyPathRules p rules) = pResourceLimits p"
  "pType (applyPathRules p rules) = pType p"
  "pNetworkAccess (applyPathRules p rules) = pNetworkAccess p"
  "pGitProtectionRoots (applyPathRules p rules) = pGitProtectionRoots p"
  "pReadOnlySubpaths (applyPathRules p rules) = pReadOnlySubpaths p"
  by (induction p rules rule: applyPathRules.induct) (auto simp: Let_def)

lemma applyPathRules_roots:
  "set (pWritableRoots (applyPathRules p rules)) =
     set (pWritableRoots p) \<union> {TrimSpace (rPath r) | r. r \<in> set rules \<and> rAccess r = PathAccessReadWrite \<and> TrimSpace (rPath r) \<noteq> []}"
  by (induction p rules rule: applyPathRules.induct) (auto simp: Let_def)

lemma trimmed_union:
  assumes "\<And>v. v \<in> B \<Longrightarrow> TrimSpace v = v \<and> v \<noteq> []"
  shows "{v \<in> TrimSpace ` (A \<union> B). v \<noteq> []} = {TrimSpace p | p. p \<in> A \<and> TrimSpace p \<noteq> []} \<union> B"
proof -
  have "TrimSpace ` B = B" using assms by force
  with assms show ?thesis by (auto simp: image_Un)
qed

lemma TrimSpace_git [simp]: "TrimSpace ''.git'' = ''.git''"
  by (rule TrimSpace_nonspace) (simp add: is_space_def)

section \<open>Properties\<close>

text \<open>An embedding-owned resource ceiling cannot be widened: with limits in the
  configuration the effective policy is the same for every constraint set, it never has the
  full-access type, and its writable roots and network access are those of the limits.\<close>

theorem resource_limits_dominate:
  assumes "gResourceLimits cfg = Some limits"
  shows "Default cfg c = Default cfg c' \<and> pType (Default cfg c) \<noteq> TypeDangerFull \<and>
         pWritableRoots (Default cfg c) = lWritePaths limits \<and>
         (pNetworkAccess (Default cfg c) \<longleftrightarrow> lNetwork limits \<noteq> NetworkDisabled)"
  using assms by (simp add: Default_def)

lemma resource_limits_dominate_witness:
  "pWritableRoots (Default \<lparr>gWritableRoots = [''/a''], gReadOnlySubpaths = [],
      gResourceLimits = Some \<lparr>lReadPaths = None, lWritePaths = [''/w''], lNetwork = NetworkDisabled\<rparr>\<rparr>
      (no_constraints\<lparr>cPermission := PermissionFullAccess\<rparr>)) = [''/w'']"
  using resource_limits_dominate [of "\<lparr>gWritableRoots = [''/a''], gReadOnlySubpaths = [],
      gResourceLimits = Some \<lparr>lReadPaths = None, lWritePaths = [''/w''], lNetwork = NetworkDisabled\<rparr>\<rparr>"
      "\<lparr>lReadPaths = None, lWritePaths = [''/w''], lNetwork = NetworkDisabled\<rparr>"] by simp

text \<open>Without a ceiling and without full access, Git metadata stays read-only and the
  writable roots are exactly the configured ones and the read-write rules, each once.\<close>

theorem workspace_policy_roots:
  assumes "gResourceLimits cfg = None" and "cPermission c \<noteq> PermissionFullAccess"
  shows "''.git'' \<in> set (pReadOnlySubpaths (Default cfg c)) \<and> distinct (pWritableRoots (Default cfg c)) \<and>
         set (pWritableRoots (Default cfg c)) =
           {TrimSpace p | p. p \<in> set (gWritableRoots cfg) \<and> TrimSpace p \<noteq> []} \<union>
           {TrimSpace (rPath r) | r. r \<in> set (cPathRules c) \<and> rAccess r = PathAccessReadWrite \<and> TrimSpace (rPath r) \<noteq> []}"
proof -
  define p where "p = \<lparr>pResourceLimits = None, pType = TypeWorkspaceWrite,
    pNetworkAccess = (cNetwork c = [] \<or> cNetwork c \<noteq> NetworkDisabled),
    pWritableRoots = gWritableRoots cfg, pGitProtectionRoots = gWritableRoots cfg,
    pWriteOverrides = [], pHiddenRoots = [], pReadOnlySubpaths = gReadOnlySubpaths cfg @ [''.git'']\<rparr>"
  have eq: "Default cfg c = normalize_policy (applyPathRules p (cPathRules c))"
    using assms by (simp add: Default_def p_def Let_def)
  have git: "''.git'' \<in> set (pReadOnlySubpaths (Default cfg c))"
    unfolding eq normalize_policy_def
    by (simp add: set_normalizeStringSlice applyPathRules_same p_def)
  have roots: "set (pWritableRoots (Default cfg c)) =
      {v \<in> TrimSpace ` set (pWritableRoots (applyPathRules p (cPathRules c))). v \<noteq> []}"
    unfolding eq normalize_policy_def by (simp add: set_normalizeStringSlice)
  have "set (pWritableRoots (applyPathRules p (cPathRules c))) = set (gWritableRoots cfg) \<union>
      {TrimSpace (rPath r) | r. r \<in> set (cPathRules c) \<and> rAccess r = PathAccessReadWrite \<and> TrimSpace (rPath r) \<noteq> []}"
    unfolding applyPathRules_roots by (simp add: p_def)
  then have "set (pWritableRoots (Default cfg c)) =
      {TrimSpace p | p. p \<in> set (gWritableRoots cfg) \<and> TrimSpace p \<noteq> []} \<union>
      {TrimSpace (rPath r) | r. r \<in> set (cPathRules c) \<and> rAccess r = PathAccessReadWrite \<and> TrimSpace (rPath r) \<noteq> []}"
    unfolding roots by (simp only:) (rule trimmed_union, auto)
  moreover have "distinct (pWritableRoots (Default cfg c))"
    by (simp add: eq normalize_policy_def normalizeStringSlice_distinct)
  ultimately show ?thesis using git by blast
qed

lemma workspace_policy_roots_witness:
  "''.git'' \<in> set (pReadOnlySubpaths (Default \<lparr>gWritableRoots = [''/w''], gReadOnlySubpaths = [], gResourceLimits = None\<rparr>
      (no_constraints\<lparr>cPermission := PermissionWorkspaceWrite\<rparr>)))"
  using workspace_policy_roots [of "\<lparr>gWritableRoots = [''/w''], gReadOnlySubpaths = [], gResourceLimits = None\<rparr>"
      "no_constraints\<lparr>cPermission := PermissionWorkspaceWrite\<rparr>"] by simp

end
