(* ===== verification/Policy_Core.thy ===== *)
theory Policy_Core
  imports Sandbox_Types
begin

text \<open>
  The tool-authorization contract, \<open>agent-sdk/policy/policy.go\<close>, \<open>profile.go\<close> and
  \<open>registry.go\<close>: tool contexts, decisions, their normalization, named modes and the
  memory registry.

  An error result of the Go code is \<^const>\<open>Inl\<close>; the decision value that Go returns beside
  a non-nil error is dropped.  Of an approval request the model keeps the tool call and the
  offered options (the title and the display evidence are not part of the decision).
  Metadata values are texts, policy snapshots, or one of the values that
  \<open>jsonvalue.Validate\<close> refuses.
\<close>

section \<open>Contexts and decisions\<close>

record ModeOptions =
  moWorkspaceRoot :: string
  moTempRoot :: string
  moExtraReadRoots :: "string list"
  moWritableRoots :: "string list"
  moNetworkEnabled :: "bool option"

text \<open>The raw input of a tool call as \<open>json.Unmarshal\<close> into a map sees it.\<close>

datatype tool_input = EmptyInput | MalformedInput | ObjectInput json_map

record ToolContext =
  tcToolName :: string
  tcCommandExec :: bool
  tcCallID :: string
  tcCallName :: string
  tcInput :: tool_input
  tcSandbox :: Descriptor
  tcSandboxPolicy :: PolicySnapshot
  tcOptions :: ModeOptions

type_synonym Action = string

abbreviation "ActionAllow \<equiv> ''allow''"
abbreviation "ActionDeny \<equiv> ''deny''"
abbreviation "ActionAskApproval \<equiv> ''ask_approval''"

datatype meta_value = MetaText string | MetaSnapshot PolicySnapshot | MetaNonFinite | MetaUnsupported

record ApprovalOption =
  aoID :: string
  aoName :: string
  aoKind :: string

record ApprovalRequest =
  arCallID :: string
  arName :: string
  arKind :: string
  arStatus :: string
  arRawInput :: json_map
  arOptions :: "ApprovalOption list"

record Decision =
  dAction :: Action
  dReason :: string
  dConstraints :: Constraints
  dMetadata :: "(string \<times> meta_value) list"
  dApproval :: "ApprovalRequest option"

datatype policy_error =
    ToolInputDecodeError string
  | DecisionError string string
  | PathError string
  | ArgumentError string

text \<open>\<open>err.Error()\<close> for the errors that a preset turns into a deny reason.\<close>

fun error_text :: "policy_error \<Rightarrow> string" where
  "error_text (ToolInputDecodeError name) = ''decode tool call input for '' @ name"
| "error_text (DecisionError mode detail) = ''agent-sdk/policy: '' @ detail"
| "error_text (PathError msg) = msg"
| "error_text (ArgumentError msg) = msg"

type_synonym 'a policy_result = "policy_error + 'a"

definition CallArgs :: "ToolContext \<Rightarrow> json_map policy_result" where
  "CallArgs input =
     (case tcInput input of
        EmptyInput \<Rightarrow> Inr []
      | MalformedInput \<Rightarrow> Inl (ToolInputDecodeError (TrimSpace (tcCallName input)))
      | ObjectInput m \<Rightarrow> Inr m)"

section \<open>Copies\<close>

definition cloneStringSlice :: "string list \<Rightarrow> string list" where
  "cloneStringSlice xs = filter (\<lambda>t. t \<noteq> []) (map TrimSpace xs)"

definition CloneModeOptions :: "ModeOptions \<Rightarrow> ModeOptions" where
  "CloneModeOptions opts =
     opts\<lparr>moWorkspaceRoot := TrimSpace (moWorkspaceRoot opts), moTempRoot := TrimSpace (moTempRoot opts),
       moExtraReadRoots := cloneStringSlice (moExtraReadRoots opts),
       moWritableRoots := cloneStringSlice (moWritableRoots opts)\<rparr>"

definition CloneToolContext :: "ToolContext \<Rightarrow> ToolContext" where
  "CloneToolContext c =
     c\<lparr>tcSandbox := CloneDescriptor (tcSandbox c), tcSandboxPolicy := ClonePolicySnapshot (tcSandboxPolicy c),
       tcOptions := CloneModeOptions (tcOptions c)\<rparr>"

definition CloneProtocolApproval :: "ApprovalRequest \<Rightarrow> ApprovalRequest" where
  "CloneProtocolApproval a =
     a\<lparr>arCallID := TrimSpace (arCallID a), arName := TrimSpace (arName a), arKind := TrimSpace (arKind a),
       arStatus := TrimSpace (arStatus a),
       arOptions := map (\<lambda>opt. \<lparr>aoID = TrimSpace (aoID opt), aoName = TrimSpace (aoName opt), aoKind = TrimSpace (aoKind opt)\<rparr>)
                      (arOptions a)\<rparr>"

definition CloneDecision :: "Decision \<Rightarrow> Decision" where
  "CloneDecision d =
     d\<lparr>dAction := TrimSpace (dAction d), dReason := TrimSpace (dReason d),
       dConstraints := NormalizeConstraints (dConstraints d),
       dApproval := map_option CloneProtocolApproval (dApproval d)\<rparr>"

section \<open>Validation\<close>

definition oneOf :: "string \<Rightarrow> string list \<Rightarrow> bool" where
  "oneOf value allowed = list_ex (\<lambda>candidate. value = candidate) allowed"

fun validate_rules :: "PathRule list \<Rightarrow> bool" where
  "validate_rules [] = True"
| "validate_rules (rule # rules) =
     (TrimSpace (rPath rule) \<noteq> [] \<and> oneOf (rAccess rule) [PathAccessReadWrite, PathAccessHidden] \<and> validate_rules rules)"

text \<open>\<open>validateConstraints\<close> returns the name of the offending part.\<close>

definition validateConstraints :: "Constraints \<Rightarrow> string option" where
  "validateConstraints c =
     (if \<not> oneOf (cRoute c) ['''', RouteHost, RouteSandbox] then Some ''route''
      else if \<not> oneOf (cPermission c) ['''', PermissionDefault, PermissionWorkspaceWrite, PermissionFullAccess] then Some ''permission''
      else if \<not> oneOf (cIsolation c) ['''', IsolationHost, IsolationProcess, IsolationContainer] then Some ''isolation''
      else if \<not> oneOf (cNetwork c) ['''', NetworkInherit, NetworkEnabledText, NetworkDisabled] then Some ''network''
      else if \<not> validate_rules (cPathRules c) then Some ''path_rules''
      else None)"

definition metadata_valid :: "(string \<times> meta_value) list \<Rightarrow> bool" where
  "metadata_valid m = list_all (\<lambda>(k, v). v \<noteq> MetaNonFinite \<and> v \<noteq> MetaUnsupported) m"

definition NormalizeDecision :: "string \<Rightarrow> Decision \<Rightarrow> Decision policy_result" where
  "NormalizeDecision mode d =
     (let out = CloneDecision d
      in if \<not> (dAction out = ActionAllow \<or> dAction out = ActionDeny \<or> dAction out = ActionAskApproval) then
           Inl (DecisionError mode (if dAction out \<noteq> [] then ''unsupported decision action'' else ''decision action is required''))
         else if validateConstraints (dConstraints out) \<noteq> None then Inl (DecisionError mode ''invalid constraints'')
         else if \<not> metadata_valid (dMetadata out) then Inl (DecisionError mode ''invalid metadata'')
         else Inr out)"

section \<open>Modes\<close>

type_synonym decide_fun = "ToolContext \<Rightarrow> Decision policy_result"

record NamedMode =
  nmID :: string
  nmDecide :: "decide_fun option"

definition mode_name :: "NamedMode \<Rightarrow> string" where
  "mode_name m = TrimSpace (nmID m)"

definition DecideTool :: "NamedMode \<Rightarrow> ToolContext \<Rightarrow> Decision policy_result" where
  "DecideTool m input =
     (case nmDecide m of
        None \<Rightarrow> Inl (DecisionError (mode_name m) ''decision function is required'')
      | Some decide \<Rightarrow>
          (case decide (CloneToolContext input) of
             Inl e \<Rightarrow> Inl e
           | Inr decision \<Rightarrow> NormalizeDecision (mode_name m) decision))"

section \<open>Profiles and the registry\<close>

abbreviation "ProfileWorkspaceWrite \<equiv> ''workspace-write''"

definition NormalizeProfileName :: "string \<Rightarrow> string" where
  "NormalizeProfileName profile =
     (let t = ToLower (TrimSpace profile)
      in if t \<in> {'''', ''manual'', ''auto'', ''auto-review'', ''auto_review'', ''autoreview''} then []
         else if t \<in> {''default'', ''plan'', ''full_control'', ''full_access'', ''workspace-write'', ''workspace_write'', ''workspacewrite''}
           then ProfileWorkspaceWrite
         else TrimSpace profile)"

type_synonym MemoryRegistry = "string \<rightharpoonup> NamedMode"

datatype registry_error = ModeNameRequired

definition registry_key :: "string \<Rightarrow> string" where
  "registry_key name = TrimSpace (ToLower name)"

definition Register :: "MemoryRegistry \<Rightarrow> NamedMode \<Rightarrow> registry_error + MemoryRegistry" where
  "Register r mode =
     (let name = registry_key (mode_name mode)
      in if name = [] then Inl ModeNameRequired else Inr (r(name \<mapsto> mode)))"

fun register_all :: "MemoryRegistry \<Rightarrow> NamedMode list \<Rightarrow> registry_error + MemoryRegistry" where
  "register_all r [] = Inr r"
| "register_all r (m # ms) = (case Register r m of Inl e \<Rightarrow> Inl e | Inr r' \<Rightarrow> register_all r' ms)"

definition NewMemory :: "NamedMode list \<Rightarrow> registry_error + MemoryRegistry" where
  "NewMemory modes = register_all Map.empty modes"

definition Lookup :: "MemoryRegistry \<Rightarrow> string \<Rightarrow> NamedMode option" where
  "Lookup r name = r (registry_key name)"

section \<open>Facts\<close>

text \<open>What every normalized decision satisfies.\<close>

definition decision_ok :: "Decision \<Rightarrow> bool" where
  "decision_ok d \<longleftrightarrow>
     dAction d \<in> {ActionAllow, ActionDeny, ActionAskApproval} \<and> validateConstraints (dConstraints d) = None \<and>
     NormalizeConstraints (dConstraints d) = dConstraints d \<and> metadata_valid (dMetadata d)"

lemma NormalizeDecision_ok: "NormalizeDecision mode d = Inr out \<Longrightarrow> decision_ok out \<and> out = CloneDecision d"
  by (auto simp: NormalizeDecision_def Let_def decision_ok_def CloneDecision_def split: if_splits)

lemma CloneProtocolApproval_idem [simp]: "CloneProtocolApproval (CloneProtocolApproval a) = CloneProtocolApproval a"
  by (simp add: CloneProtocolApproval_def)

lemma CloneDecision_idem [simp]: "CloneDecision (CloneDecision d) = CloneDecision d"
  by (cases "dApproval d") (simp_all add: CloneDecision_def)


lemma cloneStringSlice_idem [simp]: "cloneStringSlice (cloneStringSlice xs) = cloneStringSlice xs"
proof -
  have "map TrimSpace (filter (\<lambda>t. t \<noteq> []) (map TrimSpace xs)) = filter (\<lambda>t. t \<noteq> []) (map TrimSpace xs)"
    by (rule map_idI) auto
  then show ?thesis by (simp add: cloneStringSlice_def)
qed

lemma CloneDescriptor_idem [simp]: "CloneDescriptor (CloneDescriptor d) = CloneDescriptor d"
  by (simp add: CloneDescriptor_def)

lemma CloneToolContext_idem [simp]: "CloneToolContext (CloneToolContext c) = CloneToolContext c"
  by (simp add: CloneToolContext_def CloneModeOptions_def)

lemma DecideTool_ok: "DecideTool m input = Inr d \<Longrightarrow> decision_ok d"
  by (auto simp: DecideTool_def dest: NormalizeDecision_ok split: option.splits sum.splits)

section \<open>The registry as an interface\<close>

text \<open>
  What a mode registry promises: a registration that succeeds is the answer for every
  spelling of its name and leaves the other names alone.
\<close>

locale mode_registry =
  fixes register :: "'r \<Rightarrow> 'm \<Rightarrow> 'e + 'r"
    and find_mode :: "'r \<Rightarrow> 'k \<Rightarrow> 'm option"
    and names :: "'m \<Rightarrow> 'k \<Rightarrow> bool"
  assumes find_register: "register r m = Inr r' \<Longrightarrow> find_mode r' k = (if names m k then Some m else find_mode r k)"
begin

fun register_list :: "'r \<Rightarrow> 'm list \<Rightarrow> 'e + 'r" where
  "register_list r [] = Inr r"
| "register_list r (m # ms) = (case register r m of Inl e \<Rightarrow> Inl e | Inr r' \<Rightarrow> register_list r' ms)"

lemma find_register_list:
  "register_list r ms = Inr r' \<Longrightarrow>
   find_mode r' k = (case find (\<lambda>m. names m k) (rev ms) of Some m \<Rightarrow> Some m | None \<Rightarrow> find_mode r k)"
proof (induction ms arbitrary: r)
  case (Cons m ms)
  then obtain r1 where r1: "register r m = Inr r1" "register_list r1 ms = Inr r'" by (auto split: sum.splits)
  have find_snoc: "find P (xs @ [x]) = (case find P xs of Some y \<Rightarrow> Some y | None \<Rightarrow> if P x then Some x else None)"
    for P :: "'m \<Rightarrow> bool" and xs x by (induction xs) auto
  show ?case
    using Cons.IH [OF r1(2)] find_register [OF r1(1), of k]
    by (auto simp: find_snoc split: option.splits)
qed simp

end

definition mode_answers :: "NamedMode \<Rightarrow> string \<Rightarrow> bool" where
  "mode_answers m name \<longleftrightarrow> registry_key name = registry_key (mode_name m)"

interpretation memory_registry: mode_registry Register Lookup mode_answers
  by unfold_locales (auto simp: Register_def Lookup_def mode_answers_def Let_def split: if_splits)

lemma register_all_list: "register_all r ms = memory_registry.register_list r ms"
  by (induction r ms rule: register_all.induct) (auto split: sum.splits)

section \<open>Properties\<close>



end
