(* ===== verification/Fs_Boundary.thy ===== *)
theory Fs_Boundary
  imports Sandbox_Types
begin

text \<open>
  Physical path boundaries, \<open>agent-sdk/sandbox/backend/fsboundary/boundary.go\<close> on a Unix
  build, and the developer cache roots of \<open>agent-sdk/policy/devcache/roots.go\<close>.

  The operating system is a parameter, the record \<open>os_env\<close>: the environment variables,
  the home, cache, temporary and working directories, and two questions about the file
  system, \<open>os.Lstat\<close> (does the path exist) and \<open>filepath.EvalSymlinks\<close>.  A failing call is
  \<^const>\<open>None\<close>, or the empty string where the code drops the error.  The working
  directory and the home directory that a sandbox file system may provide are the
  optional record \<open>path_context\<close>.
\<close>

section \<open>The operating system\<close>

record os_env =
  UserHomeDir :: "string option"
  UserCacheDir :: "string option"
  TempDir :: string
  Getwd :: string
  Getenv :: "string \<Rightarrow> string"
  GOOS_darwin :: bool
  EvalSymlinks :: "string \<Rightarrow> string option"
  Lstat :: "string \<Rightarrow> bool"

record path_context =
  ctx_Getwd :: string
  ctx_UserHomeDir :: "string option"

section \<open>Absolute paths\<close>

definition ResolveAbsPath :: "os_env \<Rightarrow> string \<Rightarrow> path_context option \<Rightarrow> string" where
  "ResolveAbsPath os path0 ctx =
     (let path = TrimSpace path0
      in if path = [] then []
         else let home = (case ctx of Some c \<Rightarrow> ctx_UserHomeDir c | None \<Rightarrow> UserHomeDir os);
                  path = (if HasPrefix path ''~/''
                          then (case home of Some h \<Rightarrow> filepath_Join [h, drop 2 path] | None \<Rightarrow> path)
                          else path);
                  wd = (case ctx of Some c \<Rightarrow> ctx_Getwd c | None \<Rightarrow> []);
                  wd = (if wd = [] then Getwd os else wd);
                  path = (if filepath_IsAbs path then path else filepath_Join [wd, path])
              in filepath_Clean path)"

definition ResolveAbsRoot :: "os_env \<Rightarrow> string \<Rightarrow> path_context option \<Rightarrow> string" where
  "ResolveAbsRoot os root0 ctx =
     (let root = TrimSpace root0
      in if root = [] then []
         else if filepath_IsAbs root then filepath_Clean root
         else let wd = (case ctx of Some c \<Rightarrow> ctx_Getwd c | None \<Rightarrow> []);
                  wd = (if wd = [] then Getwd os else wd)
              in if wd = [] then [] else filepath_Clean (filepath_Join [wd, root]))"

section \<open>Symbolic links\<close>

subsection \<open>Climbing to the parent ends\<close>

definition comps_weight :: "string list \<Rightarrow> nat" where
  "comps_weight cs = (\<Sum>c \<leftarrow> cs. length c + 1)"

lemma comps_weight_simps [simp]:
  "comps_weight [] = 0" "comps_weight (c # cs) = length c + 1 + comps_weight cs"
  "comps_weight (rev cs) = comps_weight cs"
  by (simp_all add: comps_weight_def rev_map [symmetric] sum_list_rev)

lemma comps_weight_Split: "comps_weight (Split s sep) = length s + 1"
proof (induction s)
  case (Cons c s)
  then show ?case by (cases "Split s sep") auto
qed simp

lemma clean_stack_weight: "comps_weight (clean_stack rooted st cs) \<le> comps_weight st + comps_weight cs"
proof (induction rooted st cs rule: clean_stack.induct)
  case (2 rooted st c cs)
  show ?case
  proof (cases "c = []")
    case True
    with 2 show ?thesis by simp
  next
    case ne: False
    show ?thesis
    proof (cases st)
      case Nil
      with 2 ne show ?thesis by (cases "c = ''.''"; cases "c = ''..''"; cases rooted) auto
    next
      case (Cons t ts)
      with 2 ne show ?thesis by (cases "c = ''.''"; cases "c = ''..''"; cases "t = ''..''") auto
    qed
  qed
qed simp

lemma length_Join_comps: "length (Join cs [slash]) \<le> comps_weight cs - 1"
  using length_Join_one [of cs slash] by (cases cs) (auto simp: comps_weight_def)

lemma length_Clean: "p \<noteq> [] \<Longrightarrow> length (filepath_Clean p) \<le> length p"
proof -
  assume p: "p \<noteq> []"
  show ?thesis
  proof (cases "filepath_IsAbs p")
    case True
    then obtain q where q: "p = slash # q" by (auto simp: filepath_IsAbs_def HasPrefix_def prefix_def)
    have "comps_weight (clean_stack True [] (Split p slash)) \<le> length q + 1"
      using clean_stack_weight [of True "[]" "Split q slash"] comps_weight_Split [of q slash] by (simp add: q)
    with length_Join_comps [of "clean_stack True [] (Split p slash)"] True p q show ?thesis
      by (simp add: filepath_Clean_def)
  next
    case False
    have "comps_weight (clean_stack False [] (Split p slash)) \<le> length p + 1"
      using clean_stack_weight [of False "[]" "Split p slash"] comps_weight_Split [of p slash] by simp
    with length_Join_comps [of "clean_stack False [] (Split p slash)"] False p show ?thesis
      by (cases p) (auto simp: filepath_Clean_def split: list.splits)
  qed
qed

lemma Split_snoc_sep: "Split (q @ [sep]) sep = Split q sep @ [[]]"
  by (induction q) (auto split: list.splits)

lemma clean_stack_snoc_empty: "clean_stack rooted st (cs @ [[]]) = clean_stack rooted st cs"
  by (induction rooted st cs rule: clean_stack.induct) (auto split: list.splits)

lemma Clean_snoc_slash: "q \<noteq> [] \<Longrightarrow> filepath_Clean (q @ [slash]) = filepath_Clean q"
proof -
  assume "q \<noteq> []"
  then have "filepath_IsAbs (q @ [slash]) = filepath_IsAbs q"
    by (cases q) (auto simp: filepath_IsAbs_def HasPrefix_def)
  with \<open>q \<noteq> []\<close> show ?thesis
    by (simp add: filepath_Clean_def Split_snoc_sep clean_stack_snoc_empty)
qed

lemma upto_last_slash_cases:
  obtains "upto_last_slash p = []" | q where "upto_last_slash p = q @ [slash]" "length q < length p"
proof (cases "dropWhile (\<lambda>c. c \<noteq> slash) (rev p)")
  case Nil
  then show ?thesis using that(1) by (simp add: upto_last_slash_def)
next
  case (Cons c r)
  then have "c = slash" using hd_dropWhile [of "\<lambda>c. c \<noteq> slash" "rev p"] by simp
  moreover have "length (c # r) \<le> length p"
    using length_dropWhile_le [of "\<lambda>c. c \<noteq> slash" "rev p"] Cons by simp
  ultimately show ?thesis using that(2) [of "rev r"] Cons by (simp add: upto_last_slash_def)
qed

definition climb_measure :: "string \<Rightarrow> nat" where
  "climb_measure cur = 2 * length cur + (if cur = ''.'' then 0 else 1)"

lemma Dir_smaller:
  assumes "cur \<noteq> []" and "filepath_Dir cur \<noteq> cur"
  shows "climb_measure (filepath_Dir cur) < climb_measure cur"
proof (cases rule: upto_last_slash_cases [of cur])
  case 1
  with assms show ?thesis by (cases cur) (auto simp: filepath_Dir_def filepath_Clean_def climb_measure_def)
next
  case (2 q)
  show ?thesis
  proof (cases "q = []")
    case True
    with 2 have "filepath_Dir cur = [slash]" by (simp add: filepath_Dir_def filepath_Clean_def filepath_IsAbs_def HasPrefix_def)
    moreover have "cur \<noteq> ''.''" using 2 True by (auto simp: upto_last_slash_def)
    ultimately show ?thesis using assms 2
      by (cases cur; cases "tl cur") (auto simp: climb_measure_def upto_last_slash_def split: if_splits)
  next
    case False
    with 2 have "length (filepath_Dir cur) \<le> length q" by (simp add: filepath_Dir_def Clean_snoc_slash length_Clean)
    moreover have "cur \<noteq> ''.''" using 2 by (auto simp: upto_last_slash_def)
    ultimately show ?thesis using 2 by (simp add: climb_measure_def)
  qed
qed

subsection \<open>Resolving\<close>

text \<open>The loop of \<open>ResolvePathWithSymlinks\<close>; \<open>suffix\<close> holds the missing components, the
  outermost last.\<close>

function resolve_climb :: "os_env \<Rightarrow> string \<Rightarrow> string \<Rightarrow> string list \<Rightarrow> string" where
  "resolve_climb os clean cur sfx =
     (if cur = [] then clean
      else if Lstat os cur then
        (case EvalSymlinks os cur of
           None \<Rightarrow> clean
         | Some resolved \<Rightarrow>
             filepath_Clean (foldr (\<lambda>name acc. filepath_Join [acc, name]) sfx (filepath_Clean resolved)))
      else if filepath_Dir cur = cur then clean
      else resolve_climb os clean (filepath_Dir cur) (sfx @ [filepath_Base cur]))"
  by pat_completeness auto
termination
  by (relation "measure (\<lambda>(os, clean, cur, sfx). climb_measure cur)") (auto intro: Dir_smaller)

declare resolve_climb.simps [simp del]

definition ResolvePathWithSymlinks :: "os_env \<Rightarrow> string \<Rightarrow> string" where
  "ResolvePathWithSymlinks os path0 =
     (let path = TrimSpace path0
      in if path = [] then []
         else let clean = filepath_Clean path
              in case EvalSymlinks os clean of
                   Some resolved \<Rightarrow> filepath_Clean resolved
                 | None \<Rightarrow> resolve_climb os clean clean [])"

section \<open>Containment\<close>

definition PathIsUnder :: "string \<Rightarrow> string \<Rightarrow> bool" where
  "PathIsUnder target root =
     (if target = root then True
      else let prefix = (if HasSuffix root [slash] then root else root @ [slash]) in HasPrefix target prefix)"

definition IsWithinRoots :: "os_env \<Rightarrow> string \<Rightarrow> string list \<Rightarrow> path_context option \<Rightarrow> bool" where
  "IsWithinRoots os target roots ctx =
     (let absTarget = ResolvePathWithSymlinks os (ResolveAbsPath os target ctx)
      in list_ex (\<lambda>root. let absRoot = ResolvePathWithSymlinks os (ResolveAbsRoot os root ctx)
                         in absRoot \<noteq> [] \<and> PathIsUnder absTarget absRoot) roots)"

definition scratchRoots :: "os_env \<Rightarrow> path_context option \<Rightarrow> string list" where
  "scratchRoots os ctx =
     (let tmp = TrimSpace (TempDir os);
          tmps = (if tmp \<noteq> [] then [ResolvePathWithSymlinks os (filepath_Clean tmp)] else []);
          fixed = map (\<lambda>r. ResolvePathWithSymlinks os (filepath_Clean r)) [''/tmp'', ''/var/tmp'', ''/private/tmp''];
          home = (case ctx of Some c \<Rightarrow> (case ctx_UserHomeDir c of Some h \<Rightarrow> h | None \<Rightarrow> []) | None \<Rightarrow> []);
          home = (if home = [] then (case UserHomeDir os of Some h \<Rightarrow> h | None \<Rightarrow> []) else home);
          caches = (if TrimSpace home \<noteq> [] then [ResolvePathWithSymlinks os (filepath_Join [home, ''.cache''])] else [])
      in normalizeStringSlice (tmps @ fixed @ caches))"

definition IsWithinScratchRoots :: "os_env \<Rightarrow> string \<Rightarrow> path_context option \<Rightarrow> bool" where
  "IsWithinScratchRoots os target ctx =
     (let absTarget = ResolvePathWithSymlinks os (ResolveAbsPath os target ctx)
      in list_ex (PathIsUnder absTarget) (scratchRoots os ctx))"

section \<open>Developer caches\<close>

definition clean_nonempty :: "string \<Rightarrow> string list" where
  "clean_nonempty path = (if TrimSpace path = [] then [] else [filepath_Clean (TrimSpace path)])"

definition append_root :: "string \<Rightarrow> string list" where
  "append_root path0 =
     (let path = TrimSpace path0 in if path = [] \<or> path = ''off'' then [] else clean_nonempty path)"

definition userCacheRoot :: "os_env \<Rightarrow> string \<Rightarrow> string" where
  "userCacheRoot os home =
     (let cache = TrimSpace (Getenv os ''XDG_CACHE_HOME'')
      in if cache \<noteq> [] then filepath_Clean cache
         else case UserCacheDir os of
                Some dir \<Rightarrow>
                  if TrimSpace dir \<noteq> [] then filepath_Clean dir
                  else if TrimSpace home = [] then []
                  else if GOOS_darwin os then filepath_Join [home, ''Library'', ''Caches''] else filepath_Join [home, ''.cache'']
              | None \<Rightarrow>
                  if TrimSpace home = [] then []
                  else if GOOS_darwin os then filepath_Join [home, ''Library'', ''Caches''] else filepath_Join [home, ''.cache''])"

text \<open>\<open>filepath.SplitList\<close> splits by a colon on Unix and gives no element for the empty
  text.\<close>

definition goPathRoots :: "os_env \<Rightarrow> string \<Rightarrow> string list" where
  "goPathRoots os home =
     (let raw = TrimSpace (Getenv os ''GOPATH'')
      in if raw = [] \<and> TrimSpace home = [] then []
         else let raw = (if raw = [] then filepath_Join [home, ''go''] else raw)
              in concat (map clean_nonempty (if raw = [] then [] else Split raw (CHR '':''))))"

definition WritableRoots :: "os_env \<Rightarrow> string list" where
  "WritableRoots os =
     (let home = (case UserHomeDir os of Some h \<Rightarrow> h | None \<Rightarrow> []);
          cacheRoot = userCacheRoot os home;
          env = (\<lambda>key. append_root (Getenv os key));
          under = (\<lambda>base parts. append_root (filepath_Join (base # parts)));
          cargo = TrimSpace (Getenv os ''CARGO_HOME'');
          gradle = TrimSpace (Getenv os ''GRADLE_USER_HOME'')
      in append_root cacheRoot @
         (if GOOS_darwin os \<and> TrimSpace home \<noteq> [] then under home [''Library'', ''Caches''] else []) @
         env ''GOCACHE'' @ env ''GOMODCACHE'' @
         concat (map (\<lambda>gopath. under gopath [''pkg'', ''mod''] @ under gopath [''pkg'', ''sumdb'']) (goPathRoots os home)) @
         env ''npm_config_cache'' @ env ''NPM_CONFIG_CACHE'' @ env ''YARN_CACHE_FOLDER'' @ env ''PIP_CACHE_DIR'' @
         env ''UV_CACHE_DIR'' @
         (if TrimSpace home \<noteq> []
          then under home [''.npm''] @ under home [''.cargo'', ''registry''] @ under home [''.cargo'', ''git''] @
               under home [''.m2'', ''repository''] @ under home [''.gradle'', ''caches''] @
               under home [''.gradle'', ''wrapper''] @ under home [''.nuget'', ''packages''] @
               under home [''.bun'', ''install'', ''cache''] @ under home [''.pnpm-store''] @
               under home [''.local'', ''share'', ''pnpm'', ''store'']
          else []) @
         (if cacheRoot \<noteq> []
          then under cacheRoot [''go-build''] @ under cacheRoot [''pip''] @ under cacheRoot [''uv''] @
               under cacheRoot [''yarn''] @ under cacheRoot [''node-gyp''] @ under cacheRoot [''pnpm'']
          else []) @
         (if cargo \<noteq> [] then under cargo [''registry''] @ under cargo [''git''] else []) @
         (if gradle \<noteq> [] then under gradle [''caches''] @ under gradle [''wrapper''] else []))"

section \<open>What containment means\<close>

text \<open>
  What the code relies on of \<open>filepath.EvalSymlinks\<close>: an absolute path resolves to an
  absolute path.
\<close>

definition symlinks_absolute :: "os_env \<Rightarrow> bool" where
  "symlinks_absolute os \<longleftrightarrow> (\<forall>p q. filepath_IsAbs p \<longrightarrow> EvalSymlinks os p = Some q \<longrightarrow> filepath_IsAbs q)"

lemma IsAbs_simps [simp]: "\<not> filepath_IsAbs []" "filepath_IsAbs (c # p) \<longleftrightarrow> c = slash"
  by (auto simp: filepath_IsAbs_def HasPrefix_def)

lemma IsAbs_append: "filepath_IsAbs p \<Longrightarrow> filepath_IsAbs (p @ q)"
  by (cases p) auto

lemma IsAbs_TrimSpace: "filepath_IsAbs p \<Longrightarrow> filepath_IsAbs (TrimSpace p)"
proof -
  assume "filepath_IsAbs p"
  then obtain q where p: "p = slash # q" by (cases p) auto
  then have l: "dropWhile is_space p = p" by (simp add: is_space_def)
  have "TrimSpace p \<noteq> [] \<and> prefix (TrimSpace p) p"
  proof
    have "suffix (dropWhile is_space (rev p)) (rev p)" by (simp add: suffix_dropWhile)
    then show "prefix (TrimSpace p) p" by (simp add: TrimSpace_def TrimFunc_def TrimLeftFunc_def TrimRightFunc_def l suffix_to_prefix)
    show "TrimSpace p \<noteq> []"
      using p by (auto simp: TrimSpace_def TrimFunc_def TrimLeftFunc_def TrimRightFunc_def l is_space_def)
  qed
  with p show ?thesis by (cases "TrimSpace p") auto
qed

lemma clean_abs_IsAbs: "clean_abs p \<Longrightarrow> filepath_IsAbs p"
  using clean_abs_eq [of p] by (metis IsAbs_simps(2))

lemma Join_abs: "filepath_IsAbs acc \<Longrightarrow> clean_abs (filepath_Join [acc, name])"
  by (cases acc) (auto simp: filepath_Join_def intro!: clean_abs_Clean)

lemma Dir_abs: "filepath_IsAbs cur \<Longrightarrow> filepath_IsAbs (filepath_Dir cur)"
proof -
  assume "filepath_IsAbs cur"
  then obtain q where cur: "cur = slash # q" by (cases cur) auto
  have "filepath_IsAbs (upto_last_slash cur)"
  proof -
    have "upto_last_slash cur @ rev (takeWhile (\<lambda>c. c \<noteq> slash) (rev cur)) = cur"
      unfolding upto_last_slash_def by (metis rev_append rev_rev_ident takeWhile_dropWhile_id)
    moreover have "upto_last_slash cur \<noteq> []" using cur by (auto simp: upto_last_slash_def)
    ultimately show ?thesis using cur by (cases "upto_last_slash cur") auto
  qed
  then show ?thesis unfolding filepath_Dir_def by (rule Clean_abs_IsAbs)
qed

lemma foldr_Join_abs:
  "filepath_IsAbs r \<Longrightarrow> filepath_IsAbs (foldr (\<lambda>name acc. filepath_Join [acc, name]) sfx r)"
  by (induction sfx) (auto intro: Join_abs clean_abs_IsAbs)

lemma resolve_climb_clean:
  assumes "symlinks_absolute os" and "clean_abs clean"
  shows "filepath_IsAbs cur \<Longrightarrow> clean_abs (resolve_climb os clean cur sfx)"
  using assms
proof (induction os clean cur sfx rule: resolve_climb.induct)
  case (1 os clean cur sfx)
  let ?resolved = "\<lambda>r. filepath_Clean (foldr (\<lambda>name acc. filepath_Join [acc, name]) sfx (filepath_Clean r))"
  have resolved: "clean_abs (?resolved r)" if "EvalSymlinks os cur = Some r" for r
    using 1 that unfolding symlinks_absolute_def
    by (intro clean_abs_Clean foldr_Join_abs Clean_abs_IsAbs) blast
  have parent: "clean_abs (resolve_climb os clean (filepath_Dir cur) (sfx @ [filepath_Base cur]))"
    if "cur \<noteq> []" "\<not> Lstat os cur" "filepath_Dir cur \<noteq> cur"
    using 1 that Dir_abs by blast
  show ?case
    using 1 resolved parent
    by (simp add: resolve_climb.simps [of os clean cur] split: option.splits)
qed

lemma ResolvePathWithSymlinks_clean:
  assumes "symlinks_absolute os" and "filepath_IsAbs path"
  shows "clean_abs (ResolvePathWithSymlinks os path)"
proof -
  have abs: "filepath_IsAbs (TrimSpace path)" using assms(2) by (rule IsAbs_TrimSpace)
  then have ne: "TrimSpace path \<noteq> []" by auto
  have c: "clean_abs (filepath_Clean (TrimSpace path))" using abs by (rule clean_abs_Clean)
  show ?thesis
  proof (cases "EvalSymlinks os (filepath_Clean (TrimSpace path))")
    case None
    with ne c show ?thesis
      by (simp add: ResolvePathWithSymlinks_def Let_def resolve_climb_clean [OF assms(1)] clean_abs_IsAbs)
  next
    case (Some r)
    with assms(1) clean_abs_IsAbs [OF c] have "filepath_IsAbs r" by (auto simp: symlinks_absolute_def)
    with Some ne show ?thesis by (simp add: ResolvePathWithSymlinks_def Let_def clean_abs_Clean)
  qed
qed

lemma clean_abs_no_trailing_slash:
  assumes "clean_abs p" and "path_comps p \<noteq> []"
  shows "\<not> HasSuffix p [slash]"
proof -
  let ?cs = "path_comps p"
  have plain: "list_all plain_component ?cs" by (rule path_comps_plain)
  have l: "last ?cs \<noteq> []" "slash \<notin> set (last ?cs)"
    using plain assms(2) by (metis last_in_set list_all_iff plain_component_def)+
  have "last (Join ?cs [slash]) = last (last ?cs)" "Join ?cs [slash] \<noteq> []"
    using assms(2) l(1) by (simp_all add: last_Join Join_ne)
  then have "last p \<noteq> slash"
    using clean_abs_eq [OF assms(1)] l by (metis last_ConsR last_in_set)
  moreover have "p \<noteq> []" using clean_abs_eq [OF assms(1)] by blast
  ultimately show ?thesis
    by (auto simp: HasSuffix_def prefix_def)
qed

lemma PathIsUnder_iff:
  assumes "clean_abs target" and "clean_abs root"
  shows "PathIsUnder target root \<longleftrightarrow> prefix (path_comps root) (path_comps target)"
proof (cases "path_comps root = []")
  case True
  then have "root = [slash]" using clean_abs_eq [OF assms(2)] by simp
  moreover have "HasPrefix target [slash]" using clean_abs_IsAbs [OF assms(1)] by (simp add: filepath_IsAbs_def)
  ultimately show ?thesis using True by (simp add: PathIsUnder_def HasSuffix_def)
next
  case False
  with clean_abs_no_trailing_slash [OF assms(2)] prefix_slash_iff [OF assms] show ?thesis
    by (auto simp: PathIsUnder_def)
qed


text \<open>The physical place of a target or a root, as components.\<close>

definition physical :: "os_env \<Rightarrow> path_context option \<Rightarrow> string \<Rightarrow> string list" where
  "physical os ctx target = path_comps (ResolvePathWithSymlinks os (ResolveAbsPath os target ctx))"

definition physical_root :: "os_env \<Rightarrow> path_context option \<Rightarrow> string \<Rightarrow> string list" where
  "physical_root os ctx root = path_comps (ResolvePathWithSymlinks os (ResolveAbsRoot os root ctx))"

lemma ResolveAbsPath_abs:
  "filepath_IsAbs target \<Longrightarrow> ResolveAbsPath os target ctx = filepath_Clean (TrimSpace target)"
proof -
  assume "filepath_IsAbs target"
  from IsAbs_TrimSpace [OF this] obtain q where q: "TrimSpace target = slash # q" by (cases "TrimSpace target") auto
  then show ?thesis by (simp add: ResolveAbsPath_def Let_def HasPrefix_def)
qed

lemma IsWithinRoots_iff:
  assumes "symlinks_absolute os" and "filepath_IsAbs target"
    and "\<forall>root \<in> set roots. filepath_IsAbs root"
  shows "IsWithinRoots os target roots ctx \<longleftrightarrow>
         (\<exists>root \<in> set roots. prefix (physical_root os ctx root) (physical os ctx target))"
proof -
  have t: "clean_abs (ResolvePathWithSymlinks os (ResolveAbsPath os target ctx))"
    using assms(2) IsAbs_TrimSpace
    by (intro ResolvePathWithSymlinks_clean [OF assms(1)]) (simp add: ResolveAbsPath_abs Clean_abs_IsAbs)
  have r: "clean_abs (ResolvePathWithSymlinks os (ResolveAbsRoot os root ctx))" if "root \<in> set roots" for root
  proof -
    have "filepath_IsAbs (TrimSpace root)" using assms(3) that IsAbs_TrimSpace by blast
    then have "filepath_IsAbs (ResolveAbsRoot os root ctx)"
      by (auto simp: ResolveAbsRoot_def Let_def intro: Clean_abs_IsAbs)
    then show ?thesis by (rule ResolvePathWithSymlinks_clean [OF assms(1)])
  qed
  have "ResolvePathWithSymlinks os (ResolveAbsRoot os root ctx) \<noteq> []" if "root \<in> set roots" for root
    using clean_abs_IsAbs [OF r [OF that]] by auto
  then show ?thesis
    using t r by (auto simp: IsWithinRoots_def Let_def list_ex_iff PathIsUnder_iff physical_def physical_root_def)
qed

section \<open>Properties\<close>

text \<open>An operating system without symbolic links and without a home directory, for concrete inputs.\<close>

definition sample_os :: os_env where
  "sample_os = \<lparr>UserHomeDir = None, UserCacheDir = None, TempDir = ''/tmp'', Getwd = ''/work'',
     Getenv = (\<lambda>_. []), GOOS_darwin = False, EvalSymlinks = (\<lambda>p. Some p), Lstat = (\<lambda>_. True)\<rparr>"

lemma sample_os_absolute: "symlinks_absolute sample_os"
  by (simp add: symlinks_absolute_def sample_os_def)

text \<open>C15 (equivalence). The textual containment test on physical paths is exactly the prefix order on
  path components: an absolute target is within the roots when, after symbolic links are
  resolved, the components of some root begin those of the target.  So neither a shared name
  prefix nor a symbolic link out of a root passes.\<close>

theorem within_roots_physical:
  assumes "symlinks_absolute os" and "filepath_IsAbs target" and "\<forall>root \<in> set roots. filepath_IsAbs root"
  shows "IsWithinRoots os target roots ctx \<longleftrightarrow>
         (\<exists>root \<in> set roots. prefix (physical_root os ctx root) (physical os ctx target))"
  using assms by (rule IsWithinRoots_iff)

lemma within_roots_physical_witness:
  "\<not> IsWithinRoots sample_os ''/workshop/x'' [''/work''] None \<longleftrightarrow>
   \<not> prefix (physical_root sample_os None ''/work'') (physical sample_os None ''/workshop/x'')"
  using within_roots_physical [OF sample_os_absolute, of "''/workshop/x''" "[''/work'']" None] by simp

text \<open>Resolving an absolute path whose last components do not exist ends, and gives a
  cleaned absolute path whatever the file system answers.\<close>

theorem resolve_absolute:
  assumes "symlinks_absolute os" and "filepath_IsAbs path"
  shows "clean_abs (ResolvePathWithSymlinks os path)"
  using assms by (rule ResolvePathWithSymlinks_clean)

lemma resolve_absolute_witness: "clean_abs (ResolvePathWithSymlinks sample_os ''/a/../b//c'')"
  by (rule resolve_absolute [OF sample_os_absolute]) simp

end
