(* ===== verification/Preset_Base.thy ===== *)
theory Preset_Base
  imports Policy_Core Fs_Boundary
begin

text \<open>
  Shared helpers of the policy presets, \<open>agent-sdk/policy/presets/presets.go\<close>: the
  decision constructors, the tool classes and the two constraint sets, on a Unix build.
\<close>

section \<open>Tool classes\<close>

abbreviation "ReadToolName \<equiv> ''Read''"
abbreviation "ViewImageToolName \<equiv> ''ViewImage''"
abbreviation "WriteToolName \<equiv> ''Write''"
abbreviation "PatchToolName \<equiv> ''Patch''"
abbreviation "GlobToolName \<equiv> ''Glob''"
abbreviation "SearchToolName \<equiv> ''Grep''"
abbreviation "RunCommandToolName \<equiv> ''RunCommand''"

datatype builtinPolicyClass =
    PolicyUnknown
  | PolicyReadPath
  | PolicySearchPath
  | PolicyGlobPath
  | PolicyWritePath
  | PolicyCommand

definition builtinPolicyClassForName :: "string \<Rightarrow> builtinPolicyClass" where
  "builtinPolicyClassForName name =
     (if name \<in> {ReadToolName, ViewImageToolName} then PolicyReadPath
      else if name = SearchToolName then PolicySearchPath
      else if name = GlobToolName then PolicyGlobPath
      else if name \<in> {WriteToolName, PatchToolName} then PolicyWritePath
      else if name = RunCommandToolName then PolicyCommand
      else PolicyUnknown)"

definition policyClass :: "ToolContext \<Rightarrow> builtinPolicyClass" where
  "policyClass input =
     (let cls = builtinPolicyClassForName (tcToolName input)
      in if cls \<noteq> PolicyUnknown then cls
         else if tcCommandExec input then PolicyCommand
         else PolicyUnknown)"

definition toolKind :: "string \<Rightarrow> string" where
  "toolKind name =
     (if name \<in> {ReadToolName, ViewImageToolName, ''Skill''} then ''read''
      else if name \<in> {WriteToolName, PatchToolName} then ''edit''
      else if name \<in> {GlobToolName, SearchToolName, ''WebSearch'', ''WebFetch''} then ''search''
      else if name \<in> {RunCommandToolName, ''Task'', ''StartThread'', ''SendMessage''} then ''execute''
      else ''other'')"

section \<open>Constraint sets\<close>

definition hostExecutionConstraints :: Constraints where
  "hostExecutionConstraints =
     \<lparr>cRoute = RouteHost, cBackend = BackendHost, cPermission = PermissionFullAccess, cIsolation = IsolationHost,
      cNetwork = NetworkInherit, cPathRules = []\<rparr>"

definition defaultNetworkPolicy :: "ModeOptions \<Rightarrow> Network" where
  "defaultNetworkPolicy opts = (if moNetworkEnabled opts = Some False then NetworkDisabled else NetworkEnabledText)"

definition append_rule :: "PathAccess \<Rightarrow> string \<Rightarrow> PathRule list" where
  "append_rule access path0 =
     (let path = TrimSpace path0 in if path = [] then [] else [\<lparr>rPath = path, rAccess = access\<rparr>])"

definition workspaceWriteConstraints :: "os_env \<Rightarrow> ModeOptions \<Rightarrow> Constraints" where
  "workspaceWriteConstraints os opts =
     \<lparr>cRoute = RouteSandbox, cBackend = [], cPermission = PermissionWorkspaceWrite, cIsolation = IsolationContainer,
      cNetwork = defaultNetworkPolicy opts,
      cPathRules = concat (map (append_rule PathAccessReadWrite) (moTempRoot opts # WritableRoots os @ moWritableRoots opts))\<rparr>"

section \<open>Decisions\<close>

definition allow :: "Constraints \<Rightarrow> Decision" where
  "allow constraints =
     \<lparr>dAction = ActionAllow, dReason = [], dConstraints = constraints, dMetadata = [], dApproval = None\<rparr>"

definition deny :: "string \<Rightarrow> Decision" where
  "deny reason =
     \<lparr>dAction = ActionDeny, dReason = TrimSpace reason, dConstraints = no_constraints, dMetadata = [], dApproval = None\<rparr>"

fun policyErrorOrDeny :: "policy_error \<Rightarrow> Decision policy_result" where
  "policyErrorOrDeny (ToolInputDecodeError name) = Inl (ToolInputDecodeError name)"
| "policyErrorOrDeny e = Inr (deny (error_text e))"

abbreviation "MetadataSandboxPolicy \<equiv> ''runtime_sandbox_policy''"

definition once_options :: "ApprovalOption list" where
  "once_options =
     [\<lparr>aoID = ''allow_once'', aoName = ''Allow once'', aoKind = ''allow_once''\<rparr>,
      \<lparr>aoID = ''reject_once'', aoName = ''Reject once'', aoKind = ''reject_once''\<rparr>]"

definition askApproval :: "string \<Rightarrow> Constraints \<Rightarrow> ToolContext \<Rightarrow> Decision policy_result" where
  "askApproval reason constraints input =
     (case CallArgs input of
        Inl e \<Rightarrow> Inl e
      | Inr call \<Rightarrow>
          Inr \<lparr>dAction = ActionAskApproval, dReason = TrimSpace reason, dConstraints = constraints,
               dMetadata = (if PolicySnapshotEmpty (tcSandboxPolicy input) then []
                            else [(MetadataSandboxPolicy, MetaSnapshot (ClonePolicySnapshot (tcSandboxPolicy input)))]),
               dApproval = Some \<lparr>arCallID = TrimSpace (tcCallID input), arName = tcToolName input,
                                 arKind = toolKind (tcToolName input), arStatus = ''pending'', arRawInput = call,
                                 arOptions = once_options\<rparr>\<rparr>)"

text \<open>\<open>metadata[key] = value\<close>.\<close>

fun meta_put :: "string \<Rightarrow> meta_value \<Rightarrow> (string \<times> meta_value) list \<Rightarrow> (string \<times> meta_value) list" where
  "meta_put k v [] = [(k, v)]"
| "meta_put k v ((k', v') # m) = (if k = k' then (k, v) # m else (k', v') # meta_put k v m)"

lemma map_of_meta_put [simp]: "map_of (meta_put k v m) = (map_of m)(k \<mapsto> v)"
  by (induction k v m rule: meta_put.induct) auto

lemma metadata_valid_put: "metadata_valid m \<Longrightarrow> metadata_valid (meta_put k (MetaText t) m)"
  by (induction k "MetaText t" m rule: meta_put.induct) (auto simp: metadata_valid_def)

lemma askApproval_metadata: "askApproval reason c input = Inr d \<Longrightarrow> metadata_valid (dMetadata d)"
  by (auto simp: askApproval_def metadata_valid_def split: sum.splits)

end
