(* ===== verification/Filesystem_Policy.thy ===== *)
theory Filesystem_Policy
  imports Preset_Base
begin

text \<open>
  Path authorization of the workspace-write preset,
  \<open>agent-sdk/policy/presets/filesystem_policy.go\<close> and \<open>mergePathRules\<close> of
  \<open>command_sandbox_permissions.go\<close>: the paths a call names, the sensitive user roots, and
  the decision on reads and writes.  The quoted path in an error text is printed between
  double quotes, as \<open>%q\<close> does for printable text without quotes or backslashes.
\<close>

section \<open>Paths of a call\<close>

fun stringValues :: "json \<Rightarrow> string list" where
  "stringValues (JString s) = (if TrimSpace s = [] then [] else [TrimSpace s])"
| "stringValues (JArray items) = concat (map stringValues items)"
| "stringValues JNull = []"
| "stringValues (JBool b) = []"
| "stringValues (JNumber n) = []"
| "stringValues (JObject m) = []"

definition arg_values :: "json_map \<Rightarrow> string \<Rightarrow> string list" where
  "arg_values args key = (case map_of args key of None \<Rightarrow> [] | Some v \<Rightarrow> stringValues v)"

definition resolvePolicyPath :: "os_env \<Rightarrow> string \<Rightarrow> string \<Rightarrow> string" where
  "resolvePolicyPath os value0 workspaceRoot =
     (let value = TrimSpace value0
      in if value = [] then []
         else let value = (if HasPrefix value ''~/''
                           then (case UserHomeDir os of
                                   Some home \<Rightarrow> if TrimSpace home \<noteq> [] then filepath_Join [home, drop 2 value] else value
                                 | None \<Rightarrow> value)
                           else value)
              in if filepath_IsAbs value then filepath_Clean value
                 else let base = TrimSpace workspaceRoot;
                          base = (if base = [] then [slash] else base)
                      in filepath_Clean (filepath_Join [base, value]))"

definition resolvePathsAgainstWorkspace :: "os_env \<Rightarrow> string list \<Rightarrow> string \<Rightarrow> string list" where
  "resolvePathsAgainstWorkspace os paths workspaceRoot =
     filter (\<lambda>p. p \<noteq> []) (map (\<lambda>p. resolvePolicyPath os p workspaceRoot) paths)"

definition glob_root :: "os_env \<Rightarrow> string \<Rightarrow> string \<Rightarrow> string list" where
  "glob_root os workspaceRoot pattern0 =
     (let pattern = TrimSpace pattern0
      in if pattern = [] then []
         else let pattern = resolvePolicyPath os pattern workspaceRoot;
                  root = takeWhile (\<lambda>c. \<not> (c = CHR ''*'' \<or> c = CHR ''?'' \<or> c = CHR ''['')) pattern;
                  root = TrimRight root [slash]
              in [if root = [] then [slash] else root])"

definition globRoots :: "os_env \<Rightarrow> string list \<Rightarrow> string \<Rightarrow> string list" where
  "globRoots os patterns workspaceRoot = concat (map (glob_root os workspaceRoot) patterns)"

definition candidatePaths :: "os_env \<Rightarrow> ToolContext \<Rightarrow> string list policy_result" where
  "candidatePaths os input =
     (case CallArgs input of
        Inl e \<Rightarrow> Inl e
      | Inr args \<Rightarrow>
          let root = moWorkspaceRoot (tcOptions input);
              roots = resolvePathsAgainstWorkspace os (arg_values args ''path'') root
          in Inr (case policyClass input of
                    PolicyReadPath \<Rightarrow> roots
                  | PolicyWritePath \<Rightarrow> roots
                  | PolicySearchPath \<Rightarrow> if roots \<noteq> [] then roots else resolvePathsAgainstWorkspace os [''.''] root
                  | PolicyGlobPath \<Rightarrow> if roots \<noteq> [] then roots else globRoots os (arg_values args ''pattern'') root
                  | _ \<Rightarrow> []))"

section \<open>Roots\<close>

definition normalizeTarget :: "string \<Rightarrow> string" where
  "normalizeTarget value0 =
     (let value = TrimSpace value0
      in if value = [] then []
         else filepath_Clean (if filepath_IsAbs value then value else filepath_Join [[slash], value]))"

definition withinAnyRoot :: "string \<Rightarrow> string list \<Rightarrow> bool" where
  "withinAnyRoot target0 roots =
     (let target = normalizeTarget target0
      in if target = [] then True
         else list_ex (\<lambda>root0. let root = normalizeTarget root0
                               in root \<noteq> [] \<and> (target = root \<or> HasPrefix target (root @ [slash]))) roots)"

definition writableRoots :: "ModeOptions \<Rightarrow> string list" where
  "writableRoots opts = concat (map clean_nonempty (moTempRoot opts # moWritableRoots opts))"

definition approvedOverrideRoots :: "ModeOptions \<Rightarrow> string list" where
  "approvedOverrideRoots opts = concat (map clean_nonempty (moWritableRoots opts @ moExtraReadRoots opts))"

definition defaultHiddenUserRoots :: "os_env \<Rightarrow> string list" where
  "defaultHiddenUserRoots os =
     (case UserHomeDir os of
        None \<Rightarrow> []
      | Some home \<Rightarrow>
          if TrimSpace home = [] then []
          else map (\<lambda>parts. filepath_Join (home # parts))
                 [[''.ssh''], [''.gnupg''], [''.aws''], [''.kube''], [''.docker''], [''.netrc''], [''.npmrc''],
                  [''.config'', ''gh''], [''.config'', ''gcloud'']])"

definition hidden_path :: "os_env \<Rightarrow> string list \<Rightarrow> string \<Rightarrow> bool" where
  "hidden_path os approvedRoots one =
     (let target = ResolvePathWithSymlinks os (normalizeTarget one)
      in target \<noteq> [] \<and> \<not> IsWithinRoots os target approvedRoots None \<and>
         IsWithinRoots os target (defaultHiddenUserRoots os) None)"

definition ensurePathsOutsideDefaultHiddenRoots ::
  "os_env \<Rightarrow> string list \<Rightarrow> string list \<Rightarrow> string \<Rightarrow> unit policy_result" where
  "ensurePathsOutsideDefaultHiddenRoots os paths approvedRoots action =
     (case find (hidden_path os approvedRoots) paths of
        None \<Rightarrow> Inr ()
      | Some one \<Rightarrow>
          Inl (PathError (action @ '' target '' @ [CHR 0x22] @ one @ [CHR 0x22] @
                          '' is under a sensitive user configuration path and is blocked'')))"

definition writable_path :: "os_env \<Rightarrow> string list \<Rightarrow> string \<Rightarrow> bool" where
  "writable_path os roots one \<longleftrightarrow>
     TrimSpace one = [] \<or> IsWithinRoots os one roots None \<or> IsWithinScratchRoots os one None"

definition ensureFilesystemWritePaths :: "os_env \<Rightarrow> string list \<Rightarrow> string list \<Rightarrow> unit policy_result" where
  "ensureFilesystemWritePaths os paths roots =
     (case find (\<lambda>one. \<not> writable_path os roots one) paths of
        None \<Rightarrow> Inr ()
      | Some one \<Rightarrow>
          Inl (PathError (''write target '' @ [CHR 0x22] @ one @ [CHR 0x22] @ '' is outside allowed roots'')))"

section \<open>Grants\<close>

fun mergePathRules :: "PathRule list \<Rightarrow> PathRule list \<Rightarrow> PathRule list" where
  "mergePathRules out [] = out"
| "mergePathRules out (rule # extra) =
     (let path = filepath_Clean (TrimSpace (rPath rule))
      in if path = ''.'' \<or> path = [] \<or> rAccess rule = [] \<or>
            list_ex (\<lambda>r. filepath_Clean (TrimSpace (rPath r)) = path) out
         then mergePathRules out extra
         else mergePathRules (out @ [\<lparr>rPath = path, rAccess = rAccess rule\<rparr>]) extra)"

definition withPathWriteGrants :: "Constraints \<Rightarrow> string list \<Rightarrow> Constraints" where
  "withPathWriteGrants base paths =
     (let out = NormalizeConstraints base;
          extra = concat (map (append_rule PathAccessReadWrite) paths)
      in out\<lparr>cPathRules := mergePathRules (ClonePathRules (cPathRules out)) extra\<rparr>)"

section \<open>Decisions\<close>

abbreviation "riskClassPathEscape \<equiv> ''path_escape''"

definition askPathWriteApproval :: "ToolContext \<Rightarrow> Constraints \<Rightarrow> string list \<Rightarrow> Decision policy_result" where
  "askPathWriteApproval input def paths =
     (let reason = ''write outside allowed roots requires approval''
      in case askApproval reason (withPathWriteGrants def paths) input of
           Inl e \<Rightarrow> Inl e
         | Inr decision \<Rightarrow>
             Inr (decision\<lparr>dMetadata := meta_put ''risk_class'' (MetaText riskClassPathEscape)
                             (meta_put ''approval_reason'' (MetaText reason) (dMetadata decision))\<rparr>))"

definition decideFilesystemWrite :: "os_env \<Rightarrow> ToolContext \<Rightarrow> Constraints \<Rightarrow> Decision policy_result" where
  "decideFilesystemWrite os input def =
     (case candidatePaths os input of
        Inl e \<Rightarrow> policyErrorOrDeny e
      | Inr paths \<Rightarrow>
          (case ensurePathsOutsideDefaultHiddenRoots os paths (approvedOverrideRoots (tcOptions input)) ''write'' of
             Inl e \<Rightarrow> Inr (deny (error_text e))
           | Inr _ \<Rightarrow>
               (case ensureFilesystemWritePaths os paths (writableRoots (tcOptions input)) of
                  Inr _ \<Rightarrow> Inr (allow def)
                | Inl _ \<Rightarrow> askPathWriteApproval input def paths)))"

definition ensureReadPathsOutsideDefaultHiddenRoots :: "os_env \<Rightarrow> ToolContext \<Rightarrow> unit policy_result" where
  "ensureReadPathsOutsideDefaultHiddenRoots os input =
     (case candidatePaths os input of
        Inl e \<Rightarrow> Inl e
      | Inr paths \<Rightarrow>
          ensurePathsOutsideDefaultHiddenRoots os paths (approvedOverrideRoots (tcOptions input)) ''read'')"

section \<open>Facts\<close>

lemma find_None_all: "find P xs = None \<longleftrightarrow> (\<forall>x \<in> set xs. \<not> P x)"
  by (auto simp: find_None_iff)

lemma mergePathRules_prefix: "prefix out (mergePathRules out extra)"
proof (induction out extra rule: mergePathRules.induct)
  case (2 out rule extra)
  then show ?case
    using append_prefixD by (fastforce simp: Let_def)
qed simp

lemma mergePathRules_only:
  "r \<in> set (mergePathRules out extra) \<Longrightarrow>
   r \<in> set out \<or> (\<exists>e \<in> set extra. rPath r = filepath_Clean (TrimSpace (rPath e)) \<and> rAccess r = rAccess e)"
proof (induction out extra rule: mergePathRules.induct)
  case (2 out rule extra)
  then show ?case by (fastforce simp: Let_def split: if_splits)
qed simp

lemma mergePathRules_mono: "r \<in> set out \<Longrightarrow> r \<in> set (mergePathRules out extra)"
  using mergePathRules_prefix set_mono_prefix by blast

lemma mergePathRules_covers:
  assumes "e \<in> set extra" and "rAccess e \<noteq> []"
    and "filepath_Clean (TrimSpace (rPath e)) \<notin> {''.'', []}"
  shows "\<exists>r \<in> set (mergePathRules out extra). filepath_Clean (TrimSpace (rPath e)) \<in> {rPath r, filepath_Clean (TrimSpace (rPath r))}"
  using assms
proof (induction out extra rule: mergePathRules.induct)
  case (2 out rule extra)
  let ?path = "filepath_Clean (TrimSpace (rPath rule))"
  let ?new = "\<lparr>rPath = ?path, rAccess = rAccess rule\<rparr>"
  show ?case
  proof (cases "?path = ''.'' \<or> ?path = [] \<or> rAccess rule = [] \<or> list_ex (\<lambda>r. filepath_Clean (TrimSpace (rPath r)) = ?path) out")
    case True
    show ?thesis
    proof (cases "e \<in> set extra")
      case True
      with 2 \<open>?path = ''.'' \<or> _\<close> show ?thesis by (auto simp: Let_def)
    next
      case False
      with 2 have "e = rule" by simp
      with True 2(4,5) obtain r where "r \<in> set out" "filepath_Clean (TrimSpace (rPath r)) = ?path" by (auto simp: list_ex_iff)
      moreover have "mergePathRules out (rule # extra) = mergePathRules out extra" using True by (auto simp: Let_def)
      ultimately show ?thesis using \<open>e = rule\<close> mergePathRules_mono [of r out extra] by (intro bexI [of _ r]) auto
    qed
  next
    case False
    then have eq: "mergePathRules out (rule # extra) = mergePathRules (out @ [?new]) extra" by (auto simp: Let_def)
    show ?thesis
    proof (cases "e \<in> set extra")
      case True
      with 2 False eq show ?thesis by auto
    next
      case False
      with 2 have "e = rule" by simp
      moreover have "?new \<in> set (mergePathRules (out @ [?new]) extra)" by (rule mergePathRules_mono) simp
      ultimately show ?thesis unfolding eq by (metis PathRule.select_convs(1) insertCI)
    qed
  qed
qed simp

text \<open>A write goes ahead without approval only when every named path is outside the
  sensitive roots (or in an approved one) and inside a writable or scratch root.\<close>

lemma decideFilesystemWrite_allow:
  assumes "decideFilesystemWrite os input def = Inr d" and "dAction d = ActionAllow"
  obtains paths where "candidatePaths os input = Inr paths" "d = allow def"
    "\<forall>p \<in> set paths. \<not> hidden_path os (approvedOverrideRoots (tcOptions input)) p \<and>
                       writable_path os (writableRoots (tcOptions input)) p"
proof (cases "candidatePaths os input")
  case (Inl e)
  with assms show thesis by (cases e) (auto simp: decideFilesystemWrite_def deny_def)
next
  case (Inr paths)
  with assms that show thesis
    by (auto simp: decideFilesystemWrite_def ensurePathsOutsideDefaultHiddenRoots_def ensureFilesystemWritePaths_def
        find_None_all deny_def askPathWriteApproval_def askApproval_def Let_def split: option.splits sum.splits)
qed

end
