(* ===== verification/Shell_Fields.thy ===== *)
theory Shell_Fields
  imports Shell_Parse
begin

text \<open>
  Facts on the fields that \<^const>\<open>shellishFields\<close> produces: their shape, the round trip
  through \<open>strings.Join\<close>, the places where commands start and the size of the payloads.
\<close>

subsection \<open>The shape of a field\<close>

definition sep_chars :: string where
  "sep_chars = [CHR '';'', CHR ''|'', CHR ''&'', newline, carriage_return]"

definition sep_free :: "string \<Rightarrow> bool" where
  "sep_free w \<longleftrightarrow> list_all (\<lambda>c. c \<notin> set sep_chars) w"

text \<open>A well-formed field: no spaces, no quote at either end, and either one of the
  separator tokens or a word with no separator character in it.\<close>

definition shell_field :: "string \<Rightarrow> bool" where
  "shell_field f \<longleftrightarrow>
     f \<noteq> [] \<and> nonspace f \<and> hd f \<notin> set quote_chars \<and> last f \<notin> set quote_chars \<and>
     (isShellCommandSeparator f \<or> sep_free f)"

lemma sep_free_simps [simp]:
  "sep_free []" "sep_free (c # w) \<longleftrightarrow> c \<notin> set sep_chars \<and> sep_free w"
  "sep_free (v @ w) \<longleftrightarrow> sep_free v \<and> sep_free w" "sep_free (rev w) \<longleftrightarrow> sep_free w"
  by (auto simp: sep_free_def)

lemma sep_free_mono: "sep_free s \<Longrightarrow> set t \<subseteq> set s \<Longrightarrow> sep_free t"
  by (auto simp: sep_free_def list_all_iff)

lemma shell_field_trim: "shell_field f \<Longrightarrow> trimShellToken f = f"
  unfolding trimShellToken_def Trim_def
  by (subst TrimSpace_nonspace) (auto simp: shell_field_def intro: TrimFunc_id)

lemma separator_shape:
  "isShellCommandSeparator f \<Longrightarrow> nonspace f \<and> hd f \<notin> set quote_chars \<and> last f \<notin> set quote_chars \<and> f \<noteq> []"
  by (auto simp: isShellCommandSeparator_def quote_chars_def is_space_def)

lemma shell_rules_find_None:
  "c \<notin> set sep_chars \<Longrightarrow> find (\<lambda>(old, new). prefix old (c # s)) shell_rules = None"
  by (auto simp: shell_rules_def sep_chars_def)

lemma shell_rules_find_Some:
  assumes "find (\<lambda>(old, new). prefix old (c # s)) shell_rules = Some (old, new)"
  shows "\<exists>tok. new = CHR '' '' # tok @ '' '' \<and> isShellCommandSeparator tok"
proof -
  from assms have "(old, new) \<in> set shell_rules"
    by (metis (no_types, lifting) find_Some_iff nth_mem)
  then show ?thesis
    by (auto simp: shell_rules_def isShellCommandSeparator_def)
qed

lemma fields_acc_separator:
  assumes "isShellCommandSeparator tok"
  shows "fields_acc acc (CHR '' '' # tok @ CHR '' '' # s) =
         (if acc = [] then [] else [rev acc]) @ tok # fields_acc [] s"
proof -
  have "fields_acc [] (tok @ CHR '' '' # s) = fields_acc (rev tok) (CHR '' '' # s)"
    using separator_shape [OF assms] by (subst fields_acc_word) auto
  also have "\<dots> = tok # fields_acc [] s"
    using separator_shape [OF assms] by (simp add: is_space_def)
  finally show ?thesis by (simp add: is_space_def)
qed

lemma fields_acc_replace_words:
  assumes "sep_free acc"
  shows "list_all (\<lambda>w. isShellCommandSeparator w \<or> sep_free w)
           (fields_acc acc (replace_rules shell_rules s))"
  using assms
proof (induction s arbitrary: acc rule: length_induct)
  case (1 s)
  show ?case
  proof (cases s)
    case Nil
    with "1.prems" show ?thesis by simp
  next
    case (Cons c t)
    show ?thesis
    proof (cases "find (\<lambda>(old, new). prefix old (c # t)) shell_rules")
      case None
      then have "c \<notin> set sep_chars"
        by (auto simp: shell_rules_def sep_chars_def split: if_splits)
      with 1 Cons None show ?thesis by simp
    next
      case (Some r)
      obtain old new where r: "r = (old, new)" by force
      from Some r obtain tok where tok: "new = CHR '' '' # tok @ '' ''" "isShellCommandSeparator tok"
        using shell_rules_find_Some by blast
      let ?rest = "drop (length old - 1) t"
      have "length ?rest < length s" using Cons by simp
      then have "list_all (\<lambda>w. isShellCommandSeparator w \<or> sep_free w)
                   (fields_acc [] (replace_rules shell_rules ?rest))"
        using "1.IH" by simp
      then show ?thesis
        using Some Cons r tok fields_acc_separator [OF tok(2)] "1.prems" by simp
    qed
  qed
qed

lemma shellishFields_shape:
  assumes "f \<in> set (shellishFields command)"
  shows "shell_field f"
proof -
  from assms obtain w where w: "w \<in> set (Fields (replace_rules shell_rules command))"
    and f: "f = trimShellToken w" "f \<noteq> []"
    by (auto simp: shellishFields_def)
  have "list_all (\<lambda>w. isShellCommandSeparator w \<or> sep_free w)
          (fields_acc [] (replace_rules shell_rules command))"
    by (rule fields_acc_replace_words) simp
  with w have cases: "isShellCommandSeparator w \<or> sep_free w"
    by (auto simp: Fields_def list_all_iff)
  from w have nw: "nonspace w" using Fields_nonspace by blast
  have fw: "f = TrimFunc (\<lambda>c. c \<in> set quote_chars) w"
    by (simp add: f trimShellToken_def Trim_def TrimSpace_nonspace [OF nw])
  have ends: "hd f \<notin> set quote_chars" "last f \<notin> set quote_chars"
    using TrimFunc_ends [of "\<lambda>c. c \<in> set quote_chars" w] f(2) unfolding fw by auto
  have sub: "set f \<subseteq> set w" unfolding fw by (rule TrimFunc_subset)
  have "isShellCommandSeparator f \<or> sep_free f"
  proof (cases "isShellCommandSeparator w")
    case True
    then have "f = w" unfolding fw using separator_shape by (intro TrimFunc_id) auto
    with True show ?thesis by simp
  next
    case False
    with cases sub show ?thesis using sep_free_mono by blast
  qed
  with ends f(2) nw sub show ?thesis
    by (auto simp: shell_field_def intro: nonspace_mono)
qed

subsection \<open>Printing and scanning again\<close>

lemma replace_sep_free:
  "sep_free w \<Longrightarrow> replace_rules shell_rules (w @ s) = w @ replace_rules shell_rules s"
  by (induction w) (auto simp: shell_rules_find_None)

lemma replace_separator:
  assumes "isShellCommandSeparator f" and "s = [] \<or> hd s = CHR '' ''"
  shows "replace_rules shell_rules (f @ s) = CHR '' '' # f @ CHR '' '' # replace_rules shell_rules s"
  using assms
  by (cases s) (auto simp: isShellCommandSeparator_def shell_rules_def)

lemma fields_acc_shell_field:
  assumes "shell_field f" and "s = [] \<or> hd s = CHR '' ''"
  shows "fields_acc [] (replace_rules shell_rules (f @ s)) = f # fields_acc [] (replace_rules shell_rules s)"
proof (cases "isShellCommandSeparator f")
  case True
  with assms(2) show ?thesis
    by (simp add: replace_separator fields_acc_separator del: fields_acc.simps)
next
  case False
  with assms(1) have sf: "sep_free f" "nonspace f" "f \<noteq> []" by (auto simp: shell_field_def)
  have "fields_acc [] (replace_rules shell_rules (f @ s)) =
        fields_acc (rev f) (replace_rules shell_rules s)"
    using sf by (simp add: replace_sep_free fields_acc_word)
  also have "\<dots> = f # fields_acc [] (replace_rules shell_rules s)"
  proof (cases s)
    case (Cons c t)
    with assms(2) have "c = CHR '' ''" by simp
    then show ?thesis
      using sf Cons by (simp add: shell_rules_find_None sep_chars_def is_space_def)
  qed (use sf in simp)
  finally show ?thesis .
qed

lemma replace_space:
  "fields_acc [] (replace_rules shell_rules (CHR '' '' # s)) = fields_acc [] (replace_rules shell_rules s)"
  by (simp add: shell_rules_find_None sep_chars_def is_space_def)

lemma Fields_replace_Join:
  assumes "list_all shell_field fs"
  shows "fields_acc [] (replace_rules shell_rules (Join fs '' '')) = fs"
  using assms
proof (induction fs)
  case (Cons f fs)
  show ?case
  proof (cases "fs = []")
    case True
    with Cons show ?thesis using fields_acc_shell_field [of f "[]"] by simp
  next
    case False
    then have "Join (f # fs) '' '' = f @ CHR '' '' # Join fs '' ''" by (simp add: Join_Cons)
    with Cons show ?thesis
      using fields_acc_shell_field [of f "CHR '' '' # Join fs '' ''"] replace_space by simp
  qed
qed simp

lemma shellishFields_Join:
  assumes "list_all shell_field fs"
  shows "shellishFields (Join fs '' '') = fs"
proof -
  have "map trimShellToken fs = fs"
    using assms by (auto intro: map_idI shell_field_trim simp: list_all_iff)
  moreover have "filter (\<lambda>f. f \<noteq> []) fs = fs"
    using assms by (auto intro: filter_True simp: list_all_iff shell_field_def)
  ultimately show ?thesis
    by (simp add: shellishFields_def Fields_def Fields_replace_Join [OF assms])
qed

lemma TrimSpace_Join:
  assumes "list_all shell_field fs"
  shows "TrimSpace (Join fs '' '') = Join fs '' ''"
proof (cases fs)
  case (Cons f gs)
  have f: "f \<noteq> []" "nonspace f" and l: "last fs \<noteq> []" "nonspace (last fs)"
    using assms Cons last_in_set [of fs] by (auto simp: shell_field_def list_all_iff)
  have "hd (Join fs '' '') = hd f" "last (Join fs '' '') = last (last fs)"
    using Cons f l hd_Join last_Join [of fs] by auto
  moreover have "\<not> is_space (hd f)" "\<not> is_space (last (last fs))"
    using f l by (auto simp: nonspace_def list_all_iff)
  ultimately show ?thesis
    unfolding TrimSpace_def by (intro TrimFunc_id) auto
qed simp

lemma Join_nonempty: "list_all shell_field fs \<Longrightarrow> fs \<noteq> [] \<Longrightarrow> Join fs '' '' \<noteq> []"
  by (cases fs) (auto simp: Join_Cons shell_field_def)

subsection \<open>Payloads\<close>

lemma posixShellPayloadStart_gr: "posixShellPayloadStart fields i = Some start \<Longrightarrow> i < start"
proof (induction fields i rule: posixShellPayloadStart.induct)
  case (1 fields i)
  from "1.prems" show ?case
    by (subst (asm) posixShellPayloadStart.simps)
      (auto simp: Let_def split: if_splits dest: "1.IH" [OF _ refl])
qed

lemma cmdPayloadStart_gr: "cmdPayloadStart fields i = Some start \<Longrightarrow> i < start"
proof (induction fields i rule: cmdPayloadStart.induct)
  case (1 fields i)
  from "1.prems" show ?case
    by (subst (asm) cmdPayloadStart.simps)
      (auto simp: Let_def split: if_splits dest: "1.IH" [OF _ refl])
qed

lemma powershellPayloadStart_gr: "powershellPayloadStart fields i = Some start \<Longrightarrow> i < start"
proof (induction fields i rule: powershellPayloadStart.induct)
  case (1 fields i)
  from "1.prems" show ?case
    by (subst (asm) powershellPayloadStart.simps)
      (auto simp: Let_def split: if_splits dest: "1.IH" [OF _ refl])
qed

lemma shellPayloadStart_ge:
  "shellPayloadStart fields i = Some start \<Longrightarrow> i < length fields \<and> i + 2 \<le> start"
  by (auto simp: shellPayloadStart_def Let_def split: if_splits
      dest: posixShellPayloadStart_gr cmdPayloadStart_gr powershellPayloadStart_gr)

text \<open>Every payload is the print of a proper suffix of the command's fields.\<close>

lemma payload_fields:
  assumes "payload \<in> set (shellCommandPayloads command)"
  shows "\<exists>k \<ge> 2. k < length (shellishFields command) \<and>
           shellishFields payload = drop k (shellishFields command)"
proof -
  let ?fields = "shellishFields command"
  from assms obtain i start where start: "shellPayloadStart ?fields i = Some start"
    and len: "start < length ?fields"
    and payload: "payload = TrimSpace (Join (drop start ?fields) '' '')"
    unfolding shellCommandPayloads_def Let_def
    by (auto split: option.splits if_splits) metis
  have wf: "list_all shell_field (drop start ?fields)"
    using shellishFields_shape by (metis in_set_dropD list_all_iff)
  have "shellishFields payload = drop start ?fields"
    unfolding payload TrimSpace_Join [OF wf] by (rule shellishFields_Join [OF wf])
  with shellPayloadStart_ge [OF start] len show ?thesis
    by (intro exI [of _ start]) simp
qed

lemma payload_smaller:
  "payload \<in> set (shellCommandPayloads command) \<Longrightarrow>
   length (shellishFields payload) < length (shellishFields command)"
  using payload_fields by fastforce

subsection \<open>Command starts\<close>

lemma segment_start_bounds:
  assumes "segment_start fields inEnv i = Some idx"
  shows "i \<le> idx \<and> idx < length fields \<and> \<not> is_sep_field (fields ! idx)"
  using assms
proof (induction "length fields - i" arbitrary: inEnv i rule: less_induct)
  case less
  note eq = segment_start.simps [of fields inEnv i, unfolded Let_def]
  have i: "i < length fields"
    by (rule ccontr) (use less.prems eq in simp)
  define token where "token = trimShellToken (fields ! i)"
  have IH: "i \<le> idx \<and> idx < length fields \<and> \<not> is_sep_field (fields ! idx)"
    if "segment_start fields e j = Some idx" "i < j" for e j
    using less.hyps [of j e] that i by (metis diff_less_mono2 le_trans less_imp_le_nat)
  have sudo: "i < skipSudoPrefix fields (i + 1)"
    using skipSudoPrefix_ge [of "i + 1" fields] i by simp
  from less.prems i
  consider e j where "segment_start fields e j = Some idx" "i < j"
    | "\<not> isShellCommandSeparator token" "idx = i"
    unfolding eq token_def [symmetric]
    using sudo by (metis (no_types, lifting) less_add_one linorder_not_le option.distinct(1) option.inject)
  then show ?case
    by cases (use IH i in \<open>auto simp: is_sep_field_def token_def\<close>)
qed

lemma starts_from_bounds:
  "idx \<in> set (starts_from fields i) \<Longrightarrow> i \<le> idx \<and> idx < length fields \<and> \<not> is_sep_field (fields ! idx)"
proof (induction fields i rule: starts_from.induct)
  case (1 fields i)
  let ?j = "skip_fields is_sep_field fields i"
  let ?k = "skip_fields (\<lambda>f. \<not> is_sep_field f) fields ?j"
  have le: "i \<le> ?j" "?j \<le> ?k" by (rule skip_fields_ge)+
  from "1.prems" have j: "\<not> length fields \<le> ?j"
    and cases: "segment_start fields False ?j = Some idx \<or> idx \<in> set (starts_from fields ?k)"
    by (subst (asm) starts_from.simps,
        auto simp: Let_def commandStartIndexInSegment_def split: if_splits option.splits)+
  from cases show ?case
  proof
    assume "segment_start fields False ?j = Some idx"
    with segment_start_bounds le show ?thesis by fastforce
  next
    assume "idx \<in> set (starts_from fields ?k)"
    with "1.IH" [OF refl j] le show ?thesis by fastforce
  qed
qed

lemma commandStartIndexes_bounds:
  "idx \<in> set (commandStartIndexes fields) \<Longrightarrow> idx < length fields \<and> \<not> is_sep_field (fields ! idx)"
  unfolding commandStartIndexes_def using starts_from_bounds by blast

section \<open>Properties\<close>

text \<open>C22 (round trip). The fields of any command are well formed, and printing them with single
  spaces and scanning the print again gives exactly the same fields.\<close>

theorem shellishFields_roundtrip:
  "list_all shell_field (shellishFields command) \<and>
   shellishFields (Join (shellishFields command) '' '') = shellishFields command"
  using shellishFields_shape by (simp add: list_all_iff shellishFields_Join)

text \<open>Every payload that a command hands to a shell scans to a proper suffix of
  the command's fields, with at least the shell and its option left out: this is why the
  recursive scans of payloads end.\<close>

theorem payload_proper_suffix:
  assumes "payload \<in> set (shellCommandPayloads command)"
  shows "\<exists>k \<ge> 2. k < length (shellishFields command) \<and> shellishFields payload = drop k (shellishFields command)"
  using assms by (rule payload_fields)

lemma payload_proper_suffix_witness:
  "''ls -l'' \<in> set (shellCommandPayloads ''bash -c ls -l'') \<and>
   (\<exists>k \<ge> 2. k < length (shellishFields ''bash -c ls -l'') \<and> shellishFields ''ls -l'' = drop k (shellishFields ''bash -c ls -l''))"
proof -
  have "''ls -l'' \<in> set (shellCommandPayloads ''bash -c ls -l'')" by code_simp
  from this payload_proper_suffix [OF this] show ?thesis by (rule conjI)
qed

text \<open>Every index at which the scanner reports the start of a command is the index of
  a field, and that field is not a separator; so the deletion, Git and payload scanners
  never index outside the fields.\<close>

theorem command_starts_in_bounds:
  "list_all (\<lambda>i. i < length fs \<and> \<not> is_sep_field (fs ! i)) (commandStartIndexes fs)"
  using commandStartIndexes_bounds by (simp add: list_all_iff)

end
