(* ===== verification/Git_Policy.thy ===== *)
theory Git_Policy
  imports Shell_Fields
begin

text \<open>
  The Git part of the command policy, \<open>agent-sdk/policy/presets/git_policy.go\<close>: the Git
  invocations of a command line, their classification and the recursive search through
  shell payloads.  A payload has fewer fields than its command, so the search ends; what it
  finds is characterised by the inductive predicate \<open>runs_git\<close>.
\<close>

section \<open>Flags\<close>

type_synonym gitFlagMatcher = "string \<Rightarrow> bool"

definition gitExactFlag :: "string \<Rightarrow> gitFlagMatcher" where
  "gitExactFlag name token \<longleftrightarrow> token = ToLower (TrimSpace name)"

definition gitLongFlag :: "string \<Rightarrow> gitFlagMatcher" where
  "gitLongFlag name0 token =
     (let name = ToLower (TrimSpace name0) in token = name \<or> HasPrefix token (name @ ''=''))"

definition gitLongPrefixFlag :: "string \<Rightarrow> gitFlagMatcher" where
  "gitLongPrefixFlag name0 token =
     (let name = ToLower (TrimSpace name0)
      in token = name \<or> HasPrefix token (name @ ''='') \<or> HasPrefix token name)"

definition gitShortClusterFlag :: "string \<Rightarrow> gitFlagMatcher" where
  "gitShortClusterFlag name token =
     (let short = TrimPrefix (ToLower (TrimSpace name)) ''-''
      in short \<noteq> [] \<and> HasPrefix token ''-'' \<and> \<not> HasPrefix token ''--'' \<and>
         Contains (TrimPrefix token ''-'') short)"

definition gitHasFlag :: "string list \<Rightarrow> gitFlagMatcher list \<Rightarrow> bool" where
  "gitHasFlag args matchers =
     list_ex (\<lambda>arg. let token = ToLower (trimShellToken arg)
                    in token \<noteq> [] \<and> list_ex (\<lambda>matcher. matcher token) matchers) args"

section \<open>Git invocations\<close>

record gitCommand =
  Subcommand :: string
  Args :: "string list"

definition isGitCommand :: "string \<Rightarrow> bool" where
  "isGitCommand token \<longleftrightarrow> executableBase token \<in> {''git'', ''git.exe''}"

definition isGitGlobalOptionWithSeparateValue :: "string \<Rightarrow> bool" where
  "isGitGlobalOptionWithSeparateValue token =
     (let lower = ToLower (TrimSpace token)
      in if Contains lower ''='' then False
         else lower \<in> {''-c'', ''--git-dir'', ''--work-tree'', ''--namespace'', ''--exec-path'', ''--config-env''})"

text \<open>\<open>gitSubcommand\<close> on the fields that are left: the subcommand and the fields after it.\<close>

fun gitSubcommand :: "string list \<Rightarrow> (string \<times> string list) option" where
  "gitSubcommand [] = None"
| "gitSubcommand (field # fs) =
     (let token = trimShellToken field
      in if token = [] \<or> isShellCommandSeparator token then None
         else if isEnvAssignment token then gitSubcommand fs
         else if token = ''env'' \<or> executableBase token = ''env'' \<or> executableBase token = ''env.exe''
           then gitSubcommand fs
         else if isGitGlobalOptionWithSeparateValue token
           then (case fs of [] \<Rightarrow> None | _ # rest \<Rightarrow> gitSubcommand rest)
         else if HasPrefix token ''-'' then gitSubcommand fs
         else Some (ToLower token, fs))"

definition gitCommands :: "string \<Rightarrow> gitCommand list" where
  "gitCommands command =
     (let fields = shellishFields command
      in concat (map (\<lambda>i. if \<not> isGitCommand (fields ! i) then []
                          else case gitSubcommand (drop (i + 1) fields) of
                                 None \<Rightarrow> []
                               | Some (subcommand, rest) \<Rightarrow>
                                   [\<lparr>Subcommand = subcommand,
                                     Args = takeWhile (\<lambda>t. \<not> (t = [] \<or> isShellCommandSeparator t))
                                              (map trimShellToken rest)\<rparr>])
                (commandStartIndexes fields)))"

section \<open>Classification\<close>

definition gitCleanDryRun :: "string list \<Rightarrow> bool" where
  "gitCleanDryRun args =
     gitHasFlag args [gitExactFlag ''-n'', gitShortClusterFlag ''-n'', gitLongFlag ''--dry-run'']"

fun checkout_discards :: "bool \<Rightarrow> string list \<Rightarrow> bool" where
  "checkout_discards afterDoubleDash [] = False"
| "checkout_discards afterDoubleDash (arg # args) =
     (let token = trimShellToken arg
      in if token = ''--'' then checkout_discards True args
         else if afterDoubleDash \<and> token \<noteq> [] then True
         else if token = ''.'' \<or> token = '':/'' then True
         else checkout_discards afterDoubleDash args)"

definition gitCheckoutDiscardsWorktree :: "string list \<Rightarrow> bool" where
  "gitCheckoutDiscardsWorktree args = checkout_discards False args"

text \<open>The three flags \<open>staged\<close>, \<open>worktree\<close>, \<open>hasPath\<close> of the loop.\<close>

fun restore_scan :: "string list \<Rightarrow> bool \<Rightarrow> bool \<Rightarrow> bool \<Rightarrow> bool \<times> bool \<times> bool" where
  "restore_scan [] staged worktree hasPath = (staged, worktree, hasPath)"
| "restore_scan (arg # args) staged worktree hasPath =
     (let token = trimShellToken arg
      in if token = [] then restore_scan args staged worktree hasPath
         else if token = ''--staged'' then restore_scan args True worktree hasPath
         else if token = ''--worktree'' then restore_scan args staged True hasPath
         else if token = ''--'' then restore_scan args staged worktree hasPath
         else restore_scan args staged worktree (hasPath \<or> \<not> HasPrefix token ''-''))"

definition gitRestoreDiscardsWorktree :: "string list \<Rightarrow> bool" where
  "gitRestoreDiscardsWorktree args =
     (case restore_scan args False False False of (staged, worktree, hasPath) \<Rightarrow>
        hasPath \<and> (\<not> staged \<or> worktree))"

definition gitPushForce :: "string list \<Rightarrow> bool" where
  "gitPushForce args =
     gitHasFlag args [gitLongFlag ''--force'', gitLongPrefixFlag ''--force-with-lease'',
                      gitLongPrefixFlag ''--force-if-includes'', gitShortClusterFlag ''-f'']"

definition classifyGitCommand :: "gitCommand \<Rightarrow> string" where
  "classifyGitCommand git =
     (if gitHasFlag (Args git) [gitLongFlag ''--help'', gitExactFlag ''-h''] then []
      else if Subcommand git = ''clean'' then
        (if \<not> gitCleanDryRun (Args git)
         then ''git clean without dry-run can irreversibly remove untracked files'' else [])
      else if Subcommand git = ''reset'' then
        (if gitHasFlag (Args git) [gitLongFlag ''--hard'']
         then ''git reset --hard discards index and worktree changes'' else [])
      else if Subcommand git = ''checkout'' then
        (if gitCheckoutDiscardsWorktree (Args git)
         then ''git checkout path restore discards worktree changes'' else [])
      else if Subcommand git = ''restore'' then
        (if gitRestoreDiscardsWorktree (Args git)
         then ''git restore discards worktree changes'' else [])
      else if Subcommand git = ''push'' then
        (if gitPushForce (Args git)
         then ''forced git push can rewrite remote history''
         else ''git push may update the remote before a later local Git metadata write fails in the sandbox'')
      else [])"

text \<open>A loop that returns the first non-empty reason.\<close>

fun first_reason :: "('a \<Rightarrow> string) \<Rightarrow> 'a list \<Rightarrow> string" where
  "first_reason f [] = []"
| "first_reason f (x # xs) = (let reason = f x in if reason \<noteq> [] then reason else first_reason f xs)"

lemma first_reason_cong [fundef_cong]:
  "xs = ys \<Longrightarrow> (\<And>x. x \<in> set ys \<Longrightarrow> f x = g x) \<Longrightarrow> first_reason f xs = first_reason g ys"
  by (induction ys arbitrary: xs) (auto simp: Let_def)

function gitCommandApprovalReason :: "string \<Rightarrow> string" where
  "gitCommandApprovalReason command =
     (let reason = first_reason classifyGitCommand (gitCommands command)
      in if reason \<noteq> [] then reason
         else first_reason gitCommandApprovalReason (shellCommandPayloads command))"
  by pat_completeness auto
termination
  by (relation "measure (\<lambda>command. length (shellishFields command))") (auto dest: payload_smaller)

declare gitCommandApprovalReason.simps [simp del]

section \<open>What the search finds\<close>

text \<open>
  The specification: the Git invocations of a command are those of its own fields and
  those of the payloads it hands to a shell, at any depth.
\<close>

inductive runs_git :: "string \<Rightarrow> gitCommand \<Rightarrow> bool" where
  direct: "git \<in> set (gitCommands command) \<Longrightarrow> runs_git command git"
| nested: "payload \<in> set (shellCommandPayloads command) \<Longrightarrow> runs_git payload git \<Longrightarrow> runs_git command git"

inductive_simps runs_git_iff: "runs_git command git"

lemma first_reason_empty: "first_reason f xs = [] \<longleftrightarrow> (\<forall>x \<in> set xs. f x = [])"
  by (induction xs) (auto simp: Let_def)

lemma first_reason_from: "first_reason f xs = r \<Longrightarrow> r \<noteq> [] \<Longrightarrow> \<exists>x \<in> set xs. f x = r"
  by (induction xs) (auto simp: Let_def split: if_splits)

lemma gitCommandApprovalReason_empty:
  "gitCommandApprovalReason command = [] \<longleftrightarrow> (\<forall>git. runs_git command git \<longrightarrow> classifyGitCommand git = [])"
proof (induction command rule: gitCommandApprovalReason.induct)
  case (1 command)
  let ?own = "first_reason classifyGitCommand (gitCommands command)"
  have "gitCommandApprovalReason command = [] \<longleftrightarrow>
        ?own = [] \<and> first_reason gitCommandApprovalReason (shellCommandPayloads command) = []"
    by (simp add: gitCommandApprovalReason.simps [of command] Let_def)
  also have "\<dots> \<longleftrightarrow> (\<forall>git. runs_git command git \<longrightarrow> classifyGitCommand git = [])"
    using 1 by (auto simp: first_reason_empty runs_git_iff [of command])
  finally show ?case .
qed

lemma gitCommandApprovalReason_from:
  "gitCommandApprovalReason command \<noteq> [] \<Longrightarrow>
   \<exists>git. runs_git command git \<and> classifyGitCommand git = gitCommandApprovalReason command"
proof (induction command rule: gitCommandApprovalReason.induct)
  case (1 command)
  let ?own = "first_reason classifyGitCommand (gitCommands command)"
  let ?inner = "first_reason gitCommandApprovalReason (shellCommandPayloads command)"
  show ?case
  proof (cases "?own = []")
    case True
    then have eq: "gitCommandApprovalReason command = ?inner"
      by (simp add: gitCommandApprovalReason.simps [of command])
    with "1.prems" obtain payload where p: "payload \<in> set (shellCommandPayloads command)"
      "gitCommandApprovalReason payload = ?inner"
      using first_reason_from by metis
    with "1.IH" [OF refl _ p(1)] True "1.prems" eq
    obtain git where "runs_git payload git" "classifyGitCommand git = ?inner" by auto
    with p eq show ?thesis by (metis runs_git.nested)
  next
    case False
    then have eq: "gitCommandApprovalReason command = ?own"
      by (simp add: gitCommandApprovalReason.simps [of command])
    with False show ?thesis using first_reason_from runs_git.direct by metis
  qed
qed

section \<open>Properties\<close>

text \<open>C20 (refinement). The recursive search reports no reason exactly when no Git invocation of the
  command, at any depth of shell payloads, is classified as destructive; and a reason it
  reports is the classification of one of them.\<close>

theorem gitCommandApprovalReason_spec:
  "(gitCommandApprovalReason command = [] \<longleftrightarrow> (\<forall>git. runs_git command git \<longrightarrow> classifyGitCommand git = [])) \<and>
   (gitCommandApprovalReason command = [] \<or>
    (\<exists>git. runs_git command git \<and> classifyGitCommand git = gitCommandApprovalReason command))"
  using gitCommandApprovalReason_empty gitCommandApprovalReason_from by blast

lemma gitCommandApprovalReason_spec_witness:
  "gitCommandApprovalReason ''sh -c git push'' \<noteq> [] \<and>
   (\<exists>git. runs_git ''sh -c git push'' git \<and> classifyGitCommand git = gitCommandApprovalReason ''sh -c git push'')"
proof -
  have "gitCommandApprovalReason ''sh -c git push'' \<noteq> []" by code_simp
  with gitCommandApprovalReason_spec [of "''sh -c git push''"] show ?thesis by blast
qed

end
