(* ===== verification/Remote_Script.thy ===== *)
theory Remote_Script
  imports Shell_Fields
begin

text \<open>
  The classifier of downloader-to-interpreter flows, \<open>agent-sdk/policy/presets/remote_script.go\<close>
  and \<open>remote_script_tokens.go\<close>: a tokenizer that keeps quoted words apart from shell
  operators, and a scanner that follows pipeline input through continuations, groups and
  shell payloads.

  The scanner calls itself on the text of a payload and on the rest of the tokens after a
  group.  It is written with fuel; \<open>scan_list_enough\<close> shows that a number computed from
  the word lengths is always enough, because the words of a text weigh no more than the
  text, and a payload leaves at least the command word and its option behind.
\<close>

section \<open>Tokens\<close>

datatype remoteScriptToken = Word string | Operator string

fun word_weight :: "remoteScriptToken list \<Rightarrow> nat" where
  "word_weight [] = 0"
| "word_weight (Word w # toks) = length w + 1 + word_weight toks"
| "word_weight (Operator op # toks) = word_weight toks"

definition escapable :: string where
  "escapable = [CHR '' '', backslash, CHR 0x60, dquote, squote, CHR ''|'', CHR ''&'', CHR '';'',
                CHR ''('', CHR '')'', CHR ''{'', CHR ''}'', CHR ''#'']"

definition operator_chars :: string where
  "operator_chars = [newline, carriage_return, CHR ''|'', CHR ''&'', CHR '';'', CHR ''('', CHR '')'',
                     CHR ''{'', CHR ''}'']"

definition is_eol :: "char \<Rightarrow> bool" where
  "is_eol c \<longleftrightarrow> c = newline \<or> c = carriage_return"

definition flush :: "string \<Rightarrow> bool \<Rightarrow> remoteScriptToken list" where
  "flush word started = (if started then [Word word] else [])"

text \<open>The operator that starts with \<open>c\<close> before the text \<open>cs\<close>, and the text after it.\<close>

definition read_operator :: "char \<Rightarrow> string \<Rightarrow> string \<times> string" where
  "read_operator c cs =
     (if c = carriage_return then ([newline], if HasPrefix cs [newline] then drop 1 cs else cs)
      else if c = CHR ''|'' \<and> (HasPrefix cs ''|'' \<or> HasPrefix cs ''&'') \<or> c = CHR ''&'' \<and> HasPrefix cs ''&''
        then ([c, hd cs], drop 1 cs)
      else ([c], cs))"

text \<open>The loop of \<open>remoteScriptTokens\<close>: the rest of the text, the word being built, whether
  one is started, and the open quote.\<close>

function remote_tokens :: "string \<Rightarrow> string \<Rightarrow> bool \<Rightarrow> char option \<Rightarrow> remoteScriptToken list" where
  "remote_tokens [] word started quote = flush word started"
| "remote_tokens (c # cs) word started quote =
     (if quote = None \<and> \<not> started \<and> HasPrefix (c # cs) ''<#'' then
        (case Index (drop 1 cs) ''#>'' of
           None \<Rightarrow> flush word started
         | Some e \<Rightarrow> remote_tokens (drop (e + 3) cs) word started quote)
      else if quote \<noteq> Some squote \<and> (c = backslash \<or> c = CHR 0x60) \<and> cs \<noteq> [] \<and> is_eol (hd cs) then
        remote_tokens (if hd cs = carriage_return \<and> HasPrefix (drop 1 cs) [newline] then drop 2 cs else drop 1 cs)
          word started quote
      else if quote \<noteq> Some squote \<and> (c = backslash \<or> c = CHR 0x60) \<and> cs \<noteq> [] \<and> hd cs \<in> set escapable then
        remote_tokens (drop 1 cs) (word @ [hd cs]) True quote
      else if quote \<noteq> None then
        (if Some c = quote then
           (if quote = Some squote \<and> HasPrefix cs [squote]
            then remote_tokens (drop 1 cs) (word @ [c]) started quote
            else remote_tokens cs word started None)
         else remote_tokens cs (word @ [c]) started quote)
      else if c = squote \<or> c = dquote then remote_tokens cs word True (Some c)
      else if c = CHR '' '' \<or> c = tab then flush word started @ remote_tokens cs [] False quote
      else if c = CHR ''#'' then
        (if started then remote_tokens cs (word @ [c]) started quote
         else remote_tokens (dropWhile (\<lambda>d. \<not> is_eol d) cs) word started quote)
      else if c \<in> set operator_chars then
        (if c = CHR ''&'' \<and> (HasSuffix word ''>'' \<or> HasSuffix word ''<'' \<or> HasPrefix cs ''>'')
         then remote_tokens cs (word @ [c]) True quote
         else case read_operator c cs of (op, rest) \<Rightarrow>
                flush word started @ Operator op # remote_tokens rest [] False quote)
      else remote_tokens cs (word @ [c]) True quote)"
  by pat_completeness auto
termination
proof (relation "measure (\<lambda>(cs, word, started, quote). length cs)", goal_cases)
  case (11 c cs word started quote)
  then show ?case using length_dropWhile_le [of "\<lambda>d. \<not> is_eol d" cs] by (simp add: less_Suc_eq_le)
next
  case (13 c cs word started quote x y)
  then show ?case by (auto simp: read_operator_def split: if_splits)
qed auto

declare remote_tokens.simps [simp del]

definition remoteScriptTokens :: "string \<Rightarrow> remoteScriptToken list" where
  "remoteScriptTokens command = remote_tokens command [] False None"

subsection \<open>Words weigh no more than the text\<close>

lemma word_weight_append [simp]: "word_weight (xs @ ys) = word_weight xs + word_weight ys"
  by (induction xs rule: word_weight.induct) auto

lemma word_weight_flush [simp]: "word_weight (flush word started) = (if started then length word + 1 else 0)"
  by (simp add: flush_def)

lemma read_operator_length: "read_operator c cs = (op, rest) \<Longrightarrow> length rest \<le> length cs"
  by (auto simp: read_operator_def split: if_splits)

lemma weight_if:
  "(b \<Longrightarrow> word_weight x \<le> n) \<Longrightarrow> (\<not> b \<Longrightarrow> word_weight y \<le> n) \<Longrightarrow> word_weight (if b then x else y) \<le> n"
  by simp

definition room :: "string \<Rightarrow> string \<Rightarrow> bool \<Rightarrow> nat" where
  "room cs word started = length cs + (if started then length word else 0) + 1"

lemma remote_tokens_weight:
  assumes "started \<or> word = [] \<and> quote = None"
  shows "word_weight (remote_tokens cs word started quote) \<le> room cs word started"
  using assms
proof (induction "length cs" arbitrary: cs word started quote rule: less_induct)
  case less
  show ?case
  proof (cases cs)
    case Nil
    then show ?thesis by (simp add: remote_tokens.simps room_def)
  next
    case (Cons c ds)
    have IH: "word_weight (remote_tokens es w s q) \<le> room (c # ds) word started"
      if "s \<or> w = [] \<and> q = None" "length es \<le> length ds" "room es w s \<le> room (c # ds) word started" for es w s q
      using less.hyps [of es s w q] that Cons by simp
    have flush: "word_weight (flush word started) + word_weight (remote_tokens es [] False None) \<le> room (c # ds) word started"
      if "length es \<le> length ds" for es
      using less.hyps [of es False "[]" None] that Cons less.prems by (simp add: room_def)
    have comment: "length (dropWhile (\<lambda>d. \<not> is_eol d) ds) \<le> length ds" by (rule length_dropWhile_le)
    have fl: "word_weight (flush word started) \<le> room (c # ds) word started" by (simp add: room_def)
    have esc: "ds \<noteq> [] \<Longrightarrow> word_weight (remote_tokens (drop 1 ds) (word @ [x]) True quote) \<le> room (c # ds) word started" for x
      using less.prems by (intro IH) (auto simp: room_def)
    have op: "word_weight (case read_operator c ds of (op, rest) \<Rightarrow> flush word started @ Operator op # remote_tokens rest [] False None)
       \<le> room (c # ds) word started"
      using flush read_operator_length by (auto split: prod.split simp del: word_weight_flush)
    have dbl: "started \<Longrightarrow> ds \<noteq> [] \<Longrightarrow> word_weight (remote_tokens (drop 1 ds) (word @ [c]) started quote) \<le> room (c # ds) word started"
      using less.prems by (intro IH) (auto simp: room_def)
    have shrink: "word_weight (remote_tokens es word started quote) \<le> room (c # ds) word started"
      if "length es \<le> length ds" for es
      using less.prems that by (intro IH) (auto simp: room_def)
    have block: "word_weight (case i of None \<Rightarrow> flush word started | Some e \<Rightarrow> remote_tokens (drop (e + 3) ds) word started quote)
        \<le> room (c # ds) word started" for i
      using shrink fl by (cases i) simp_all
    have grow: "word_weight (remote_tokens ds (word @ [c]) True quote) \<le> room (c # ds) word started"
      using less.prems by (intro IH) (auto simp: room_def)
    have opened: "word_weight (remote_tokens ds word True (Some c)) \<le> room (c # ds) word started"
      using less.prems by (intro IH) (auto simp: room_def)
    have closed: "started \<Longrightarrow> word_weight (remote_tokens ds word started None) \<le> room (c # ds) word started"
      by (intro IH) (auto simp: room_def)
    have started: "quote \<noteq> None \<Longrightarrow> started" using less.prems by auto
    have ne: "HasPrefix ds [squote] \<Longrightarrow> ds \<noteq> []" by (auto simp: HasPrefix_def)
    show ?thesis
      unfolding Cons remote_tokens.simps
      by (intro weight_if)
        (use block shrink esc dbl grow opened closed started ne comment op flush [of ds] in \<open>simp_all\<close>)
  qed
qed

lemma remoteScriptTokens_weight: "word_weight (remoteScriptTokens command) \<le> length command + 1"
  unfolding remoteScriptTokens_def
  using remote_tokens_weight [of False "[]" None command] by (simp add: room_def)

section \<open>Scanner\<close>

record remoteScriptFlow =
  download :: bool
  execution :: bool

definition flow_of :: "bool \<Rightarrow> bool \<Rightarrow> remoteScriptFlow" where
  "flow_of d e = \<lparr>download = d, execution = e\<rparr>"

definition command_prefix_words :: "string list" where
  "command_prefix_words = [''if'', ''then'', ''elif'', ''else'', ''while'', ''until'', ''do'', ''!'', ''time'']"

definition downloaders :: "string list" where
  "downloaders = [''curl'', ''curl.exe'', ''wget'', ''wget.exe'', ''irm'', ''invoke-restmethod'', ''iwr'',
                  ''invoke-webrequest'']"

definition interpreters :: "string list" where
  "interpreters =
     [''sh'', ''sh.exe'', ''bash'', ''bash.exe'', ''zsh'', ''zsh.exe'', ''dash'', ''dash.exe'', ''ksh'', ''ksh.exe'',
      ''ash'', ''ash.exe'', ''fish'', ''fish.exe'', ''python'', ''python3'', ''python.exe'', ''python3.exe'',
      ''node'', ''node.exe'', ''perl'', ''perl.exe'', ''ruby'', ''ruby.exe'', ''powershell'', ''powershell.exe'',
      ''pwsh'', ''pwsh.exe'', ''iex'', ''invoke-expression'']"

definition joins_payload :: "string list" where
  "joins_payload = [''powershell'', ''powershell.exe'', ''pwsh'', ''pwsh.exe'', ''cmd'', ''cmd.exe'']"

text \<open>
  \<open>remoteScriptCommand\<close>; its first argument is the scan of a payload's text with the
  given pipeline input.
\<close>

definition remoteScriptCommand ::
  "(string \<Rightarrow> bool \<Rightarrow> remoteScriptFlow option) \<Rightarrow> string list \<Rightarrow> bool \<Rightarrow> bool \<Rightarrow> remoteScriptFlow option" where
  "remoteScriptCommand scan fields0 input groupOutput =
     (let d = input \<or> groupOutput;
          fs = dropWhile (\<lambda>w. w \<in> set command_prefix_words) fields0
      in case commandStartIndexInSegment fs 0 of
           None \<Rightarrow> Some (flow_of d False)
         | Some index \<Rightarrow>
             let name = executableBase (fs ! index);
                 other = Some (if name \<in> set downloaders then flow_of True False
                               else if name \<in> set interpreters then flow_of d (input \<or> groupOutput)
                               else flow_of d False)
             in case shellPayloadStart fs index of
                  None \<Rightarrow> other
                | Some start \<Rightarrow>
                    if start < length fs \<and> fs ! start \<noteq> ''-'' then
                      let payload = (if name \<in> set joins_payload then Join (drop start fs) '' '' else fs ! start)
                      in case scan payload input of
                           None \<Rightarrow> None
                         | Some inner \<Rightarrow> Some (flow_of (d \<or> download inner) (execution inner))
                    else other)"

text \<open>
  The loop of \<open>list\<close> with its variables: the tokens that are left, \<open>fields\<close>,
  \<open>groupOutput\<close>, \<open>pipeInput\<close>, \<open>afterPipe\<close> and \<open>result.download\<close>.  It returns the flow and
  the tokens after the group.
\<close>

primrec scan_list ::
  "nat \<Rightarrow> bool \<Rightarrow> remoteScriptToken list \<Rightarrow> string list \<Rightarrow> bool \<Rightarrow> bool \<Rightarrow> bool \<Rightarrow> bool \<Rightarrow>
   (remoteScriptFlow \<times> remoteScriptToken list) option" where
  "scan_list 0 input toks fs groupOutput pipeInput afterPipe result = None"
| "scan_list (Suc n) input toks fs groupOutput pipeInput afterPipe result =
     (let finish = remoteScriptCommand
            (\<lambda>payload inp. map_option fst (scan_list n inp (remoteScriptTokens payload) [] False inp False False))
            fs pipeInput groupOutput
      in case toks of
           [] \<Rightarrow> map_option (\<lambda>flow. (flow_of (result \<or> download flow) (execution flow), [])) finish
         | Word text # rest \<Rightarrow> scan_list n input rest (fs @ [text]) groupOutput pipeInput False result
         | Operator text # rest \<Rightarrow>
             if text = ''('' \<or> text = ''{'' then
               (case scan_list n pipeInput rest [] False pipeInput False False of
                  None \<Rightarrow> None
                | Some (grp, rest') \<Rightarrow>
                    if execution grp then Some (grp, rest')
                    else scan_list n input rest' fs (groupOutput \<or> download grp) pipeInput False result)
             else if text = ''&'' \<and> fs = [] \<and> \<not> groupOutput
               then scan_list n input rest fs groupOutput pipeInput afterPipe result
             else if text = [newline] \<and> afterPipe
               then scan_list n input rest fs groupOutput pipeInput afterPipe result
             else case finish of
                    None \<Rightarrow> None
                  | Some flow \<Rightarrow>
                      if execution flow then Some (flow, rest)
                      else if text = ''|'' \<or> text = ''|&''
                        then scan_list n input rest [] False (download flow) True result
                      else if text = '')'' \<or> text = ''}''
                        then Some (flow_of (result \<or> download flow) False, rest)
                      else scan_list n input rest [] False input False (result \<or> download flow))"

text \<open>Fuel that is always enough for a text; see \<open>scan_text_total\<close>.\<close>

definition scan_fuel :: "nat \<Rightarrow> nat \<Rightarrow> nat" where
  "scan_fuel weight tokens = weight * (weight + 1) + tokens + 1"

definition scan_text :: "string \<Rightarrow> bool \<Rightarrow> remoteScriptFlow option" where
  "scan_text command input =
     (let toks = remoteScriptTokens command
      in map_option fst (scan_list (scan_fuel (word_weight toks) (length toks)) input toks [] False input False False))"

definition remoteScriptExecution :: "string \<Rightarrow> bool" where
  "remoteScriptExecution command =
     (case scan_text command False of None \<Rightarrow> False | Some flow \<Rightarrow> execution flow)"

section \<open>The scan always ends\<close>

lemma length_if_le:
  "(b \<Longrightarrow> length x \<le> n) \<Longrightarrow> (\<not> b \<Longrightarrow> length y \<le> n) \<Longrightarrow> length (if b then x else y) \<le> n"
  by simp

lemma remote_tokens_count:
  "length (remote_tokens cs word started quote) \<le> length cs + of_bool started"
proof (induction "length cs" arbitrary: cs word started quote rule: less_induct)
  case less
  show ?case
  proof (cases cs)
    case Nil
    then show ?thesis by (simp add: remote_tokens.simps flush_def)
  next
    case (Cons c ds)
    let ?n = "length (c # ds) + of_bool started"
    have IH: "length (remote_tokens es w s q) \<le> ?n" if "length es \<le> length ds" for es w s q
      using less.hyps [of es w s q] that Cons by (cases s) auto
    have fl: "length (flush word started) = of_bool started" by (simp add: flush_def)
    have after: "length (remote_tokens es [] False q) \<le> length ds" if "length es \<le> length ds" for es q
      using less.hyps [of es "[]" False q] that Cons by simp
    have block: "length (case i of None \<Rightarrow> flush word started | Some e \<Rightarrow> remote_tokens (drop (e + 3) ds) word started quote) \<le> ?n" for i
      using IH fl by (cases i) simp_all
    have op: "length (case read_operator c ds of (op, rest) \<Rightarrow> flush word started @ Operator op # remote_tokens rest [] False quote) \<le> ?n"
      using after read_operator_length fl by (auto split: prod.split)
    have comment: "length (dropWhile (\<lambda>d. \<not> is_eol d) ds) \<le> length ds" by (rule length_dropWhile_le)
    show ?thesis
      unfolding Cons remote_tokens.simps
      by (intro length_if_le) (use block IH op fl comment after [of ds] in \<open>simp_all add: le_SucI\<close>)
  qed
qed

lemma remoteScriptTokens_count: "length (remoteScriptTokens command) \<le> length command"
  using remote_tokens_count [of command "[]" False None] by (simp add: remoteScriptTokens_def)

definition fields_weight :: "string list \<Rightarrow> nat" where
  "fields_weight fs = (\<Sum>w \<leftarrow> fs. length w + 1)"

lemma fields_weight_simps [simp]:
  "fields_weight [] = 0" "fields_weight (w # fs) = length w + 1 + fields_weight fs"
  "fields_weight (fs @ gs) = fields_weight fs + fields_weight gs"
  by (simp_all add: fields_weight_def)

lemma fields_weight_dropWhile: "fields_weight (dropWhile p fs) \<le> fields_weight fs"
  by (induction fs) auto

lemma fields_weight_drop: "k \<le> length fs \<Longrightarrow> fields_weight (drop k fs) + k \<le> fields_weight fs"
proof (induction fs arbitrary: k)
  case (Cons w fs)
  then show ?case by (cases k) force+
qed simp

lemma payload_weight:
  assumes "2 \<le> start" and "start < length fs"
  shows "length (fs ! start) + 3 \<le> fields_weight fs" and "length (Join (drop start fs) '' '') + 3 \<le> fields_weight fs"
proof -
  have le: "fields_weight (drop start fs) + 2 \<le> fields_weight fs"
    using fields_weight_drop [of start fs] assms by simp
  have split: "drop start fs = fs ! start # drop (Suc start) fs" using assms(2) by (simp add: Cons_nth_drop_Suc)
  with le show "length (fs ! start) + 3 \<le> fields_weight fs" by simp
  have "length (Join (drop start fs) '' '') + 1 = fields_weight (drop start fs)"
    using length_Join_one [of "drop start fs" "CHR '' ''"] assms(2) by (simp add: fields_weight_def)
  with le show "length (Join (drop start fs) '' '') + 3 \<le> fields_weight fs" by simp
qed

lemma remoteScriptCommand_total:
  assumes "\<And>payload inp. length payload + 3 \<le> fields_weight fs \<Longrightarrow> \<exists>flow. scan payload inp = Some flow"
  shows "\<exists>flow. remoteScriptCommand scan fs input groupOutput = Some flow"
proof -
  let ?fs = "dropWhile (\<lambda>w. w \<in> set command_prefix_words) fs"
  have scan: "\<exists>flow. scan payload inp = Some flow" if "length payload + 3 \<le> fields_weight ?fs" for payload inp
    using assms fields_weight_dropWhile le_trans that by blast
  have payload: "\<exists>flow. scan (if b then Join (drop start ?fs) '' '' else ?fs ! start) inp = Some flow"
    if "shellPayloadStart ?fs index = Some start" "start < length ?fs" for index start b inp
    using shellPayloadStart_ge [OF that(1)] payload_weight [of start ?fs] that(2) scan by (cases b) auto
  show ?thesis
  proof (cases "commandStartIndexInSegment ?fs 0")
    case None
    then show ?thesis by (simp add: remoteScriptCommand_def)
  next
    case index: (Some index)
    show ?thesis
    proof (cases "shellPayloadStart ?fs index")
      case None
      with index show ?thesis by (simp add: remoteScriptCommand_def Let_def)
    next
      case (Some start)
      let ?b = "executableBase (?fs ! index) \<in> set joins_payload"
      obtain flow where "start < length ?fs \<Longrightarrow>
          scan (if ?b then Join (drop start ?fs) '' '' else ?fs ! start) input = Some flow"
        using payload [OF Some, of ?b input] by blast
      with index Some show ?thesis by (simp add: remoteScriptCommand_def Let_def)
    qed
  qed
qed

lemma scan_fuel_payload:
  assumes "length payload + 3 \<le> w" and "scan_fuel w k \<le> Suc n"
  shows "scan_fuel (word_weight (remoteScriptTokens payload)) (length (remoteScriptTokens payload)) \<le> n"
proof -
  let ?w = "word_weight (remoteScriptTokens payload)" and ?k = "length (remoteScriptTokens payload)"
  have w: "?w + 2 \<le> w" and k: "?k + 3 \<le> w"
    using remoteScriptTokens_weight [of payload] remoteScriptTokens_count [of payload] assms(1) by linarith+
  have "?w * (?w + 1) \<le> (w - 2) * (w - 1)" using w by (intro mult_le_mono) auto
  moreover have "(w - 2) * (w - 1) + w \<le> w * (w + 1)"
    using w by (cases w; cases "w - 1") (auto simp: algebra_simps)
  ultimately show ?thesis using assms(2) k unfolding scan_fuel_def by linarith
qed

lemma word_weight_suffix: "suffix xs ys \<Longrightarrow> word_weight xs \<le> word_weight ys"
  by (auto simp: suffix_def)

lemma scan_list_enough:
  assumes "scan_fuel (fields_weight fs + word_weight toks) (length toks) \<le> n"
  shows "\<exists>flow rest. scan_list n input toks fs groupOutput pipeInput afterPipe result = Some (flow, rest) \<and> suffix rest toks"
  using assms
proof (induction n arbitrary: input toks fs groupOutput pipeInput afterPipe result)
  case 0
  then show ?case by (simp add: scan_fuel_def)
next
  case (Suc n)
  let ?scan = "\<lambda>payload inp. map_option fst (scan_list n inp (remoteScriptTokens payload) [] False inp False False)"
  let ?goal = "\<lambda>r. \<exists>flow rest. r = Some (flow, rest) \<and> suffix rest toks"
  have scans: "\<exists>flow. ?scan payload inp = Some flow" if "length payload + 3 \<le> fields_weight fs" for payload inp
    using Suc.IH [of "[]" "remoteScriptTokens payload"] scan_fuel_payload [OF _ Suc.prems, of payload] that by force
  obtain flow where flow: "remoteScriptCommand ?scan fs pipeInput groupOutput = Some flow"
    using remoteScriptCommand_total [of fs ?scan pipeInput groupOutput, OF scans] by blast
  show ?case
  proof (cases toks)
    case Nil
    with flow show ?thesis by simp
  next
    case (Cons tok rest)
    have step: "\<exists>flow rest'. scan_list n i ts fs' g p a r = Some (flow, rest') \<and> suffix rest' ts"
      if "suffix ts rest" "fields_weight fs' + word_weight ts \<le> fields_weight fs + word_weight toks" for i ts fs' g p a r
    proof (rule Suc.IH)
      let ?w = "fields_weight fs' + word_weight ts" and ?v = "fields_weight fs + word_weight toks"
      have "length ts \<le> length rest" using that(1) by (rule suffix_length_le)
      moreover have "?w * (?w + 1) \<le> ?v * (?v + 1)" using that(2) by (intro mult_le_mono) auto
      ultimately show "scan_fuel ?w (length ts) \<le> n"
        using Suc.prems Cons unfolding scan_fuel_def by simp
    qed
    have ext: "suffix ts rest \<Longrightarrow> suffix ts toks" for ts using Cons by (simp add: suffix_ConsI)
    show ?thesis
    proof (cases tok)
      case (Word w)
      with Cons step [of rest "fs @ [w]" input groupOutput pipeInput False result] ext
      show ?thesis by fastforce
    next
      case (Operator sym)
      have w: "word_weight toks = word_weight rest" using Cons Operator by simp
      have same: "?goal (scan_list n i rest fs' g p a r)" if "fs' = fs \<or> fs' = []" for i fs' g p a r
        using step [of rest fs' i g p a r] w ext that by auto
      obtain grp rest' where grp: "scan_list n pipeInput rest [] False pipeInput False False = Some (grp, rest')" "suffix rest' rest"
        using step [of rest "[]" pipeInput False pipeInput False False] w by auto
      have group: "?goal (scan_list n i rest' fs g p a r)" for i g p a r
        using step [of rest' fs i g p a r] grp(2) w word_weight_suffix [OF grp(2)] ext suffix_order.trans
        by (metis add_le_mono le_refl)
      have now: "?goal (Some (f, rest))" "?goal (Some (f, rest'))" for f
        using grp(2) ext by auto
      show ?thesis
        using same [of fs] same [of "[]"] group now
        by (simp add: Cons [unfolded Operator] flow grp(1) Let_def) blast
    qed
  qed
qed

lemma scan_text_total: "\<exists>flow. scan_text command input = Some flow"
proof -
  let ?toks = "remoteScriptTokens command"
  obtain flow rest where "scan_list (scan_fuel (word_weight ?toks) (length ?toks)) input ?toks [] False input False False = Some (flow, rest)"
    using scan_list_enough [of "[]" ?toks _ input False input False False] by fastforce
  then show ?thesis by (simp add: scan_text_def Let_def)
qed

section \<open>What the scan reports\<close>

text \<open>The words a command text mentions, through joined payloads at any depth.\<close>

definition words :: "remoteScriptToken list \<Rightarrow> string set" where
  "words toks = {w. Word w \<in> set toks}"

inductive mentions :: "string set \<Rightarrow> string \<Rightarrow> bool" where
  here: "w \<in> ws \<Longrightarrow> mentions ws w"
| payload: "set xs \<subseteq> ws \<Longrightarrow> mentions (words (remoteScriptTokens (Join xs '' ''))) w \<Longrightarrow> mentions ws w"

definition quiet :: "string set \<Rightarrow> bool" where
  "quiet ws \<longleftrightarrow> (\<forall>w. mentions ws w \<longrightarrow> executableBase w \<notin> set downloaders)"

lemma mentions_mono: "mentions ws w \<Longrightarrow> ws \<subseteq> vs \<Longrightarrow> mentions vs w"
  by (induction rule: mentions.induct) (auto intro: mentions.intros)

lemma quiet_mono: "quiet vs \<Longrightarrow> ws \<subseteq> vs \<Longrightarrow> quiet ws"
  unfolding quiet_def using mentions_mono by blast

lemma quiet_payload: "quiet ws \<Longrightarrow> set xs \<subseteq> ws \<Longrightarrow> quiet (words (remoteScriptTokens (Join xs '' '')))"
  unfolding quiet_def using mentions.payload by blast

lemma words_simps [simp]:
  "words [] = {}" "words (Word w # toks) = insert w (words toks)" "words (Operator op # toks) = words toks"
  by (auto simp: words_def)

lemma words_suffix: "suffix xs ys \<Longrightarrow> words xs \<subseteq> words ys"
  by (auto simp: words_def suffix_def)

definition silent :: "remoteScriptFlow \<Rightarrow> bool" where
  "silent flow \<longleftrightarrow> \<not> download flow \<and> \<not> execution flow"

lemma silent_flow_of [simp]: "silent (flow_of d e) \<longleftrightarrow> \<not> d \<and> \<not> e"
  by (simp add: silent_def flow_of_def)

lemma flow_of_sel [simp]: "download (flow_of d e) = d" "execution (flow_of d e) = e"
  by (simp_all add: flow_of_def)

lemma remoteScriptCommand_quiet:
  assumes "quiet (set fs)" and "remoteScriptCommand scan fs False False = Some flow"
    and "\<And>xs flow. set xs \<subseteq> set fs \<Longrightarrow> scan (Join xs '' '') False = Some flow \<Longrightarrow> silent flow"
  shows "silent flow"
proof -
  let ?fs = "dropWhile (\<lambda>w. w \<in> set command_prefix_words) fs"
  have sub: "set ?fs \<subseteq> set fs" using set_dropWhileD by fastforce
  show ?thesis
  proof (cases "commandStartIndexInSegment ?fs 0")
    case None
    then show ?thesis using assms(2) by (auto simp: remoteScriptCommand_def)
  next
    case index: (Some index)
    have "?fs ! index \<in> set fs"
      using segment_start_bounds [of ?fs False 0 index] index sub by (auto simp: commandStartIndexInSegment_def)
    then have name: "executableBase (?fs ! index) \<notin> set downloaders"
      using assms(1) mentions.here unfolding quiet_def by blast
    show ?thesis
    proof (cases "shellPayloadStart ?fs index")
      case None
      with index name assms(2) show ?thesis by (auto simp: remoteScriptCommand_def Let_def split: if_splits)
    next
      case (Some start)
      let ?b = "executableBase (?fs ! index) \<in> set joins_payload"
      let ?payload = "if ?b then Join (drop start ?fs) '' '' else ?fs ! start"
      show ?thesis
      proof (cases "start < length ?fs \<and> ?fs ! start \<noteq> ''-''")
        case True
        have "set (drop start ?fs) \<subseteq> set fs" "set [?fs ! start] \<subseteq> set fs"
          using True sub set_drop_subset [of start ?fs] by auto
        then have inner: "scan ?payload False = Some inner \<Longrightarrow> silent inner" for inner
          using assms(3) [of "drop start ?fs" inner] assms(3) [of "[?fs ! start]" inner] by (cases ?b) simp_all
        from True index Some assms(2) obtain inner where
          "scan ?payload False = Some inner" "flow = flow_of (download inner) (execution inner)"
          by (auto simp: remoteScriptCommand_def Let_def split: option.splits)
        with inner [of inner] show ?thesis by (simp add: silent_def)
      next
        case False
        with index Some name assms(2) show ?thesis
          by (auto simp: remoteScriptCommand_def Let_def split: if_splits)
      qed
    qed
  qed
qed


lemma scan_list_quiet:
  assumes "quiet (set fs \<union> words toks)"
    and "scan_list n False toks fs False False afterPipe False = Some (flow, rest)"
  shows "silent flow \<and> words rest \<subseteq> words toks"
  using assms
proof (induction n arbitrary: toks fs afterPipe flow rest)
  case 0
  then show ?case by simp
next
  case (Suc n)
  let ?scan = "\<lambda>payload inp. map_option fst (scan_list n inp (remoteScriptTokens payload) [] False inp False False)"
  have cmd: "silent f" if "remoteScriptCommand ?scan fs False False = Some f" for f
  proof (rule remoteScriptCommand_quiet [OF _ that])
    show "quiet (set fs)" using Suc.prems(1) quiet_mono by blast
    show "silent g" if "set xs \<subseteq> set fs" "?scan (Join xs '' '') False = Some g" for xs g
      using Suc.IH [of "[]" "remoteScriptTokens (Join xs '' '')"] quiet_payload [OF \<open>quiet (set fs)\<close> that(1)] that(2)
      by auto
  qed
  show ?case
  proof (cases toks)
    case Nil
    with Suc.prems(2) cmd show ?thesis by (auto simp: silent_def)
  next
    case (Cons tok ts)
    show ?thesis
    proof (cases tok)
      case (Word w)
      with Cons Suc.prems Suc.IH [of "fs @ [w]" ts False] show ?thesis by auto
    next
      case (Operator sym)
      have q: "quiet (set fs \<union> words ts)" "quiet (words ts)"
        using Suc.prems(1) Cons Operator quiet_mono by auto
      have again: "silent f \<and> words r \<subseteq> words ts"
        if "scan_list n False ts gs False False a False = Some (f, r)" "gs = fs \<or> gs = []" for gs a f r
        using Suc.IH [OF _ that(1)] q that(2) by auto
      have group: "silent f \<and> words r \<subseteq> words ts"
        if "scan_list n False ts [] False False False False = Some (grp, ts')"
          "scan_list n False ts' fs False False a False = Some (f, r)" for grp ts' a f r
        using again [OF that(1)] Suc.IH [OF _ that(2)] q(1) quiet_mono by (metis Un_mono subset_refl dual_order.trans)
      note run = Suc.prems(2) [unfolded Cons Operator scan_list.simps Let_def list.case remoteScriptToken.case]
      have w: "words toks = words ts" using Cons Operator by simp
      show ?thesis
      proof (cases "sym = ''('' \<or> sym = ''{''")
        case True
        with run obtain grp ts' where grp: "scan_list n False ts [] False False False False = Some (grp, ts')"
          by (auto split: option.splits)
        with again [OF grp] have "silent grp" by simp
        with run True grp have "scan_list n False ts' fs False False False False = Some (flow, rest)"
          by (auto simp: silent_def)
        with group [OF grp] w show ?thesis by simp
      next
        case paren: False
        show ?thesis
        proof (cases "sym = ''&'' \<and> fs = [] \<or> sym = [newline] \<and> afterPipe")
          case True
          with run paren have "scan_list n False ts fs False False afterPipe False = Some (flow, rest)" by auto
          with again w show ?thesis by blast
        next
          case False
          with run paren obtain f where f: "remoteScriptCommand ?scan fs False False = Some f"
            by (auto split: option.splits)
          then have "silent f" by (rule cmd)
          then have nd: "download f = False" "execution f = False" by (simp_all add: silent_def)
          have other: "(sym = ''&'' \<and> fs = [] \<and> \<not> False) = False" "(sym = [newline] \<and> afterPipe) = False"
            "(sym = ''('' \<or> sym = ''{'') = False"
            using False paren by simp_all
          have "rest = ts \<and> flow = flow_of False False \<or>
              (\<exists>a. scan_list n False ts [] False False a False = Some (flow, rest))"
            using run unfolding other f option.case nd if_False
            by (cases "sym = ''|'' \<or> sym = ''|&''"; cases "sym = '')'' \<or> sym = ''}''") (simp_all, blast+)
          with again [of "[]"] w show ?thesis by auto
        qed
      qed
    qed
  qed
qed

lemma remoteScriptExecution_mentions:
  assumes "remoteScriptExecution command"
  shows "\<exists>w. mentions (words (remoteScriptTokens command)) w \<and> executableBase w \<in> set downloaders"
proof (rule ccontr)
  let ?toks = "remoteScriptTokens command"
  assume "\<not> ?thesis"
  then have q: "quiet (set [] \<union> words ?toks)" by (auto simp: quiet_def)
  from assms obtain flow rest where
    run: "scan_list (scan_fuel (word_weight ?toks) (length ?toks)) False ?toks [] False False False False = Some (flow, rest)"
    and "execution flow"
    by (auto simp: remoteScriptExecution_def scan_text_def Let_def split: option.splits)
  with scan_list_quiet [OF q run] show False by (simp add: silent_def)
qed

text \<open>A command of plain words whose executable is \<open>name\<close> and that hands no text to a shell.\<close>

definition simple_command :: "string list \<Rightarrow> string \<Rightarrow> bool" where
  "simple_command fields0 name =
     (let fs = dropWhile (\<lambda>w. w \<in> set command_prefix_words) fields0
      in case commandStartIndexInSegment fs 0 of
           None \<Rightarrow> False
         | Some index \<Rightarrow> executableBase (fs ! index) = name \<and> shellPayloadStart fs index = None)"

lemma simple_commandE:
  assumes "simple_command fs name"
  obtains index where "commandStartIndexInSegment (dropWhile (\<lambda>w. w \<in> set command_prefix_words) fs) 0 = Some index"
    "executableBase (dropWhile (\<lambda>w. w \<in> set command_prefix_words) fs ! index) = name"
    "shellPayloadStart (dropWhile (\<lambda>w. w \<in> set command_prefix_words) fs) index = None" "fs \<noteq> []"
proof (cases "fs = []")
  case True
  with assms show thesis by (simp add: simple_command_def commandStartIndexInSegment_def segment_start.simps)
qed (use assms that in \<open>auto simp: simple_command_def Let_def split: option.splits\<close>)

lemma simple_downloader:
  "simple_command fs name \<Longrightarrow> name \<in> set downloaders \<Longrightarrow>
   remoteScriptCommand scan fs input groupOutput = Some (flow_of True False)"
  by (elim simple_commandE) (simp add: remoteScriptCommand_def Let_def)

lemma interpreters_not_downloaders: "name \<in> set interpreters \<Longrightarrow> name \<notin> set downloaders"
  by (auto simp: interpreters_def downloaders_def)

lemma simple_interpreter:
  "simple_command fs name \<Longrightarrow> name \<in> set interpreters \<Longrightarrow>
   remoteScriptCommand scan fs input groupOutput = Some (flow_of (input \<or> groupOutput) (input \<or> groupOutput))"
  by (elim simple_commandE) (simp add: remoteScriptCommand_def Let_def interpreters_not_downloaders)

lemma scan_list_words:
  "ws \<noteq> [] \<Longrightarrow> scan_list (length ws + n) input (map Word ws @ toks) fs g p a r =
                 scan_list n input toks (fs @ ws) g p False r"
proof (induction ws arbitrary: fs a)
  case (Cons w ws)
  then show ?case by (cases "ws = []") simp_all
qed simp

lemma pipeline_detected:
  assumes "remoteScriptTokens command = map Word as @ Operator ''|'' # map Word bs"
    and "simple_command as d" "d \<in> set downloaders" "simple_command bs i" "i \<in> set interpreters"
  shows "remoteScriptExecution command"
proof -
  let ?toks = "remoteScriptTokens command"
  have ne: "as \<noteq> []" "bs \<noteq> []" using assms(2,4) simple_commandE by blast+
  define m where "m = word_weight ?toks * (word_weight ?toks + 1)"
  have fuel: "scan_fuel (word_weight ?toks) (length ?toks) = length as + Suc (length bs + Suc m)"
    by (simp add: scan_fuel_def m_def) (simp add: assms(1))
  have first: "scan_list (length as + n) False ?toks [] False False False False =
      scan_list n False (Operator ''|'' # map Word bs) as False False False False" for n
    using scan_list_words [OF ne(1)] by (simp add: assms(1))
  have rest: "scan_list (length bs + n) False (map Word bs) [] False True True False =
      scan_list n False [] bs False True False False" for n
    using scan_list_words [OF ne(2), of _ _ "[]"] by simp
  show ?thesis
    unfolding remoteScriptExecution_def scan_text_def Let_def fuel first
    by (simp add: simple_downloader [OF assms(2,3)] simple_interpreter [OF assms(4,5)] rest del: add_Suc_right)
qed

section \<open>Properties\<close>

text \<open>C21 (termination). The scan of any text returns a flow: the fuel, computed from the total
  length of the words and the number of tokens, is always enough, whatever the quoting,
  grouping and nesting of shell payloads.\<close>

theorem remote_scan_returns: "\<exists>flow. scan_text command input = Some flow"
  by (rule scan_text_total)

text \<open>A pipeline of a downloader into an interpreter that takes its script from
  the pipe is reported as remote script execution.\<close>

theorem remote_pipeline_reported:
  assumes "remoteScriptTokens command = map Word as @ Operator ''|'' # map Word bs"
    and "simple_command as d" and "d \<in> set downloaders"
    and "simple_command bs i" and "i \<in> set interpreters"
  shows "remoteScriptExecution command"
  using assms by (rule pipeline_detected)

lemma remote_pipeline_reported_witness: "remoteScriptExecution ''sudo curl -s x | bash''"
proof (rule remote_pipeline_reported)
  show "remoteScriptTokens ''sudo curl -s x | bash'' =
        map Word [''sudo'', ''curl'', ''-s'', ''x''] @ Operator ''|'' # map Word [''bash'']" by code_simp
  show "simple_command [''sudo'', ''curl'', ''-s'', ''x''] ''curl''" by code_simp
  show "''curl'' \<in> set downloaders" by code_simp
  show "simple_command [''bash''] ''bash''" by code_simp
  show "''bash'' \<in> set interpreters" by code_simp
qed

text \<open>The classifier raises no alarm without a downloader: a reported command mentions
  a word, in its own tokens or in a payload at some depth, whose executable is one of the
  downloaders.\<close>

theorem remote_report_mentions_downloader:
  assumes "remoteScriptExecution command"
  shows "\<exists>w. mentions (words (remoteScriptTokens command)) w \<and> executableBase w \<in> set downloaders"
  using assms by (rule remoteScriptExecution_mentions)

lemma remote_report_mentions_downloader_witness:
  "remoteScriptExecution ''wget -O- x | sh'' \<and>
   (\<exists>w. mentions (words (remoteScriptTokens ''wget -O- x | sh'')) w \<and> executableBase w \<in> set downloaders)"
proof -
  have "remoteScriptExecution ''wget -O- x | sh''" by code_simp
  from this remote_report_mentions_downloader [OF this] show ?thesis by (rule conjI)
qed

end
