(* ===== verification/Command_Policy.thy ===== *)
theory Command_Policy
  imports Filesystem_Policy Git_Policy Remote_Script
begin

text \<open>
  Classification of commands, \<open>agent-sdk/policy/presets/command_policy.go\<close> and
  \<open>command_sandbox_permissions.go\<close> on a Unix build, with the permission names of
  \<open>agent-sdk/tool/errors.go\<close>: the machine-level hard denials, the reasons that need an
  approval, and the route of an escalated request.
\<close>

section \<open>Sandbox permissions of a call\<close>

abbreviation "PermissionUseDefault \<equiv> ''use_default''"
abbreviation "PermissionRequireEscalated \<equiv> ''require_escalated''"
abbreviation "PermissionLegacyAdditional \<equiv> ''with_additional_permissions''"

definition CommandSandboxPermissionAllowedValues :: "bool \<Rightarrow> string" where
  "CommandSandboxPermissionAllowedValues allowLegacy =
     (if allowLegacy
      then PermissionUseDefault @ '', '' @ PermissionRequireEscalated @ '', or '' @ PermissionLegacyAdditional
      else PermissionUseDefault @ '' or '' @ PermissionRequireEscalated)"

definition NormalizeCommandSandboxPermission :: "string \<Rightarrow> bool \<Rightarrow> string policy_result" where
  "NormalizeCommandSandboxPermission value allowLegacy =
     (let t = ToLower (TrimSpace value)
      in if t = [] \<or> t = PermissionUseDefault then Inr PermissionUseDefault
         else if t = PermissionRequireEscalated then Inr PermissionRequireEscalated
         else if t = PermissionLegacyAdditional \<and> allowLegacy then Inr PermissionUseDefault
         else Inl (ArgumentError (''arg '' @ [dquote] @ ''sandbox_permissions'' @ [dquote] @ '' must be '' @
                                  CommandSandboxPermissionAllowedValues allowLegacy)))"

record commandSandboxRequest =
  rqSandboxPermissions :: string
  rqJustification :: string

definition explicitEscalationDenyReason :: "commandSandboxRequest \<Rightarrow> string" where
  "explicitEscalationDenyReason r =
     (if rqSandboxPermissions r \<noteq> PermissionRequireEscalated then []
      else if rqJustification r \<noteq> [] then []
      else ''require_escalated requires justification: state the command intent, why sandbox/default permissions are insufficient, and how it serves the user task'')"

text \<open>\<open>raw, ok := args[key]; ok && raw != nil\<close>.\<close>

definition arg_present :: "json_map \<Rightarrow> string \<Rightarrow> json option" where
  "arg_present args key = (case map_of args key of Some JNull \<Rightarrow> None | v \<Rightarrow> v)"

definition parse_justification :: "json_map \<Rightarrow> commandSandboxRequest \<Rightarrow> commandSandboxRequest policy_result" where
  "parse_justification args req =
     (case arg_present args ''justification'' of
        None \<Rightarrow> Inr req
      | Some (JString value) \<Rightarrow> Inr (req\<lparr>rqJustification := TrimSpace value\<rparr>)
      | Some _ \<Rightarrow> Inl (ArgumentError ''justification must be a string''))"

definition parseCommandSandboxRequest :: "ToolContext \<Rightarrow> commandSandboxRequest policy_result" where
  "parseCommandSandboxRequest input =
     (case CallArgs input of
        Inl e \<Rightarrow> Inl e
      | Inr args \<Rightarrow>
          let req = \<lparr>rqSandboxPermissions = PermissionUseDefault, rqJustification = []\<rparr>
          in case arg_present args ''sandbox_permissions'' of
               None \<Rightarrow> parse_justification args req
             | Some (JString value) \<Rightarrow>
                 (case NormalizeCommandSandboxPermission value True of
                    Inl e \<Rightarrow> Inl e
                  | Inr permission \<Rightarrow> parse_justification args (req\<lparr>rqSandboxPermissions := permission\<rparr>))
             | Some _ \<Rightarrow> Inl (ArgumentError ''sandbox_permissions must be a string''))"

definition approvalMetadata :: "commandSandboxRequest \<Rightarrow> string \<Rightarrow> (string \<times> meta_value) list" where
  "approvalMetadata r reason =
     [(''approval_reason'', MetaText (TrimSpace reason)), (''sandbox_permissions'', MetaText (rqSandboxPermissions r))] @
     (if rqJustification r \<noteq> [] then [(''justification'', MetaText (rqJustification r))] else [])"

section \<open>Deletion targets\<close>

definition commandSegmentPathOperands :: "string list \<Rightarrow> string list" where
  "commandSegmentPathOperands fs =
     filter (\<lambda>token. \<not> (HasPrefix token ''-'' \<or> HasPrefix token ''/''))
       (takeWhile (\<lambda>token. \<not> (token = [] \<or> isShellCommandSeparator token)) (map trimShellToken fs))"

definition windowsRecursiveDeleteTargets :: "string \<Rightarrow> string list" where
  "windowsRecursiveDeleteTargets command =
     (let fs = shellishFields command
      in concat (map (\<lambda>i. if isRecursiveWindowsDelete (fs ! i) (drop (i + 1) fs)
                          then commandSegmentPathOperands (drop (i + 1) fs) else [])
                (commandStartIndexes fs)))"

definition rawRecursiveDeleteTargets :: "string \<Rightarrow> string list" where
  "rawRecursiveDeleteTargets command = recursiveRemoveTargets command @ windowsRecursiveDeleteTargets command"

definition expandDeleteTarget :: "os_env \<Rightarrow> string \<Rightarrow> string" where
  "expandDeleteTarget os value0 =
     (let value = TrimSpace value0
      in if value = [] then []
         else case UserHomeDir os of
                None \<Rightarrow> value
              | Some home \<Rightarrow>
                  if home = [] then value
                  else if value = ''~'' then home
                  else if HasPrefix value ''~/'' then filepath_Join [home, drop 2 value]
                  else if EqualFold value ''$home'' \<or> EqualFold value ''%userprofile%'' then home
                  else if HasPrefix (ToLower value) ''$home/'' then filepath_Join [home, drop 6 value]
                  else if HasPrefix (ToLower value) ''%userprofile%/'' then filepath_Join [home, drop 14 value]
                  else value)"

definition recursiveDeleteTargets :: "os_env \<Rightarrow> string \<Rightarrow> ModeOptions \<Rightarrow> string list" where
  "recursiveDeleteTargets os command opts =
     filter (\<lambda>p. p \<noteq> [])
       (map (\<lambda>one. resolvePolicyPath os (expandDeleteTarget os one) (moWorkspaceRoot opts))
            (rawRecursiveDeleteTargets command))"

definition catastrophicSystemRoots :: "string list" where
  "catastrophicSystemRoots =
     [''/bin'', ''/sbin'', ''/usr'', ''/etc'', ''/var'', ''/boot'', ''/dev'', ''/proc'', ''/sys'', ''/System'', ''/Library'']"

definition isCatastrophicDeleteTarget :: "os_env \<Rightarrow> string \<Rightarrow> ModeOptions \<Rightarrow> bool" where
  "isCatastrophicDeleteTarget os target0 opts =
     (let target = normalizeTarget (expandDeleteTarget os target0)
      in if target = [] then False
         else if withinAnyRoot target (writableRoots opts) then False
         else if target = [slash] then True
         else if (case UserHomeDir os of
                    None \<Rightarrow> False
                  | Some h \<Rightarrow> h \<noteq> [] \<and> (let home = normalizeTarget h
                                        in target = home \<or> target = normalizeTarget (filepath_Dir home)))
           then True
         else list_ex (\<lambda>root. target = normalizeTarget root) catastrophicSystemRoots)"

definition catastrophicRecursiveDeleteReason :: "os_env \<Rightarrow> string \<Rightarrow> ModeOptions \<Rightarrow> string" where
  "catastrophicRecursiveDeleteReason os command opts =
     (if \<not> commandContainsRecursiveDelete command then []
      else if list_ex (\<lambda>t. isCatastrophicDeleteTarget os t opts) (rawRecursiveDeleteTargets command) \<or>
              list_ex (\<lambda>t. isCatastrophicDeleteTarget os t opts) (recursiveDeleteTargets os command opts)
        then ''recursive filesystem delete of a system or home root is blocked''
      else [])"

definition outOfRootsRecursiveDeleteReason :: "os_env \<Rightarrow> string \<Rightarrow> ModeOptions \<Rightarrow> string" where
  "outOfRootsRecursiveDeleteReason os command opts =
     (if \<not> commandContainsRecursiveDelete command then []
      else let targets = recursiveDeleteTargets os command opts
           in if targets = [] then ''recursive filesystem delete has unresolved targets''
              else if list_ex (\<lambda>t. \<not> isCatastrophicDeleteTarget os t opts \<and> \<not> withinAnyRoot t (writableRoots opts)) targets
                then ''recursive filesystem delete targets paths outside allowed roots''
              else [])"

section \<open>Classification\<close>

abbreviation "riskClassMachine \<equiv> ''machine''"
abbreviation "riskClassVCSDestructive \<equiv> ''vcs_destructive''"
abbreviation "riskClassHostExec \<equiv> ''host_exec''"
abbreviation "riskClassRemoteScript \<equiv> ''remote_script''"

record commandClass =
  ccAction :: Action
  ccReason :: string
  ccRiskClass :: string
  ccConstraints :: Constraints

definition no_class :: commandClass where
  "no_class = \<lparr>ccAction = [], ccReason = [], ccRiskClass = [], ccConstraints = no_constraints\<rparr>"

definition deny_class :: "string \<Rightarrow> string \<Rightarrow> commandClass" where
  "deny_class reason risk = \<lparr>ccAction = ActionDeny, ccReason = reason, ccRiskClass = risk, ccConstraints = no_constraints\<rparr>"

definition commandLooksLikeDeviceWipe :: "string \<Rightarrow> bool" where
  "commandLooksLikeDeviceWipe compact =
     (if Contains compact ''mkfs'' \<or> Contains compact ''diskpart'' then True
      else if Contains compact ''cipher/w'' \<or> Contains compact ''cipher/w:'' then True
      else if \<not> Contains compact ''dd'' then False
      else Contains compact ''of=/dev/'' \<or> Contains compact (''of='' @ [backslash, backslash, CHR ''.'', backslash]))"

definition compact_text :: "string \<Rightarrow> string" where
  "compact_text command = ToLower (Join (Fields (TrimSpace command)) [])"

definition classifyMachineHardDeny :: "os_env \<Rightarrow> string \<Rightarrow> ModeOptions \<Rightarrow> commandClass" where
  "classifyMachineHardDeny os command opts =
     (let compact = compact_text command
      in if compact = [] then no_class
         else if Contains compact '':(){'' then deny_class ''dangerous shell command is blocked'' riskClassMachine
         else if Contains compact ''yes>/dev/null'' then deny_class ''dangerous shell command is blocked'' riskClassMachine
         else if Contains compact ''/dev/tcp/'' then deny_class ''dangerous network shell command is blocked'' riskClassMachine
         else if commandLooksLikeDeviceWipe compact then deny_class ''device or filesystem wipe command is blocked'' riskClassMachine
         else let reason = catastrophicRecursiveDeleteReason os command opts
              in if reason \<noteq> [] then deny_class reason riskClassMachine else no_class)"

fun first_class :: "(string \<Rightarrow> commandClass) \<Rightarrow> string list \<Rightarrow> commandClass" where
  "first_class classify [] = no_class"
| "first_class classify (c # cs) = (if ccAction (classify c) \<noteq> [] then classify c else first_class classify cs)"

definition scanCommandTree :: "string \<Rightarrow> (string \<Rightarrow> commandClass) \<Rightarrow> commandClass" where
  "scanCommandTree command classify = first_class classify (command # shellCommandPayloads command)"

definition commandHostApprovalRequired :: "commandSandboxRequest \<Rightarrow> Descriptor \<Rightarrow> bool" where
  "commandHostApprovalRequired req desc \<longleftrightarrow>
     rqSandboxPermissions req = PermissionRequireEscalated \<or> DescriptorImpliesHostExecution desc"

definition approvalGatedCommand ::
  "os_env \<Rightarrow> string \<Rightarrow> string \<Rightarrow> commandSandboxRequest \<Rightarrow> Descriptor \<Rightarrow> ModeOptions \<Rightarrow> commandClass option" where
  "approvalGatedCommand os reason riskClass req desc opts =
     (let hostExecution = commandHostApprovalRequired req desc
      in if reason = [] \<and> \<not> hostExecution then None
         else if hostExecution then
           (let denyReason = explicitEscalationDenyReason req
            in if denyReason \<noteq> [] then Some (deny_class denyReason riskClassHostExec)
               else Some \<lparr>ccAction = ActionAskApproval,
                          ccReason = (if reason = [] then ''host execution requested'' else reason),
                          ccRiskClass = (if riskClass = [] then riskClassHostExec else riskClass),
                          ccConstraints = hostExecutionConstraints\<rparr>)
         else Some \<lparr>ccAction = ActionAskApproval, ccReason = reason, ccRiskClass = riskClass,
                    ccConstraints = workspaceWriteConstraints os opts\<rparr>)"

text \<open>The reason and risk class that ask for an approval, both empty when nothing does.\<close>

definition approval_reason :: "os_env \<Rightarrow> string \<Rightarrow> ModeOptions \<Rightarrow> string \<times> string" where
  "approval_reason os command opts =
     (let gitReason = gitCommandApprovalReason command;
          pathReason = outOfRootsRecursiveDeleteReason os command opts;
          base = (if gitReason \<noteq> [] then (gitReason, riskClassVCSDestructive)
                  else if pathReason \<noteq> [] then (pathReason, riskClassPathEscape)
                  else ([], []))
      in if remoteScriptExecution command
         then (''remote script execution requires approval'', riskClassRemoteScript) else base)"

definition classifyRUNCommand ::
  "os_env \<Rightarrow> string \<Rightarrow> ModeOptions \<Rightarrow> commandSandboxRequest \<Rightarrow> Descriptor \<Rightarrow> commandClass" where
  "classifyRUNCommand os command opts req desc =
     (let cls = scanCommandTree command (\<lambda>c. classifyMachineHardDeny os c opts)
      in if ccAction cls = ActionDeny then cls
         else case approval_reason os command opts of (reason, riskClass) \<Rightarrow>
           (case approvalGatedCommand os reason riskClass req desc opts of
              Some gated \<Rightarrow> gated
            | None \<Rightarrow> no_class))"

section \<open>Decision\<close>

definition commandArg :: "ToolContext \<Rightarrow> string policy_result" where
  "commandArg input =
     (case CallArgs input of Inl e \<Rightarrow> Inl e | Inr args \<Rightarrow> Inr (TrimSpace (json_string args ''command'')))"

definition askCommandApproval ::
  "ToolContext \<Rightarrow> commandSandboxRequest \<Rightarrow> commandClass \<Rightarrow> Decision policy_result" where
  "askCommandApproval input req cls =
     (let reason = TrimSpace (ccReason cls);
          reason = (if reason = [] then ''host execution requires approval'' else reason);
          risk = TrimSpace (ccRiskClass cls)
      in case askApproval reason (ccConstraints cls) input of
           Inl e \<Rightarrow> Inl e
         | Inr decision \<Rightarrow>
             let m = fold (\<lambda>(k, v). meta_put k v) (approvalMetadata req reason) (dMetadata decision)
             in Inr (decision\<lparr>dMetadata := meta_put ''risk_class''
                               (MetaText (if risk \<noteq> [] then risk else riskClassHostExec)) m\<rparr>))"

definition decideCommand :: "os_env \<Rightarrow> ToolContext \<Rightarrow> Constraints \<Rightarrow> Decision policy_result" where
  "decideCommand os input def =
     (case commandArg input of
        Inl e \<Rightarrow> Inl e
      | Inr command \<Rightarrow>
          (case parseCommandSandboxRequest input of
             Inl e \<Rightarrow> Inr (deny (error_text e))
           | Inr req \<Rightarrow>
               let cls = classifyRUNCommand os command (tcOptions input) req (tcSandbox input)
               in if ccAction cls = ActionDeny then Inr (deny (ccReason cls))
                  else if ccAction cls = ActionAskApproval then askCommandApproval input req cls
                  else Inr (allow def)))"

end
