(* ===== verification/Policy_Presets.thy ===== *)
theory Policy_Presets
  imports Command_Policy
begin

text \<open>
  The modes of \<open>agent-sdk/policy/presets/presets.go\<close> and their registry, the effective
  sandbox policy of \<open>sandbox_policy.go\<close>, and what the workspace-write mode guarantees: host
  execution only behind an approval, hard denials whatever the permissions say, and an
  approval for every destructive Git command, remote script and out-of-root deletion that
  the scanners recognise.
\<close>

section \<open>Modes\<close>

abbreviation "ModeWorkspaceWrite \<equiv> ProfileWorkspaceWrite"
abbreviation "ModeDangerFullAccess \<equiv> ''danger-full-access''"
abbreviation "ModeAutoReview \<equiv> ''auto-review''"
abbreviation "ModeManual \<equiv> ''manual''"

definition NormalizeModeName :: "string \<Rightarrow> string" where
  "NormalizeModeName mode =
     (let normalized = NormalizeProfileName mode
      in if TrimSpace normalized = [] then ModeWorkspaceWrite else normalized)"

definition workspace_decide :: "os_env \<Rightarrow> ToolContext \<Rightarrow> Decision policy_result" where
  "workspace_decide os input =
     (let def = workspaceWriteConstraints os (tcOptions input)
      in case policyClass input of
           PolicyReadPath \<Rightarrow> (case ensureReadPathsOutsideDefaultHiddenRoots os input of
                                Inl e \<Rightarrow> policyErrorOrDeny e | Inr _ \<Rightarrow> Inr (allow def))
         | PolicySearchPath \<Rightarrow> (case ensureReadPathsOutsideDefaultHiddenRoots os input of
                                Inl e \<Rightarrow> policyErrorOrDeny e | Inr _ \<Rightarrow> Inr (allow def))
         | PolicyGlobPath \<Rightarrow> (case ensureReadPathsOutsideDefaultHiddenRoots os input of
                                Inl e \<Rightarrow> policyErrorOrDeny e | Inr _ \<Rightarrow> Inr (allow def))
         | PolicyWritePath \<Rightarrow> decideFilesystemWrite os input def
         | PolicyCommand \<Rightarrow> decideCommand os input def
         | PolicyUnknown \<Rightarrow> Inr (allow def))"

definition WorkspaceWriteMode :: "os_env \<Rightarrow> NamedMode" where
  "WorkspaceWriteMode os = \<lparr>nmID = ModeWorkspaceWrite, nmDecide = Some (workspace_decide os)\<rparr>"

definition workspaceWriteAliasMode :: "os_env \<Rightarrow> string \<Rightarrow> NamedMode" where
  "workspaceWriteAliasMode os name =
     \<lparr>nmID = TrimSpace name, nmDecide = Some (DecideTool (WorkspaceWriteMode os))\<rparr>"

definition DangerFullAccessMode :: NamedMode where
  "DangerFullAccessMode =
     \<lparr>nmID = ModeDangerFullAccess, nmDecide = Some (\<lambda>_. Inr (allow hostExecutionConstraints))\<rparr>"

definition NewRegistry :: "os_env \<Rightarrow> registry_error + MemoryRegistry" where
  "NewRegistry os =
     NewMemory [WorkspaceWriteMode os, workspaceWriteAliasMode os ModeAutoReview, workspaceWriteAliasMode os ModeManual]"

definition EffectiveSandboxPolicy ::
  "os_env \<Rightarrow> string \<Rightarrow> Config \<Rightarrow> Descriptor \<Rightarrow> ModeOptions \<Rightarrow> PolicySnapshot" where
  "EffectiveSandboxPolicy os profile cfg descriptor options =
     (let constraints = (if NormalizeModeName profile = ModeDangerFullAccess \<or> DescriptorImpliesHostExecution descriptor
                         then hostExecutionConstraints else workspaceWriteConstraints os options);
          effective = Default cfg constraints;
          snapshot = \<lparr>sRoute = cRoute constraints, sBackend = dBackend descriptor, sPermission = cPermission constraints,
                      sIsolation = dIsolation descriptor, sNetwork = cNetwork constraints,
                      sWritableRoots = pWritableRoots effective, sReadOnlySubpaths = pReadOnlySubpaths effective\<rparr>;
          snapshot = (if sBackend snapshot = [] then snapshot\<lparr>sBackend := cBackend constraints\<rparr> else snapshot);
          snapshot = (if sIsolation snapshot = [] then snapshot\<lparr>sIsolation := cIsolation constraints\<rparr> else snapshot);
          snapshot = (if sRoute snapshot = RouteHost
                      then snapshot\<lparr>sBackend := BackendHost, sIsolation := IsolationHost, sNetwork := NetworkInherit\<rparr>
                      else snapshot)
      in ClonePolicySnapshot snapshot)"

section \<open>Decisions of the workspace-write mode\<close>

text \<open>A small vocabulary for the proofs: the decisions a preset can produce.\<close>

lemma workspace_not_host: "\<not> ConstraintsRequestExplicitHost (workspaceWriteConstraints os opts)"
  by (simp add: ConstraintsRequestExplicitHost_def NormalizeConstraints_def workspaceWriteConstraints_def
      go_simps)

lemma no_constraints_not_host: "\<not> ConstraintsRequestExplicitHost no_constraints"
  by (simp add: ConstraintsRequestExplicitHost_def NormalizeConstraints_def no_constraints_def)

lemma grants_not_host:
  "ConstraintsRequestExplicitHost (withPathWriteGrants base paths) = ConstraintsRequestExplicitHost base"
  by (simp add: ConstraintsRequestExplicitHost_def NormalizeConstraints_def withPathWriteGrants_def Let_def)

text \<open>A decision either stays in the sandbox or asks.\<close>

definition guarded :: "Decision \<Rightarrow> bool" where
  "guarded d \<longleftrightarrow> (ConstraintsRequestExplicitHost (dConstraints d) \<longrightarrow> dAction d = ActionAskApproval)"

lemma guarded_simps [simp]:
  "guarded (deny reason)" "guarded (allow (workspaceWriteConstraints os opts))"
  by (simp_all add: guarded_def deny_def allow_def no_constraints_not_host workspace_not_host)

lemma askApproval_guarded: "askApproval reason c input = Inr d \<Longrightarrow> dAction d = ActionAskApproval \<and> dConstraints d = c"
  by (auto simp: askApproval_def split: sum.splits)

lemma askCommandApproval_ask:
  "askCommandApproval input req cls = Inr d \<Longrightarrow> dAction d = ActionAskApproval \<and> dConstraints d = ccConstraints cls"
  by (auto simp: askCommandApproval_def Let_def dest: askApproval_guarded split: sum.splits)

lemma policyErrorOrDeny_deny: "policyErrorOrDeny e = Inr d \<Longrightarrow> d = deny (error_text e)"
  by (cases e) auto

lemma ask_guarded: "dAction d = ActionAskApproval \<Longrightarrow> guarded d"
  by (simp add: guarded_def)

lemma decideCommand_guarded:
  "decideCommand os input (workspaceWriteConstraints os opts) = Inr d \<Longrightarrow> guarded d"
  by (auto simp: decideCommand_def Let_def dest!: askCommandApproval_ask intro: ask_guarded
      split: sum.splits if_splits)

lemma decideFilesystemWrite_guarded:
  "decideFilesystemWrite os input (workspaceWriteConstraints os opts) = Inr d \<Longrightarrow> guarded d"
  by (auto simp: decideFilesystemWrite_def askPathWriteApproval_def Let_def
      dest!: askApproval_guarded policyErrorOrDeny_deny intro: ask_guarded split: sum.splits)

lemma workspace_decide_guarded: "workspace_decide os input = Inr d \<Longrightarrow> guarded d"
  by (auto simp: workspace_decide_def Let_def dest!: policyErrorOrDeny_deny
      intro: decideCommand_guarded decideFilesystemWrite_guarded
      split: builtinPolicyClass.splits sum.splits)

lemma CloneDecision_guarded: "guarded d \<Longrightarrow> guarded (CloneDecision d)"
  by (auto simp: guarded_def CloneDecision_def go_simps)

lemma DecideTool_guarded:
  assumes "nmDecide m = Some f" and "\<And>i e. f i = Inr e \<Longrightarrow> guarded e" and "DecideTool m input = Inr d"
  shows "guarded d"
proof -
  from assms(1,3) obtain e where e: "f (CloneToolContext input) = Inr e" "NormalizeDecision (mode_name m) e = Inr d"
    by (auto simp: DecideTool_def split: sum.splits)
  with assms(2) NormalizeDecision_ok [OF e(2)] CloneDecision_guarded show ?thesis by blast
qed

lemma WorkspaceWriteMode_guarded: "DecideTool (WorkspaceWriteMode os) input = Inr d \<Longrightarrow> guarded d"
  by (rule DecideTool_guarded [of _ "workspace_decide os"])
    (simp_all add: WorkspaceWriteMode_def workspace_decide_guarded)

lemma alias_guarded: "DecideTool (workspaceWriteAliasMode os name) input = Inr d \<Longrightarrow> guarded d"
  by (rule DecideTool_guarded [of _ "DecideTool (WorkspaceWriteMode os)"])
    (simp_all add: workspaceWriteAliasMode_def WorkspaceWriteMode_guarded)

section \<open>Command classification\<close>

lemma first_class_none: "ccAction (first_class f cs) = [] \<longleftrightarrow> (\<forall>c \<in> set cs. ccAction (f c) = [])"
  by (induction cs) (auto simp: no_class_def)

lemma first_class_cases: "first_class f cs = no_class \<or> (\<exists>c \<in> set cs. first_class f cs = f c \<and> ccAction (f c) \<noteq> [])"
  by (induction cs) auto

lemma hard_deny_action:
  "classifyMachineHardDeny os c opts = no_class \<or> ccAction (classifyMachineHardDeny os c opts) = ActionDeny"
  by (simp add: classifyMachineHardDeny_def Let_def deny_class_def)

text \<open>The text of the command and of the payloads it hands to a shell.\<close>

definition hard_denied :: "os_env \<Rightarrow> string \<Rightarrow> ModeOptions \<Rightarrow> bool" where
  "hard_denied os command opts \<longleftrightarrow>
     (\<exists>c \<in> set (command # shellCommandPayloads command). ccAction (classifyMachineHardDeny os c opts) = ActionDeny)"

lemma scan_hard_denied:
  "ccAction (scanCommandTree command (\<lambda>c. classifyMachineHardDeny os c opts)) =
   (if hard_denied os command opts then ActionDeny else [])"
proof -
  let ?f = "\<lambda>c. classifyMachineHardDeny os c opts" and ?cs = "command # shellCommandPayloads command"
  have act: "ccAction (?f c) = [] \<or> ccAction (?f c) = ActionDeny" for c
    using hard_deny_action [of os c opts] by (auto simp: no_class_def)
  have "ccAction (first_class ?f ?cs) = [] \<longleftrightarrow> \<not> hard_denied os command opts"
    unfolding first_class_none hard_denied_def using act by fastforce
  moreover have "ccAction (first_class ?f ?cs) = [] \<or> ccAction (first_class ?f ?cs) = ActionDeny"
    using first_class_cases [of ?f ?cs] act by (metis (no_types, lifting) commandClass.select_convs(1) no_class_def)
  ultimately show ?thesis unfolding scanCommandTree_def by auto
qed

lemma classify_hard_denied:
  "hard_denied os command opts \<Longrightarrow> ccAction (classifyRUNCommand os command opts req desc) = ActionDeny"
  by (simp add: classifyRUNCommand_def Let_def scan_hard_denied)

lemma approval_reason_empty:
  "fst (approval_reason os command opts) = [] \<longleftrightarrow>
   gitCommandApprovalReason command = [] \<and> outOfRootsRecursiveDeleteReason os command opts = [] \<and> \<not> remoteScriptExecution command"
  by (auto simp: approval_reason_def Let_def)

lemma approvalGated_none:
  "approvalGatedCommand os reason risk req desc opts = None \<longleftrightarrow> reason = [] \<and> \<not> commandHostApprovalRequired req desc"
  by (auto simp: approvalGatedCommand_def Let_def)

lemma approvalGated_action:
  "approvalGatedCommand os reason risk req desc opts = Some cls \<Longrightarrow> ccAction cls \<in> {ActionDeny, ActionAskApproval}"
  by (auto simp: approvalGatedCommand_def Let_def deny_class_def split: if_splits)

text \<open>When the classifier lets a command through.\<close>

definition harmless_command :: "os_env \<Rightarrow> string \<Rightarrow> ModeOptions \<Rightarrow> commandSandboxRequest \<Rightarrow> Descriptor \<Rightarrow> bool" where
  "harmless_command os command opts req desc \<longleftrightarrow>
     \<not> hard_denied os command opts \<and>
     (\<forall>git. runs_git command git \<longrightarrow> classifyGitCommand git = []) \<and>
     outOfRootsRecursiveDeleteReason os command opts = [] \<and> \<not> remoteScriptExecution command \<and>
     rqSandboxPermissions req \<noteq> PermissionRequireEscalated \<and> \<not> DescriptorImpliesHostExecution desc"

lemma classify_action:
  "ccAction (classifyRUNCommand os command opts req desc) \<in> {ActionDeny, ActionAskApproval} \<or>
   classifyRUNCommand os command opts req desc = no_class"
  by (auto simp: classifyRUNCommand_def Let_def dest: approvalGated_action split: option.splits prod.splits)

lemma classify_allow:
  "ccAction (classifyRUNCommand os command opts req desc) = [] \<longleftrightarrow> harmless_command os command opts req desc"
proof -
  obtain reason risk where r: "approval_reason os command opts = (reason, risk)" by force
  have "ccAction (classifyRUNCommand os command opts req desc) = [] \<longleftrightarrow>
        \<not> hard_denied os command opts \<and> approvalGatedCommand os reason risk req desc opts = None"
    using approvalGated_action [of os reason risk req desc opts]
    by (auto simp: classifyRUNCommand_def Let_def scan_hard_denied r no_class_def split: option.splits)
  then show ?thesis
    using approval_reason_empty [of os command opts] r
    by (auto simp: approvalGated_none commandHostApprovalRequired_def harmless_command_def
        gitCommandApprovalReason_empty)
qed

lemma decideCommand_allow:
  assumes "commandArg input = Inr command" and "parseCommandSandboxRequest input = Inr req"
    and "decideCommand os input def = Inr d"
  shows "dAction d = ActionAllow \<longleftrightarrow> harmless_command os command (tcOptions input) req (tcSandbox input)"
proof -
  let ?cls = "classifyRUNCommand os command (tcOptions input) req (tcSandbox input)"
  have "dAction d = ActionAllow \<longleftrightarrow> ccAction ?cls = []"
    using assms classify_action [of os command "tcOptions input" req "tcSandbox input"]
    by (auto simp: decideCommand_def Let_def deny_def allow_def no_class_def dest!: askCommandApproval_ask split: if_splits)
  then show ?thesis by (simp add: classify_allow)
qed

lemma decideCommand_hard_deny:
  assumes "commandArg input = Inr command" and "hard_denied os command (tcOptions input)"
  shows "\<exists>d. decideCommand os input def = Inr d \<and> dAction d = ActionDeny"
  using assms classify_hard_denied by (auto simp: decideCommand_def Let_def deny_def split: sum.splits)

lemma unjustified_escalation:
  assumes "commandArg input = Inr command" and "parseCommandSandboxRequest input = Inr req"
    and "rqSandboxPermissions req = PermissionRequireEscalated" and "rqJustification req = []"
  shows "\<exists>d. decideCommand os input def = Inr d \<and> dAction d = ActionDeny"
proof -
  let ?cls = "classifyRUNCommand os command (tcOptions input) req (tcSandbox input)"
  have "ccAction ?cls = ActionDeny"
    using assms(3,4)
    by (auto simp: classifyRUNCommand_def Let_def approvalGatedCommand_def commandHostApprovalRequired_def
        explicitEscalationDenyReason_def deny_class_def split: prod.splits)
  then show ?thesis using assms by (simp add: decideCommand_def Let_def deny_def)
qed

section \<open>Properties\<close>

text \<open>Sample contexts for concrete inputs.\<close>

definition sample_options :: ModeOptions where
  "sample_options =
     \<lparr>moWorkspaceRoot = ''/work'', moTempRoot = ''/tmp'', moExtraReadRoots = [], moWritableRoots = [''/work''],
      moNetworkEnabled = None\<rparr>"

definition sample_call :: "string \<Rightarrow> json_map \<Rightarrow> ToolContext" where
  "sample_call name args =
     \<lparr>tcToolName = name, tcCommandExec = False, tcCallID = ''1'', tcCallName = name, tcInput = ObjectInput args,
      tcSandbox = \<lparr>dBackend = ''bwrap'', dIsolation = ''container'', dDefaultConstraints = no_constraints\<rparr>,
      tcSandboxPolicy = \<lparr>sRoute = [], sBackend = [], sPermission = [], sIsolation = [], sNetwork = [],
                         sWritableRoots = [], sReadOnlySubpaths = []\<rparr>,
      tcOptions = sample_options\<rparr>"

definition sample_command :: "string \<Rightarrow> ToolContext" where
  "sample_command command = sample_call RunCommandToolName [(''command'', JString command)]"

definition sample_request :: commandSandboxRequest where
  "sample_request = \<lparr>rqSandboxPermissions = PermissionUseDefault, rqJustification = []\<rparr>"

text \<open>C1 (safety). No host execution without approval: whatever tool call the workspace-write mode (or
  one of its legacy aliases) decides, a decision whose constraints leave the sandbox asks
  for approval.\<close>

theorem host_execution_needs_approval:
  assumes "DecideTool (WorkspaceWriteMode os) input = Inr d \<or> DecideTool (workspaceWriteAliasMode os name) input = Inr d"
    and "ConstraintsRequestExplicitHost (dConstraints d)"
  shows "dAction d = ActionAskApproval"
  using assms WorkspaceWriteMode_guarded alias_guarded unfolding guarded_def by blast

definition sample_escalation :: ToolContext where
  "sample_escalation =
     sample_call RunCommandToolName
       [(''command'', JString ''ls''), (''sandbox_permissions'', JString ''require_escalated''), (''justification'', JString ''x'')]"

lemma host_execution_needs_approval_witness:
  "dAction (projr (DecideTool (WorkspaceWriteMode sample_os) sample_escalation)) = ActionAskApproval"
proof (rule host_execution_needs_approval [OF disjI1])
  show "DecideTool (WorkspaceWriteMode sample_os) sample_escalation =
        Inr (projr (DecideTool (WorkspaceWriteMode sample_os) sample_escalation))" by code_simp
  show "ConstraintsRequestExplicitHost (dConstraints (projr (DecideTool (WorkspaceWriteMode sample_os) sample_escalation)))"
    by code_simp
qed

text \<open>C2 (safety). A machine-level catastrophe in the text of the command or in the text it hands to a
  shell is denied, whatever permissions, justification and backend the call has.\<close>

theorem hard_deny_dominates:
  assumes "commandArg input = Inr command" and "hard_denied os command (tcOptions input)"
  shows "\<exists>d. decideCommand os input def = Inr d \<and> dAction d = ActionDeny"
  using assms by (rule decideCommand_hard_deny)

lemma hard_deny_dominates_witness:
  "\<exists>d. decideCommand sample_os (sample_command ''sh -c rm -rf /'') no_constraints = Inr d \<and> dAction d = ActionDeny"
proof (rule hard_deny_dominates)
  show "commandArg (sample_command ''sh -c rm -rf /'') = Inr ''sh -c rm -rf /''" by code_simp
  show "hard_denied sample_os ''sh -c rm -rf /'' (tcOptions (sample_command ''sh -c rm -rf /''))"
    unfolding hard_denied_def by code_simp
qed

text \<open>C14 (functional). A command runs without approval exactly when it is harmless: no hard denial, no
  destructive Git invocation at any depth of shell payloads, no recursive deletion outside the
  writable roots, no remote script flow, no escalation and no host backend.\<close>

theorem command_allowed_iff_harmless:
  assumes "commandArg input = Inr command" and "parseCommandSandboxRequest input = Inr req"
    and "decideCommand os input def = Inr d"
  shows "dAction d = ActionAllow \<longleftrightarrow> harmless_command os command (tcOptions input) req (tcSandbox input)"
  using assms by (rule decideCommand_allow)

lemma command_allowed_iff_harmless_witness:
  "harmless_command sample_os ''ls -l'' sample_options \<lparr>rqSandboxPermissions = PermissionUseDefault, rqJustification = []\<rparr>
     (tcSandbox (sample_command ''ls -l''))"
proof -
  have opts: "tcOptions (sample_command ''ls -l'') = sample_options"
    by (simp add: sample_command_def sample_call_def)
  have "decideCommand sample_os (sample_command ''ls -l'') no_constraints = Inr (allow no_constraints)" by code_simp
  from command_allowed_iff_harmless [OF _ _ this, of "''ls -l''" "\<lparr>rqSandboxPermissions = PermissionUseDefault, rqJustification = []\<rparr>"]
  have "commandArg (sample_command ''ls -l'') = Inr ''ls -l'' \<Longrightarrow>
        parseCommandSandboxRequest (sample_command ''ls -l'') = Inr \<lparr>rqSandboxPermissions = PermissionUseDefault, rqJustification = []\<rparr> \<Longrightarrow>
        ?thesis" by (simp add: opts allow_def)
  moreover have "commandArg (sample_command ''ls -l'') = Inr ''ls -l''" by code_simp
  moreover have "parseCommandSandboxRequest (sample_command ''ls -l'') =
        Inr \<lparr>rqSandboxPermissions = PermissionUseDefault, rqJustification = []\<rparr>" by code_simp
  ultimately show ?thesis by blast
qed

text \<open>An explicit escalation without a justification is denied, never turned into a request.\<close>

theorem unjustified_escalation_denied:
  assumes "commandArg input = Inr command" and "parseCommandSandboxRequest input = Inr req"
    and "rqSandboxPermissions req = PermissionRequireEscalated" and "rqJustification req = []"
  shows "\<exists>d. decideCommand os input def = Inr d \<and> dAction d = ActionDeny"
  using assms by (rule unjustified_escalation)

lemma unjustified_escalation_denied_witness:
  "\<exists>d. decideCommand sample_os (sample_call RunCommandToolName
         [(''command'', JString ''ls''), (''sandbox_permissions'', JString ''Require_Escalated'')]) no_constraints = Inr d \<and>
       dAction d = ActionDeny"
proof (rule unjustified_escalation_denied)
  show "commandArg (sample_call RunCommandToolName
      [(''command'', JString ''ls''), (''sandbox_permissions'', JString ''Require_Escalated'')]) = Inr ''ls''" by code_simp
  show "parseCommandSandboxRequest (sample_call RunCommandToolName
      [(''command'', JString ''ls''), (''sandbox_permissions'', JString ''Require_Escalated'')]) =
      Inr \<lparr>rqSandboxPermissions = PermissionRequireEscalated, rqJustification = []\<rparr>" by code_simp
qed simp_all



text \<open>An approved out-of-root write grants exactly the named paths: every rule of the granted
  constraints is a rule of the base or a read-write rule for the cleaned spelling of a named
  path, the base rules stay in front, and the route, permission and network do not change.\<close>

theorem write_grants_are_exact:
  "prefix (cPathRules (NormalizeConstraints base)) (cPathRules (withPathWriteGrants base paths)) \<and>
   cRoute (withPathWriteGrants base paths) = TrimSpace (cRoute base) \<and>
   cPermission (withPathWriteGrants base paths) = TrimSpace (cPermission base) \<and>
   cNetwork (withPathWriteGrants base paths) = TrimSpace (cNetwork base) \<and>
   list_all (\<lambda>r. r \<in> set (cPathRules (NormalizeConstraints base)) \<or>
                 rAccess r = PathAccessReadWrite \<and> list_ex (\<lambda>p. rPath r = filepath_Clean (TrimSpace p)) paths)
     (cPathRules (withPathWriteGrants base paths))"
proof -
  let ?base = "ClonePathRules (cPathRules (NormalizeConstraints base))"
  let ?extra = "concat (map (append_rule PathAccessReadWrite) paths)"
  have rules: "cPathRules (withPathWriteGrants base paths) = mergePathRules ?base ?extra"
    by (simp add: withPathWriteGrants_def Let_def)
  have base: "?base = cPathRules (NormalizeConstraints base)" by (simp add: NormalizeConstraints_def)
  have extra: "\<exists>p \<in> set paths. rPath e = TrimSpace p \<and> rAccess e = PathAccessReadWrite" if "e \<in> set ?extra" for e
    using that by (auto simp: append_rule_def Let_def split: if_splits)
  have "\<forall>r \<in> set (mergePathRules ?base ?extra). r \<in> set ?base \<or>
      rAccess r = PathAccessReadWrite \<and> (\<exists>p \<in> set paths. rPath r = filepath_Clean (TrimSpace p))"
    using mergePathRules_only extra by (metis TrimSpace_idem)
  then show ?thesis
    using mergePathRules_prefix [of ?base ?extra]
    by (simp add: rules base list_all_iff list_ex_iff)
      (simp add: withPathWriteGrants_def NormalizeConstraints_def Let_def)
qed

text \<open>The built-in registry builds, answers every spelling of the workspace-write mode and of
  its legacy aliases, and has no entry for the full-access mode.\<close>

theorem registry_has_no_escape_mode:
  "\<exists>r. NewRegistry os = Inr r \<and> Lookup r ModeDangerFullAccess = None \<and>
       Lookup r ''Workspace-Write'' = Some (WorkspaceWriteMode os) \<and>
       Lookup r ''manual'' = Some (workspaceWriteAliasMode os ModeManual)"
proof -
  let ?modes = "[WorkspaceWriteMode os, workspaceWriteAliasMode os ModeAutoReview, workspaceWriteAliasMode os ModeManual]"
  have modes: "mode_name (WorkspaceWriteMode os) = TrimSpace ''workspace-write''"
    "mode_name (workspaceWriteAliasMode os name) = TrimSpace name" for name
    by (simp_all add: mode_name_def WorkspaceWriteMode_def workspaceWriteAliasMode_def)
  have keys: "registry_key (TrimSpace ''workspace-write'') = ''workspace-write''"
    "registry_key (TrimSpace ''auto-review'') = ''auto-review''" "registry_key (TrimSpace ''manual'') = ''manual''"
    "registry_key ''danger-full-access'' = ''danger-full-access''"
    "registry_key ''Workspace-Write'' = ''workspace-write''" "registry_key ''manual'' = ''manual''"
    by code_simp+
  note names = modes keys
  obtain r where r: "NewRegistry os = Inr r"
    by (auto simp: NewRegistry_def NewMemory_def Register_def names Let_def)
  then have "memory_registry.register_list Map.empty ?modes = Inr r"
    by (simp add: NewRegistry_def NewMemory_def register_all_list)
  note look = memory_registry.find_register_list [OF this]
  show ?thesis
    using r look [of "''danger-full-access''"] look [of "''Workspace-Write''"] look [of "''manual''"]
    by (simp add: mode_answers_def names Lookup_def)
qed

text \<open>C23 (error). What the scanners do not see: a recursive deletion outside every root that is handed to a
  shell is neither denied nor sent for approval, although the same deletion asked directly
  needs an approval.\<close>

theorem nested_delete_not_gated:
  "\<not> harmless_command sample_os ''rm -rf /srv/data'' sample_options sample_request (tcSandbox (sample_command [])) \<and>
   harmless_command sample_os ''sh -c rm -rf /srv/data'' sample_options sample_request (tcSandbox (sample_command []))"
proof
  have "outOfRootsRecursiveDeleteReason sample_os ''rm -rf /srv/data'' sample_options \<noteq> []" by code_simp
  then show "\<not> harmless_command sample_os ''rm -rf /srv/data'' sample_options sample_request (tcSandbox (sample_command []))"
    by (simp add: harmless_command_def)
  let ?input = "sample_command ''sh -c rm -rf /srv/data''"
  have "commandArg ?input = Inr ''sh -c rm -rf /srv/data''" "parseCommandSandboxRequest ?input = Inr sample_request"
    "decideCommand sample_os ?input no_constraints = Inr (allow no_constraints)"
    by code_simp+
  from decideCommand_allow [OF this]
  show "harmless_command sample_os ''sh -c rm -rf /srv/data'' sample_options sample_request (tcSandbox (sample_command []))"
    by (simp add: allow_def sample_command_def sample_call_def)
qed

end
