(* ===== verification/Approval_Subject.thy ===== *)
theory Approval_Subject
  imports Go_Prelude
begin

text \<open>
  Display evidence of an approval request, \<open>agent-sdk/session/approval_subject.go\<close>: fields
  with a completeness state, bounded and stripped of sensitive text, and the projection
  that joins scopes to the offered options by option identity.

  A text is a list of ASCII bytes, so the number of runes is the length of the text.
\<close>

datatype ApprovalFieldState = Known | Unavailable | Truncated | Opaque | OtherState string

record ApprovalField =
  fState :: ApprovalFieldState
  fText :: string
  fSensitive :: bool

record ApprovalGrant =
  gOptionID :: string
  gScope :: ApprovalField

record ApprovalSubject =
  aTitle :: "ApprovalField option"
  aDescription :: "ApprovalField option"
  aKind :: string
  aTool :: ApprovalField
  aOperation :: ApprovalField
  aTargets :: "ApprovalField list"
  aEffect :: ApprovalField
  aScope :: ApprovalField
  aGrants :: "ApprovalGrant list"
  aTargetsTruncated :: bool
  aSensitiveInput :: bool
  aOpaqueInput :: bool
  aGrantsTruncated :: bool
  aReported :: bool

definition approvalFieldLimit :: nat where "approvalFieldLimit = 512"
definition approvalTargetLimit :: nat where "approvalTargetLimit = 16"
definition approvalGrantLimit :: nat where "approvalGrantLimit = 32"

definition bare_field :: "ApprovalFieldState \<Rightarrow> ApprovalField" where
  "bare_field st = \<lparr>fState = st, fText = [], fSensitive = False\<rparr>"

definition normalizeApprovalField :: "ApprovalField \<Rightarrow> ApprovalField" where
  "normalizeApprovalField f =
     (if fSensitive f then \<lparr>fState = Opaque, fText = [], fSensitive = True\<rparr>
      else if fState f = Known \<or> fState f = Truncated then
        (let t = TrimSpace (fText f)
         in if t = [] then bare_field Unavailable
            else if approvalFieldLimit < length t
              then f\<lparr>fText := take (approvalFieldLimit - 3) t @ ''...'', fState := Truncated\<rparr>
            else f\<lparr>fText := t\<rparr>)
      else if fState f = Opaque then bare_field Opaque
      else bare_field Unavailable)"

definition KnownApprovalField :: "string \<Rightarrow> ApprovalField" where
  "KnownApprovalField t = normalizeApprovalField \<lparr>fState = Known, fText = t, fSensitive = False\<rparr>"

definition opaque_field :: "ApprovalField \<Rightarrow> ApprovalField" where
  "opaque_field f =
     (if fState f = Unavailable then f
      else \<lparr>fState = Opaque, fText = [], fSensitive = fSensitive f\<rparr>)"

definition normalize_grant :: "ApprovalGrant \<Rightarrow> ApprovalGrant" where
  "normalize_grant g = \<lparr>gOptionID = gOptionID g, gScope = normalizeApprovalField (gScope g)\<rparr>"

definition opaque_grant :: "ApprovalGrant \<Rightarrow> ApprovalGrant" where
  "opaque_grant g = g\<lparr>gScope := opaque_field (gScope g)\<rparr>"

definition subject_sensitive :: "ApprovalSubject \<Rightarrow> bool" where
  "subject_sensitive s \<longleftrightarrow>
     aSensitiveInput s \<or> fSensitive (aTool s) \<or> fSensitive (aOperation s) \<or> fSensitive (aEffect s) \<or> fSensitive (aScope s) \<or>
     (case aTitle s of None \<Rightarrow> False | Some f \<Rightarrow> fSensitive f) \<or>
     (case aDescription s of None \<Rightarrow> False | Some f \<Rightarrow> fSensitive f) \<or>
     list_ex fSensitive (aTargets s) \<or> list_ex (\<lambda>g. fSensitive (gScope g)) (aGrants s)"

text \<open>The bounding part of \<open>CloneApprovalSubject\<close>, before a reported subject is withdrawn.\<close>

definition bound_subject :: "ApprovalSubject \<Rightarrow> ApprovalSubject" where
  "bound_subject s =
     \<lparr>aTitle = map_option normalizeApprovalField (aTitle s),
      aDescription = map_option normalizeApprovalField (aDescription s),
      aKind = (if aKind s \<in> {''command'', ''file'', ''network'', ''app_access''} then aKind s else ''opaque''),
      aTool = normalizeApprovalField (aTool s),
      aOperation = normalizeApprovalField (aOperation s),
      aTargets = (let ts = map normalizeApprovalField (take approvalTargetLimit (aTargets s))
                  in if ts = [] then [bare_field Unavailable] else ts),
      aEffect = normalizeApprovalField (aEffect s),
      aScope = normalizeApprovalField (aScope s),
      aGrants = map normalize_grant (take approvalGrantLimit (aGrants s)),
      aTargetsTruncated = (aTargetsTruncated s \<or> approvalTargetLimit < length (aTargets s)),
      aSensitiveInput = subject_sensitive s,
      aOpaqueInput = aOpaqueInput s,
      aGrantsTruncated = (aGrantsTruncated s \<or> approvalGrantLimit < length (aGrants s)),
      aReported = aReported s\<rparr>"

definition withdraw_subject :: "ApprovalSubject \<Rightarrow> ApprovalSubject" where
  "withdraw_subject s =
     s\<lparr>aTitle := map_option opaque_field (aTitle s), aDescription := map_option opaque_field (aDescription s),
       aTool := opaque_field (aTool s), aOperation := opaque_field (aOperation s),
       aEffect := opaque_field (aEffect s), aScope := opaque_field (aScope s),
       aTargets := map opaque_field (aTargets s), aGrants := map opaque_grant (aGrants s)\<rparr>"

definition CloneApprovalSubject :: "ApprovalSubject \<Rightarrow> ApprovalSubject" where
  "CloneApprovalSubject s =
     (let out = bound_subject s
      in if aReported out \<and> (aSensitiveInput out \<or> aOpaqueInput out) then withdraw_subject out else out)"

section \<open>Projection of an approval\<close>

record ProtocolApprovalOption =
  oID :: string
  oName :: string
  oKind :: string

text \<open>\<open>apNamePresent\<close> is the optional flag of the tool call, \<open>apHint\<close> the optional
  \<open>DisplaySubjectHint\<close> of the permission context.\<close>

record ProtocolApproval =
  apToolName :: string
  apNamePresent :: "bool option"
  apOptions :: "ProtocolApprovalOption list"
  apSubject :: "ApprovalSubject option"
  apHint :: "ApprovalSubject option"

fun join_scope :: "ApprovalField \<Rightarrow> bool \<Rightarrow> string \<Rightarrow> ApprovalGrant list \<Rightarrow> ApprovalField" where
  "join_scope field matched option_id [] = field"
| "join_scope field matched option_id (g # gs) =
     (if gOptionID g \<noteq> option_id then join_scope field matched option_id gs
      else if matched then bare_field Unavailable
      else join_scope (normalizeApprovalField (gScope g)) True option_id gs)"

definition joined_grants :: "ProtocolApproval \<Rightarrow> ApprovalSubject \<Rightarrow> ApprovalGrant list" where
  "joined_grants a subject =
     map (\<lambda>opt. \<lparr>gOptionID = oID opt,
                  gScope = join_scope (bare_field Unavailable) False (oID opt) (aGrants subject)\<rparr>) (apOptions a)"

definition opaque_subject :: ApprovalSubject where
  "opaque_subject =
     \<lparr>aTitle = None, aDescription = None, aKind = ''opaque'', aTool = bare_field Opaque,
      aOperation = bare_field Opaque, aTargets = [bare_field Opaque], aEffect = bare_field Opaque,
      aScope = bare_field Opaque, aGrants = [], aTargetsTruncated = False, aSensitiveInput = False,
      aOpaqueInput = False, aGrantsTruncated = False, aReported = False\<rparr>"

definition ApprovalSubjectOf :: "ProtocolApproval option \<Rightarrow> ApprovalSubject" where
  "ApprovalSubjectOf approval =
     (case approval of
        None \<Rightarrow> CloneApprovalSubject opaque_subject
      | Some a \<Rightarrow>
          (case apSubject a of
             Some subject \<Rightarrow> CloneApprovalSubject ((CloneApprovalSubject subject)\<lparr>aGrants := joined_grants a subject\<rparr>)
           | None \<Rightarrow>
               CloneApprovalSubject
                 (opaque_subject\<lparr>aTool := (if apNamePresent a = None \<or> apNamePresent a = Some True
                                           then KnownApprovalField (apToolName a) else bare_field Opaque),
                                aGrants := map (\<lambda>opt. \<lparr>gOptionID = oID opt, gScope = bare_field Opaque\<rparr>) (apOptions a)\<rparr>)))"

definition ApprovalDisplaySubjectOf :: "ProtocolApproval option \<Rightarrow> ApprovalSubject" where
  "ApprovalDisplaySubjectOf approval =
     (let canonical = ApprovalSubjectOf approval
      in case approval of
           None \<Rightarrow> canonical
         | Some a \<Rightarrow>
             (case apHint a of
                None \<Rightarrow> canonical
              | Some h \<Rightarrow>
                  let hint = CloneApprovalSubject h;
                      hint = hint\<lparr>aReported := True, aSensitiveInput := (aSensitiveInput hint \<or> aSensitiveInput canonical),
                                  aOpaqueInput := (aOpaqueInput hint \<or> aOpaqueInput canonical)\<rparr>
                  in ApprovalSubjectOf (Some (a\<lparr>apSubject := Some hint\<rparr>))))"

section \<open>Bounds and redaction\<close>

text \<open>What a normalized field satisfies: bounded text, none at all when it is sensitive,
  opaque or unavailable, and never an unknown state.\<close>

definition field_ok :: "ApprovalField \<Rightarrow> bool" where
  "field_ok f \<longleftrightarrow>
     length (fText f) \<le> approvalFieldLimit \<and>
     (fSensitive f \<longrightarrow> fState f = Opaque) \<and>
     (fText f \<noteq> [] \<longleftrightarrow> fState f = Known \<or> fState f = Truncated) \<and>
     (fState f \<in> {Known, Unavailable, Truncated, Opaque})"

text \<open>All the fields of a subject.\<close>

definition subject_fields :: "ApprovalSubject \<Rightarrow> ApprovalField list" where
  "subject_fields s =
     (case aTitle s of None \<Rightarrow> [] | Some f \<Rightarrow> [f]) @ (case aDescription s of None \<Rightarrow> [] | Some f \<Rightarrow> [f]) @
     [aTool s, aOperation s, aEffect s, aScope s] @ aTargets s @ map gScope (aGrants s)"

definition subject_ok :: "ApprovalSubject \<Rightarrow> bool" where
  "subject_ok s \<longleftrightarrow>
     list_all field_ok (subject_fields s) \<and>
     aTargets s \<noteq> [] \<and> length (aTargets s) \<le> approvalTargetLimit \<and> length (aGrants s) \<le> approvalGrantLimit \<and>
     aKind s \<in> {''command'', ''file'', ''network'', ''app_access'', ''opaque''} \<and>
     (list_ex fSensitive (subject_fields s) \<longrightarrow> aSensitiveInput s) \<and>
     (aReported s \<and> (aSensitiveInput s \<or> aOpaqueInput s) \<longrightarrow> list_all (\<lambda>f. fText f = []) (subject_fields s))"

lemma normalize_field_ok: "field_ok (normalizeApprovalField f)"
  by (auto simp: field_ok_def normalizeApprovalField_def bare_field_def approvalFieldLimit_def Let_def)

lemma bare_field_ok [simp]: "st \<in> {Unavailable, Opaque} \<Longrightarrow> field_ok (bare_field st)"
  by (auto simp: field_ok_def bare_field_def)

lemma opaque_field_ok: "field_ok f \<Longrightarrow> field_ok (opaque_field f) \<and> fText (opaque_field f) = [] \<and> fSensitive (opaque_field f) = fSensitive f"
  by (auto simp: field_ok_def opaque_field_def)

lemma normalize_sensitive [simp]: "fSensitive (normalizeApprovalField f) = fSensitive f"
  by (auto simp: normalizeApprovalField_def bare_field_def Let_def)

lemma truncated_trim:
  assumes "TrimSpace t = t" and "t \<noteq> []" and "0 < n"
  shows "TrimSpace (take n t @ ''...'') = take n t @ ''...''"
proof -
  have "\<not> is_space (hd t)"
    using TrimFunc_ends(1) [of is_space t] assms(1,2) by (simp add: TrimSpace_def)
  moreover have "hd (take n t @ ''...'') = hd t" using assms(2,3) by (cases t; cases n) auto
  ultimately show ?thesis
    unfolding TrimSpace_def by (intro TrimFunc_id) (auto simp: is_space_def)
qed

lemma normalizeApprovalField_idem [simp]:
  "normalizeApprovalField (normalizeApprovalField f) = normalizeApprovalField f"
proof (cases "fSensitive f \<or> \<not> (fState f = Known \<or> fState f = Truncated)")
  case True
  then show ?thesis by (auto simp: normalizeApprovalField_def bare_field_def)
next
  case False
  let ?t = "TrimSpace (fText f)"
  show ?thesis
  proof (cases "?t = [] \<or> length ?t \<le> approvalFieldLimit")
    case True
    with False show ?thesis by (auto simp: normalizeApprovalField_def bare_field_def Let_def)
  next
    case long: False
    have trim: "TrimSpace (take (approvalFieldLimit - 3) ?t @ ''...'') = take (approvalFieldLimit - 3) ?t @ ''...''"
      using long by (intro truncated_trim) (auto simp: approvalFieldLimit_def)
    show ?thesis
      using False long
      by (simp add: normalizeApprovalField_def Let_def trim)
  qed
qed

lemma field_ok_fixed: "field_ok f \<Longrightarrow> fText f = [] \<Longrightarrow> normalizeApprovalField f = f"
  by (cases f) (auto simp: field_ok_def normalizeApprovalField_def bare_field_def)

lemma bound_fields:
  "list_all field_ok (subject_fields (bound_subject s))"
  by (auto simp: bound_subject_def subject_fields_def normalize_grant_def list_all_iff Let_def normalize_field_ok
      split: option.splits)

lemma bound_sensitive:
  "list_ex fSensitive (subject_fields (bound_subject s)) \<Longrightarrow> aSensitiveInput (bound_subject s)"
  by (auto simp: bound_subject_def subject_fields_def normalize_grant_def list_ex_iff Let_def subject_sensitive_def
      bare_field_def dest: in_set_takeD split: option.splits if_splits)

lemma withdraw_fields: "subject_fields (withdraw_subject s) = map opaque_field (subject_fields s)"
  by (auto simp: withdraw_subject_def subject_fields_def opaque_grant_def split: option.splits)

lemma CloneApprovalSubject_ok: "subject_ok (CloneApprovalSubject s)"
proof -
  have shape: "aTargets (bound_subject s) \<noteq> [] \<and> length (aTargets (bound_subject s)) \<le> approvalTargetLimit \<and>
      length (aGrants (bound_subject s)) \<le> approvalGrantLimit \<and>
      aKind (bound_subject s) \<in> {''command'', ''file'', ''network'', ''app_access'', ''opaque''}"
    by (auto simp: bound_subject_def Let_def approvalTargetLimit_def)
  have ok: "\<forall>f \<in> set (subject_fields (bound_subject s)). field_ok f" using bound_fields by (simp add: list_all_iff)
  show ?thesis
  proof (cases "aReported (bound_subject s) \<and> (aSensitiveInput (bound_subject s) \<or> aOpaqueInput (bound_subject s))")
    case True
    then have eq: "CloneApprovalSubject s = withdraw_subject (bound_subject s)" by (simp add: CloneApprovalSubject_def)
    have same: "aTargets (withdraw_subject b) = map opaque_field (aTargets b)" "length (aGrants (withdraw_subject b)) = length (aGrants b)"
      "aKind (withdraw_subject b) = aKind b" "aSensitiveInput (withdraw_subject b) = aSensitiveInput b" for b
      by (simp_all add: withdraw_subject_def)
    have "list_ex fSensitive (map opaque_field (subject_fields (bound_subject s))) \<Longrightarrow> aSensitiveInput (bound_subject s)"
      using bound_sensitive [of s] ok opaque_field_ok by (auto simp: list_ex_iff)
    then show ?thesis
      using shape ok opaque_field_ok
      by (auto simp: subject_ok_def eq withdraw_fields same list_all_iff)
  next
    case False
    then have "CloneApprovalSubject s = bound_subject s" by (auto simp: CloneApprovalSubject_def)
    with False shape bound_fields bound_sensitive show ?thesis by (auto simp: subject_ok_def)
  qed
qed

section \<open>Copying again changes nothing\<close>

lemma normalize_grant_idem [simp]: "normalize_grant (normalize_grant g) = normalize_grant g"
  by (simp add: normalize_grant_def)

lemma opaque_field_idem [simp]: "opaque_field (opaque_field f) = opaque_field f"
  by (simp add: opaque_field_def)

lemma bound_subject_fixed:
  assumes "aTargets s \<noteq> []" "length (aTargets s) \<le> approvalTargetLimit" "length (aGrants s) \<le> approvalGrantLimit"
    and "aKind s \<in> {''command'', ''file'', ''network'', ''app_access'', ''opaque''}"
    and "list_ex fSensitive (subject_fields s) \<longrightarrow> aSensitiveInput s"
    and "\<forall>f \<in> set (subject_fields s). normalizeApprovalField f = f"
  shows "bound_subject s = s"
proof -
  have sens: "subject_sensitive s = aSensitiveInput s"
    using assms(5) by (auto simp: subject_sensitive_def subject_fields_def list_ex_iff split: option.splits)
  have grants: "map normalize_grant (aGrants s) = aGrants s"
    using assms(6) by (intro map_idI) (auto simp: subject_fields_def normalize_grant_def)
  have targets: "map normalizeApprovalField (aTargets s) = aTargets s"
    using assms(6) by (intro map_idI) (auto simp: subject_fields_def)
  have opts: "map_option normalizeApprovalField (aTitle s) = aTitle s"
    "map_option normalizeApprovalField (aDescription s) = aDescription s"
    using assms(6) by (cases "aTitle s"; cases "aDescription s"; simp add: subject_fields_def)+
  show ?thesis
    using assms sens grants targets opts
    by (cases s) (auto simp: bound_subject_def subject_fields_def)
qed

lemma bound_normal: "f \<in> set (subject_fields (bound_subject s)) \<Longrightarrow> normalizeApprovalField f = f"
  by (auto simp: bound_subject_def subject_fields_def normalize_grant_def Let_def bare_field_def
      normalizeApprovalField_def [of "\<lparr>fState = Unavailable, fText = [], fSensitive = False\<rparr>"]
      split: option.splits if_splits)

lemma opaque_normal: "normalizeApprovalField f = f \<Longrightarrow> normalizeApprovalField (opaque_field f) = opaque_field f"
  by (auto simp: opaque_field_def normalizeApprovalField_def bare_field_def)

lemma CloneApprovalSubject_normal: "f \<in> set (subject_fields (CloneApprovalSubject s)) \<Longrightarrow> normalizeApprovalField f = f"
  using bound_normal opaque_normal
  by (auto simp: CloneApprovalSubject_def Let_def withdraw_fields split: if_splits)

lemma withdraw_idem: "withdraw_subject (withdraw_subject s) = withdraw_subject s"
  by (cases "aTitle s"; cases "aDescription s") (auto simp: withdraw_subject_def opaque_grant_def)

lemma CloneApprovalSubject_idem [simp]: "CloneApprovalSubject (CloneApprovalSubject s) = CloneApprovalSubject s"
proof -
  let ?c = "CloneApprovalSubject s"
  have "bound_subject ?c = ?c"
    using CloneApprovalSubject_ok [of s] CloneApprovalSubject_normal
    by (intro bound_subject_fixed) (auto simp: subject_ok_def)
  then have "CloneApprovalSubject ?c = (if aReported ?c \<and> (aSensitiveInput ?c \<or> aOpaqueInput ?c) then withdraw_subject ?c else ?c)"
    by (simp add: CloneApprovalSubject_def [of ?c] Let_def)
  also have "\<dots> = ?c"
    by (auto simp: CloneApprovalSubject_def Let_def withdraw_idem)
  finally show ?thesis .
qed

section \<open>Offered choices\<close>

lemma CloneApprovalSubject_grant_ids:
  "map gOptionID (aGrants (CloneApprovalSubject s)) = take approvalGrantLimit (map gOptionID (aGrants s))"
  by (simp add: CloneApprovalSubject_def bound_subject_def withdraw_subject_def normalize_grant_def opaque_grant_def
      Let_def take_map comp_def)

lemma ApprovalSubjectOf_choices:
  "map gOptionID (aGrants (ApprovalSubjectOf (Some a))) = take approvalGrantLimit (map oID (apOptions a))"
  by (simp add: ApprovalSubjectOf_def CloneApprovalSubject_grant_ids joined_grants_def comp_def split: option.splits)

lemma ApprovalDisplaySubjectOf_choices:
  "map gOptionID (aGrants (ApprovalDisplaySubjectOf (Some a))) = take approvalGrantLimit (map oID (apOptions a))"
  by (simp add: ApprovalDisplaySubjectOf_def ApprovalSubjectOf_choices Let_def split: option.splits)

lemma CloneApprovalSubject_flags:
  "aReported (CloneApprovalSubject s) = aReported s" "aOpaqueInput (CloneApprovalSubject s) = aOpaqueInput s"
  "aSensitiveInput s \<Longrightarrow> aSensitiveInput (CloneApprovalSubject s)"
  by (simp_all add: CloneApprovalSubject_def bound_subject_def withdraw_subject_def subject_sensitive_def Let_def)

text \<open>A remote hint never puts text next to evidence that is marked sensitive or opaque.\<close>

lemma ApprovalDisplaySubjectOf_withdrawn:
  assumes "apHint a = Some hint"
    and "aSensitiveInput (ApprovalSubjectOf (Some a)) \<or> aOpaqueInput (ApprovalSubjectOf (Some a))"
  shows "\<forall>f \<in> set (subject_fields (ApprovalDisplaySubjectOf (Some a))). fText f = []"
proof -
  let ?d = "ApprovalDisplaySubjectOf (Some a)"
  have "aReported ?d \<and> (aSensitiveInput ?d \<or> aOpaqueInput ?d)"
    using assms
    by (auto simp: ApprovalDisplaySubjectOf_def Let_def ApprovalSubjectOf_def [of "Some (a\<lparr>apSubject := Some x\<rparr>)" for x]
        CloneApprovalSubject_flags intro!: CloneApprovalSubject_flags(3))
  moreover have "subject_ok ?d"
    using assms(1) by (simp add: ApprovalDisplaySubjectOf_def Let_def
        ApprovalSubjectOf_def [of "Some (a\<lparr>apSubject := Some x\<rparr>)" for x] CloneApprovalSubject_ok)
  ultimately show ?thesis by (auto simp: subject_ok_def list_all_iff)
qed

section \<open>Properties\<close>

text \<open>Every copied subject is bounded and redacted: each field has at most 512 bytes of
  text and none when it is sensitive, opaque or unavailable; there are 1 to 16 targets and at
  most 32 grants; a sensitive field is always announced; and a reported subject with sensitive
  or opaque input carries no text at all.\<close>

theorem clone_bounded_and_redacted: "subject_ok (CloneApprovalSubject s)"
  by (rule CloneApprovalSubject_ok)

text \<open>Copying is idempotent: live delivery, storage and replay of a subject agree, since
  copying a copy changes nothing.\<close>

theorem clone_idempotent: "CloneApprovalSubject (CloneApprovalSubject s) = CloneApprovalSubject s"
  by (rule CloneApprovalSubject_idem)

text \<open>The choices shown are the offered options, in order and by identity (the first 32);
  neither owner facts nor a remote hint add, drop or reorder a choice.\<close>

theorem display_choices_are_options:
  "map gOptionID (aGrants (ApprovalSubjectOf (Some a))) = take 32 (map oID (apOptions a)) \<and>
   map gOptionID (aGrants (ApprovalDisplaySubjectOf (Some a))) = take 32 (map oID (apOptions a))"
  using ApprovalSubjectOf_choices [of a] ApprovalDisplaySubjectOf_choices [of a]
  by (simp add: approvalGrantLimit_def)

text \<open>When the canonical evidence is sensitive or opaque, a remote display hint is withdrawn:
  no field of the displayed subject has any text.\<close>

theorem sensitive_hint_withdrawn:
  assumes "apHint a = Some hint"
    and "aSensitiveInput (ApprovalSubjectOf (Some a)) \<or> aOpaqueInput (ApprovalSubjectOf (Some a))"
  shows "list_all (\<lambda>f. fText f = []) (subject_fields (ApprovalDisplaySubjectOf (Some a)))"
  using ApprovalDisplaySubjectOf_withdrawn [OF assms] by (simp add: list_all_iff)

definition sample_approval :: ProtocolApproval where
  "sample_approval =
     \<lparr>apToolName = ''Fetch'', apNamePresent = None, apOptions = [\<lparr>oID = ''allow'', oName = ''Allow'', oKind = ''allow_once''\<rparr>],
      apSubject = Some (opaque_subject\<lparr>aSensitiveInput := True\<rparr>),
      apHint = Some (opaque_subject\<lparr>aTitle := Some \<lparr>fState = Known, fText = ''secret'', fSensitive = False\<rparr>\<rparr>)\<rparr>"

lemma sensitive_hint_withdrawn_witness:
  "list_all (\<lambda>f. fText f = []) (subject_fields (ApprovalDisplaySubjectOf (Some sample_approval)))"
proof (rule sensitive_hint_withdrawn)
  show "apHint sample_approval =
      Some (opaque_subject\<lparr>aTitle := Some \<lparr>fState = Known, fText = ''secret'', fSensitive = False\<rparr>\<rparr>)"
    by (simp add: sample_approval_def)
  show "aSensitiveInput (ApprovalSubjectOf (Some sample_approval)) \<or> aOpaqueInput (ApprovalSubjectOf (Some sample_approval))"
    by code_simp
qed

end
