(* ===== verification/Approval_Decision.thy ===== *)
theory Approval_Decision
  imports Approval_Subject
begin

text \<open>
  From a review or a client answer to an executable approval decision:
  \<open>agent-sdk/approval/strict_options.go\<close>, \<open>native_response.go\<close>, \<open>state.go\<close> and the review
  resolution of \<open>approval.go\<close>.

  An approval option has the same three texts in the protocol and in the approval package and
  is one record here.  Of a payload the resolution uses only the options; error texts are
  constructors.
\<close>

section \<open>Strict options\<close>

datatype OptionDecision = OptionDecisionAllow | OptionDecisionDeny

datatype option_error =
    OptionWithoutID nat
  | OptionDuplicated string
  | OptionUnsupportedKind string
  | OptionSpacedID string
  | OptionNotACP string
  | OptionRequired
  | OptionNotAvailable string
  | CancelledWithOption
  | UnsupportedOutcome string
  | OutcomeConflictsKind
  | OptionNotOffered
  | NoAllowOption

definition allow_kinds :: "string list" where "allow_kinds = [''allow'', ''allow_once'', ''allow_always'']"

definition deny_kinds :: "string list" where
  "deny_kinds = [''deny'', ''deny_once'', ''deny_always'', ''reject'', ''reject_once'', ''reject_always'']"

definition strictOptionDecision :: "string \<Rightarrow> OptionDecision option" where
  "strictOptionDecision kind =
     (let k = ToLower (TrimSpace kind)
      in if k \<in> set allow_kinds then Some OptionDecisionAllow
         else if k \<in> set deny_kinds then Some OptionDecisionDeny else None)"

fun normalize_options :: "nat \<Rightarrow> string list \<Rightarrow> ProtocolApprovalOption list \<Rightarrow> option_error + ProtocolApprovalOption list" where
  "normalize_options index seen [] = Inr []"
| "normalize_options index seen (opt # opts) =
     (let n = \<lparr>oID = TrimSpace (oID opt), oName = TrimSpace (oName opt), oKind = ToLower (TrimSpace (oKind opt))\<rparr>
      in if oID n = [] then Inl (OptionWithoutID index)
         else if oID n \<in> set seen then Inl (OptionDuplicated (oID n))
         else if strictOptionDecision (oKind n) = None then Inl (OptionUnsupportedKind (oKind n))
         else case normalize_options (Suc index) (oID n # seen) opts of
                Inl e \<Rightarrow> Inl e
              | Inr out \<Rightarrow> Inr (n # out))"

definition normalizeStrictOptions :: "ProtocolApprovalOption list \<Rightarrow> option_error + ProtocolApprovalOption list" where
  "normalizeStrictOptions opts = normalize_options 0 [] opts"

definition ValidateStrictOptions :: "ProtocolApprovalOption list \<Rightarrow> option_error option" where
  "ValidateStrictOptions opts = (case normalizeStrictOptions opts of Inl e \<Rightarrow> Some e | Inr _ \<Rightarrow> None)"

fun acp_options :: "ProtocolApprovalOption list \<Rightarrow> option_error option" where
  "acp_options [] = None"
| "acp_options (opt # opts) =
     (if oID opt \<noteq> TrimSpace (oID opt) then Some (OptionSpacedID (oID opt))
      else if oKind opt \<notin> {''allow_once'', ''allow_always'', ''reject_once'', ''reject_always''} then Some (OptionNotACP (oID opt))
      else acp_options opts)"

definition ValidateACPOptions :: "ProtocolApprovalOption list \<Rightarrow> option_error option" where
  "ValidateACPOptions opts = (case normalizeStrictOptions opts of Inl e \<Rightarrow> Some e | Inr _ \<Rightarrow> acp_options opts)"

definition StrictOptionIDs :: "ProtocolApprovalOption list \<Rightarrow> option_error + string list" where
  "StrictOptionIDs opts = (case normalizeStrictOptions opts of Inl e \<Rightarrow> Inl e | Inr out \<Rightarrow> Inr (map oID out))"

definition ResolveStrictOption :: "ProtocolApprovalOption list \<Rightarrow> string \<Rightarrow> option_error + ProtocolApprovalOption \<times> OptionDecision" where
  "ResolveStrictOption opts optionID =
     (case normalizeStrictOptions opts of
        Inl e \<Rightarrow> Inl e
      | Inr out \<Rightarrow>
          let wanted = TrimSpace optionID
          in if wanted = [] then Inl OptionRequired
             else case find (\<lambda>opt. oID opt = wanted) out of
                    None \<Rightarrow> Inl (OptionNotAvailable wanted)
                  | Some opt \<Rightarrow>
                      (case strictOptionDecision (oKind opt) of
                         Some d \<Rightarrow> Inr (opt, d)
                       | None \<Rightarrow> Inl (OptionUnsupportedKind (oKind opt))))"

definition StrictOptionIDForDecision :: "ProtocolApprovalOption list \<Rightarrow> OptionDecision \<Rightarrow> option_error + string option" where
  "StrictOptionIDForDecision opts decision =
     (case normalizeStrictOptions opts of
        Inl e \<Rightarrow> Inl e
      | Inr out \<Rightarrow> Inr (map_option oID (find (\<lambda>opt. strictOptionDecision (oKind opt) = Some decision) out)))"

section \<open>The native response\<close>

record ApprovalResponse =
  rspOutcome :: string
  rspOptionID :: string
  rspApproved :: bool
  rspReason :: string
  rspReviewText :: string

definition ResolveNativeResponse :: "ProtocolApproval option \<Rightarrow> ApprovalResponse \<Rightarrow> option_error + ApprovalResponse" where
  "ResolveNativeResponse permission response =
     (if rspOutcome response = ''cancelled''
      then (if rspOptionID response \<noteq> [] then Inl CancelledWithOption else Inr (response\<lparr>rspApproved := False\<rparr>))
      else case permission of
        None \<Rightarrow> Inr response
      | Some p \<Rightarrow>
          let options = apOptions p in
          if options = [] then Inr response
          else case ValidateStrictOptions options of
            Some e \<Rightarrow> Inl e
          | None \<Rightarrow>
              if rspOutcome response \<notin> {[], ''approved'', ''rejected'', ''selected''} then Inl (UnsupportedOutcome (rspOutcome response))
              else if rspOutcome response = ''selected'' \<or> rspOptionID response \<noteq> []
              then case find (\<lambda>opt. oID opt = rspOptionID response) options of
                     None \<Rightarrow> Inl OptionNotOffered
                   | Some opt \<Rightarrow>
                       let allow' = (strictOptionDecision (oKind opt) = Some OptionDecisionAllow)
                       in if rspOutcome response = ''approved'' \<and> \<not> allow' \<or> rspOutcome response = ''rejected'' \<and> allow'
                          then Inl OutcomeConflictsKind
                          else Inr (response\<lparr>rspApproved := allow',
                                 rspOutcome := (if rspOutcome response = [] then ''selected'' else rspOutcome response)\<rparr>)
              else
                let response' = (if rspOutcome response = ''approved'' then response\<lparr>rspApproved := True\<rparr>
                                 else if rspOutcome response = ''rejected'' then response\<lparr>rspApproved := False\<rparr> else response)
                in if rspApproved response' \<and>
                      (case StrictOptionIDForDecision options OptionDecisionAllow of Inl _ \<Rightarrow> True | Inr found \<Rightarrow> found = None)
                   then Inl NoAllowOption else Inr response')"

section \<open>Review results\<close>

record ReviewResult =
  rvApproved :: bool
  rvOutcome :: string
  rvOptionID :: string
  rvRisk :: string
  rvAuthorization :: string
  rvRationale :: string
  rvDisplayText :: string
  rvDecisionSource :: string

definition NormalizeOptions :: "ProtocolApprovalOption list \<Rightarrow> ProtocolApprovalOption list" where
  "NormalizeOptions opts =
     filter (\<lambda>n. \<not> (oID n = [] \<and> oName n = [] \<and> oKind n = []))
       (map (\<lambda>opt. \<lparr>oID = TrimSpace (oID opt), oName = TrimSpace (oName opt), oKind = TrimSpace (oKind opt)\<rparr>) opts)"

definition optionMatchesDecision :: "ProtocolApprovalOption \<Rightarrow> bool \<Rightarrow> bool" where
  "optionMatchesDecision opt approved =
     (let value = ToLower (TrimSpace (Join [oKind opt, oID opt, oName opt] '' ''))
      in if approved then HasPrefix value ''allow'' \<or> Contains value '' allow''
         else HasPrefix value ''reject'' \<or> Contains value '' reject'' \<or> HasPrefix value ''deny'' \<or> Contains value '' deny'')"

definition lookupOptionByID :: "ProtocolApprovalOption list \<Rightarrow> string \<Rightarrow> ProtocolApprovalOption option" where
  "lookupOptionByID opts optionID =
     (if TrimSpace optionID = [] then None else find (\<lambda>opt. TrimSpace (oID opt) = TrimSpace optionID) opts)"

definition optionIDForDecision :: "ProtocolApprovalOption list \<Rightarrow> bool \<Rightarrow> string" where
  "optionIDForDecision opts approved =
     (case find (\<lambda>opt. optionMatchesDecision opt approved) opts of Some opt \<Rightarrow> TrimSpace (oID opt) | None \<Rightarrow> [])"

definition approvedFromReviewOutcome :: "ReviewResult \<Rightarrow> bool" where
  "approvedFromReviewOutcome result =
     (let outcome = ToLower (TrimSpace (rvOutcome result))
      in if outcome \<in> {''allow'', ''approved''} then True
         else if outcome \<in> {''deny'', ''denied'', ''reject'', ''rejected''} then False
         else rvApproved result)"

definition ResolveReviewResult :: "ProtocolApprovalOption list \<Rightarrow> ReviewResult \<Rightarrow> ReviewResult" where
  "ResolveReviewResult opts result =
     (case (if TrimSpace (rvOptionID result) \<noteq> [] then lookupOptionByID opts (TrimSpace (rvOptionID result)) else None) of
        Some opt \<Rightarrow> result\<lparr>rvOptionID := TrimSpace (oID opt), rvApproved := optionMatchesDecision opt True, rvOutcome := ''selected''\<rparr>
      | None \<Rightarrow>
          let approved = approvedFromReviewOutcome result;
              optionID = optionIDForDecision opts approved;
              result' = result\<lparr>rvApproved := approved, rvOptionID := optionID\<rparr>
          in if optionID \<noteq> [] then result'\<lparr>rvOutcome := ''selected''\<rparr>
             else if TrimSpace (rvOutcome result) = [] then result'\<lparr>rvOutcome := (if approved then ''approved'' else ''rejected'')\<rparr>
             else result')"

definition firstNonEmpty :: "string list \<Rightarrow> string" where
  "firstNonEmpty values = (case find (\<lambda>v. TrimSpace v \<noteq> []) values of Some v \<Rightarrow> TrimSpace v | None \<Rightarrow> [])"

definition FormatReviewText :: "bool \<Rightarrow> string \<Rightarrow> string \<Rightarrow> string \<Rightarrow> string" where
  "FormatReviewText approved risk authorization rationale =
     ''Automatic approval review '' @ (if approved then ''approved'' else ''denied'') @ '' (risk: '' @ firstNonEmpty [risk, ''unknown''] @
     '', authorization: '' @ firstNonEmpty [authorization, ''unknown''] @ ''): '' @ firstNonEmpty [rationale, ''no rationale provided'']"

definition FinalizeReviewResult :: "ProtocolApprovalOption list \<Rightarrow> ReviewResult \<Rightarrow> ReviewResult" where
  "FinalizeReviewResult opts result =
     (let r = ResolveReviewResult opts result
      in if TrimSpace (rvDisplayText r) = []
         then r\<lparr>rvDisplayText := FormatReviewText (rvApproved r) (rvRisk r) (rvAuthorization r) (rvRationale r)\<rparr> else r)"

definition RuntimeResponseFromFinalReview :: "ReviewResult \<Rightarrow> ApprovalResponse" where
  "RuntimeResponseFromFinalReview result =
     \<lparr>rspOutcome = TrimSpace (rvOutcome result), rspOptionID = TrimSpace (rvOptionID result), rspApproved = rvApproved result,
      rspReason = TrimSpace (rvRationale result), rspReviewText = TrimSpace (firstNonEmpty [rvDisplayText result, rvRationale result])\<rparr>"

datatype ReviewStatus =
    ReviewStatusInProgress
  | ReviewStatusApproved
  | ReviewStatusDenied
  | ReviewStatusTimedOut
  | ReviewStatusFailed

definition ReviewTerminalStatus :: "ReviewResult \<Rightarrow> ReviewStatus" where
  "ReviewTerminalStatus result = (if rvApproved result then ReviewStatusApproved else ReviewStatusDenied)"

text \<open>The decision of a headless run without its own resolver; \<open>Approved\<close> and \<open>Outcome\<close> are set, the
  other fields are the zero values.\<close>

datatype ApprovalPolicy = ApprovalPolicyAutoDeny | ApprovalPolicyApproveAll

definition resolveApproval :: "ApprovalPolicy \<Rightarrow> ReviewResult" where
  "resolveApproval policy =
     (let approve = (policy = ApprovalPolicyApproveAll)
      in \<lparr>rvApproved = approve, rvOutcome = (if approve then ''approved'' else ''rejected''), rvOptionID = [], rvRisk = [],
          rvAuthorization = [], rvRationale = [], rvDisplayText = [], rvDecisionSource = []\<rparr>)"

definition controlClientApprovalResolution :: "ProtocolApprovalOption list \<Rightarrow> ReviewResult \<Rightarrow> ApprovalResponse" where
  "controlClientApprovalResolution opts decision = RuntimeResponseFromFinalReview (FinalizeReviewResult opts decision)"

section \<open>Approval modes\<close>

datatype Mode = ApprovalModeAutoReview | ApprovalModeManual

definition NormalizeMode :: "string \<Rightarrow> Mode" where
  "NormalizeMode mode = (if ToLower (TrimSpace mode) = ''manual'' then ApprovalModeManual else ApprovalModeAutoReview)"

definition currentModeOverride :: "(string \<times> json) list \<Rightarrow> Mode option" where
  "currentModeOverride state =
     (case map_of state ''gateway.current_approval_mode'' of
        Some (JString v) \<Rightarrow> if TrimSpace v \<noteq> [] then Some (NormalizeMode (TrimSpace v)) else None
      | _ \<Rightarrow> None)"

definition CurrentModeOrDefault :: "(string \<times> json) list \<Rightarrow> string \<Rightarrow> Mode" where
  "CurrentModeOrDefault state fallback = (case currentModeOverride state of Some m \<Rightarrow> m | None \<Rightarrow> NormalizeMode fallback)"

section \<open>Facts\<close>

lemma normalize_options_shape:
  "normalize_options index seen opts = Inr out \<Longrightarrow>
   out = map (\<lambda>opt. \<lparr>oID = TrimSpace (oID opt), oName = TrimSpace (oName opt), oKind = ToLower (TrimSpace (oKind opt))\<rparr>) opts \<and>
   distinct (map oID out) \<and> (\<forall>opt \<in> set out. oID opt \<noteq> [] \<and> oID opt \<notin> set seen \<and> strictOptionDecision (oKind opt) \<noteq> None)"
proof (induction opts arbitrary: index seen out)
  case (Cons opt opts)
  then show ?case by (auto simp: Let_def split: if_splits sum.splits) fastforce+
qed simp

lemma is_space_lower [simp]: "is_space (lower_char c) = is_space c"
proof (cases "65 \<le> (of_char c :: nat) \<and> (of_char c :: nat) \<le> 90")
  case True
  then have "(of_char (lower_char c) :: nat) = of_char c + 32" by (simp add: lower_char_def of_char_of)
  with True have "97 \<le> (of_char (lower_char c) :: nat)" by simp
  then have "\<not> is_space (lower_char c)" by (auto simp: is_space_def)
  moreover from True have "\<not> is_space c" by (auto simp: is_space_def)
  ultimately show ?thesis by simp
qed (auto simp: lower_char_def)

lemma TrimSpace_ToLower: "TrimSpace (ToLower s) = ToLower (TrimSpace s)"
proof -
  have *: "dropWhile is_space (map lower_char t) = map lower_char (dropWhile is_space t)" for t
    by (simp add: dropWhile_map comp_def)
  show ?thesis
    by (simp add: TrimSpace_def TrimFunc_def TrimRightFunc_def TrimLeftFunc_def ToLower_def * rev_map)
qed

lemma strict_kind_normal [simp]: "strictOptionDecision (ToLower (TrimSpace kind)) = strictOptionDecision kind"
  by (simp add: strictOptionDecision_def TrimSpace_ToLower)


lemma strict_ids:
  assumes "ValidateStrictOptions opts = None"
  shows "distinct (map (\<lambda>opt. TrimSpace (oID opt)) opts)"
    and "\<And>opt. opt \<in> set opts \<Longrightarrow> TrimSpace (oID opt) \<noteq> [] \<and> strictOptionDecision (oKind opt) \<noteq> None"
proof -
  from assms obtain out where out: "normalize_options 0 [] opts = Inr out"
    by (auto simp: ValidateStrictOptions_def normalizeStrictOptions_def split: sum.splits)
  from normalize_options_shape [OF this] show "distinct (map (\<lambda>opt. TrimSpace (oID opt)) opts)"
    by (auto simp: comp_def)
  show "TrimSpace (oID opt) \<noteq> [] \<and> strictOptionDecision (oKind opt) \<noteq> None" if "opt \<in> set opts" for opt
    using normalize_options_shape [OF out] that by auto
qed

lemma strict_id_for_decision:
  assumes "StrictOptionIDForDecision opts d = Inr (Some i)"
  shows "\<exists>opt \<in> set opts. strictOptionDecision (oKind opt) = Some d"
proof -
  from assms obtain out opt where out: "normalize_options 0 [] opts = Inr out"
    and opt: "find (\<lambda>opt. strictOptionDecision (oKind opt) = Some d) out = Some opt"
    by (auto simp: StrictOptionIDForDecision_def normalizeStrictOptions_def split: sum.splits)
  from opt have "opt \<in> set out" "strictOptionDecision (oKind opt) = Some d" by (auto simp: find_Some_iff)
  with normalize_options_shape [OF out] show ?thesis by auto
qed

lemma native_cases:
  assumes "ResolveNativeResponse (Some p) rsp = Inr r" and "apOptions p \<noteq> []" and "rspApproved r"
  obtains (selected) opt where "ValidateStrictOptions (apOptions p) = None"
      and "find (\<lambda>opt. oID opt = rspOptionID rsp) (apOptions p) = Some opt"
      and "strictOptionDecision (oKind opt) = Some OptionDecisionAllow" and "rspOptionID r = rspOptionID rsp"
  | (outcome) i where "rspOptionID rsp = []" and "rspOptionID r = []" and "rspOutcome rsp \<in> {[], ''approved''}"
      and "rspOutcome rsp = ''approved'' \<or> rspApproved rsp"
      and "StrictOptionIDForDecision (apOptions p) OptionDecisionAllow = Inr (Some i)"
  using assms
  by (auto simp: ResolveNativeResponse_def Let_def split: if_splits option.splits sum.splits)

lemma approved_allow_option:
  assumes "ResolveNativeResponse (Some p) rsp = Inr r" and "apOptions p \<noteq> []" and "rspApproved r"
  shows "\<exists>opt \<in> set (apOptions p). strictOptionDecision (oKind opt) = Some OptionDecisionAllow \<and>
           (rspOptionID r = [] \<or> oID opt = rspOptionID r)"
  using assms
proof (cases rule: native_cases)
  case (selected opt)
  then show ?thesis by (auto simp: find_Some_iff intro!: bexI [of _ opt])
next
  case (outcome i)
  then show ?thesis by (auto dest: strict_id_for_decision)
qed

text \<open>When a permission offers options, an answer is executed as an approval only if
  an option of an allow kind was offered; if the answer selects an option, that option was offered
  and is itself of an allow kind.  An option's kind, never its outcome text or the \<open>Approved\<close>
  hint alone, grants authority.\<close>

theorem approval_needs_allow_option:
  assumes "ResolveNativeResponse (Some p) rsp = Inr r" and "apOptions p \<noteq> []" and "rspApproved r"
  shows "\<exists>opt \<in> set (apOptions p). strictOptionDecision (oKind opt) = Some OptionDecisionAllow \<and>
           (rspOptionID r = [] \<or> oID opt = rspOptionID r)"
  using assms by (rule approved_allow_option)

definition relabel :: "(string \<Rightarrow> string) \<Rightarrow> ProtocolApproval \<Rightarrow> ProtocolApproval" where
  "relabel f p = p\<lparr>apOptions := map (\<lambda>opt. opt\<lparr>oName := f (oName opt)\<rparr>) (apOptions p)\<rparr>"

lemma normalize_relabel:
  "normalize_options index seen (map (\<lambda>opt. opt\<lparr>oName := f (oName opt)\<rparr>) opts) =
   (case normalize_options index seen opts of
      Inl e \<Rightarrow> Inl e
    | Inr out \<Rightarrow> Inr (map2 (\<lambda>n opt. n\<lparr>oName := TrimSpace (f (oName opt))\<rparr>) out opts))"
proof (induction opts arbitrary: index seen)
  case (Cons opt opts)
  then show ?case by (simp add: Let_def split: sum.splits)
qed simp

lemma validate_relabel:
  "ValidateStrictOptions (map (\<lambda>opt. opt\<lparr>oName := f (oName opt)\<rparr>) opts) = ValidateStrictOptions opts"
  by (simp add: ValidateStrictOptions_def normalizeStrictOptions_def normalize_relabel split: sum.splits)

lemma find_map2_relabel:
  "length out = length opts \<Longrightarrow> (\<And>n v. P (n\<lparr>oName := v\<rparr>) = P n) \<Longrightarrow>
   map_option oID (find P (map2 (\<lambda>n opt. n\<lparr>oName := g opt\<rparr>) out opts)) = map_option oID (find P out)"
  by (induction out opts rule: list_induct2) auto

lemma decision_relabel:
  "StrictOptionIDForDecision (map (\<lambda>opt. opt\<lparr>oName := f (oName opt)\<rparr>) opts) d = StrictOptionIDForDecision opts d"
proof (cases "normalize_options 0 [] opts")
  case (Inr out)
  then have "length out = length opts" by (auto dest: normalize_options_shape)
  with Inr show ?thesis
    by (simp add: StrictOptionIDForDecision_def normalizeStrictOptions_def normalize_relabel find_map2_relabel)
qed (simp add: StrictOptionIDForDecision_def normalizeStrictOptions_def normalize_relabel)

lemma find_relabel:
  "find (\<lambda>opt. oID opt = i) (map (\<lambda>opt. opt\<lparr>oName := f (oName opt)\<rparr>) opts) =
   map_option (\<lambda>opt. opt\<lparr>oName := f (oName opt)\<rparr>) (find (\<lambda>opt. oID opt = i) opts)"
  by (induction opts) auto

text \<open>C31 (equivalence).  Option labels carry no authority: replacing every option's name by any
  other text changes neither the decision nor the error of \<open>ResolveNativeResponse\<close>.\<close>

theorem labels_never_grant_authority:
  "ResolveNativeResponse (Some (relabel f p)) rsp = ResolveNativeResponse (Some p) rsp"
  unfolding ResolveNativeResponse_def relabel_def
  by (simp add: validate_relabel decision_relabel find_relabel Let_def split: option.splits)

section \<open>From review to execution\<close>

text \<open>The review resolution chooses the option by its texts.  \<open>clear_option\<close> says that they
  agree with the option's kind.\<close>

definition clear_option :: "ProtocolApprovalOption \<Rightarrow> bool" where
  "clear_option opt \<longleftrightarrow> oID opt = TrimSpace (oID opt) \<and>
     (optionMatchesDecision opt False \<longrightarrow> strictOptionDecision (oKind opt) = Some OptionDecisionDeny)"

lemma find_SomeD: "find P xs = Some x \<Longrightarrow> x \<in> set xs \<and> P x"
  by (auto simp: find_Some_iff)

lemma denied_outcome:
  assumes "TrimSpace (rvOptionID result) = []" and "\<not> approvedFromReviewOutcome result"
  shows "rspOutcome (RuntimeResponseFromFinalReview (FinalizeReviewResult opts result)) \<noteq> ''approved''"
proof -
  have lit: "TrimSpace ''selected'' = ''selected''" "TrimSpace ''rejected'' = ''rejected''" "ToLower ''approved'' = ''approved''"
    by code_simp+
  from assms(2) lit(3) have "TrimSpace (rvOutcome result) \<noteq> ''approved''" by (auto simp: approvedFromReviewOutcome_def)
  with assms lit(1,2) show ?thesis
    by (simp add: RuntimeResponseFromFinalReview_def FinalizeReviewResult_def ResolveReviewResult_def Let_def)
qed

text \<open>C32 (safety).  When every offered option's texts agree with its kind, a review that denies (and
  selects no option itself) is never executed as an approval.\<close>

theorem denied_review_never_approves:
  assumes "list_all clear_option (apOptions p)" and "apOptions p \<noteq> []"
    and "TrimSpace (rvOptionID result) = []" and "\<not> approvedFromReviewOutcome result"
    and "ResolveNativeResponse (Some p) (RuntimeResponseFromFinalReview (FinalizeReviewResult (apOptions p) result)) = Inr r"
  shows "\<not> rspApproved r"
proof
  assume approved: "rspApproved r"
  let ?opts = "apOptions p" and ?rsp = "RuntimeResponseFromFinalReview (FinalizeReviewResult (apOptions p) result)"
  have i: "rspOptionID ?rsp = optionIDForDecision ?opts False"
    using assms(3,4)
    by (auto simp: RuntimeResponseFromFinalReview_def FinalizeReviewResult_def ResolveReviewResult_def Let_def
        optionIDForDecision_def split: option.splits)
  have no: "\<not> rspApproved ?rsp"
    using assms(3,4)
    by (auto simp: RuntimeResponseFromFinalReview_def FinalizeReviewResult_def ResolveReviewResult_def Let_def)
  from assms(5,2) approved show False
  proof (cases rule: native_cases)
    case (selected opt)
    then have opt: "opt \<in> set ?opts" "oID opt = optionIDForDecision ?opts False"
      by (auto simp: find_Some_iff i)
    with strict_ids(2) [OF selected(1)] have "optionIDForDecision ?opts False \<noteq> []" by fastforce
    then obtain opt' where opt': "opt' \<in> set ?opts" "optionMatchesDecision opt' False"
        "optionIDForDecision ?opts False = TrimSpace (oID opt')"
      by (auto simp: optionIDForDecision_def dest: find_SomeD split: option.splits)
    from assms(1) opt(1) opt'(1) have "oID opt = TrimSpace (oID opt)" "strictOptionDecision (oKind opt') = Some OptionDecisionDeny"
      using opt'(2) by (auto simp: list_all_iff clear_option_def)
    moreover from this opt opt' have "TrimSpace (oID opt) = TrimSpace (oID opt')" by simp
    with opt(1) opt'(1) strict_ids(1) [OF selected(1)] have "opt = opt'"
      unfolding distinct_map by (blast dest: inj_onD)
    ultimately show False using selected(3) by simp
  next
    case (outcome i')
    with no have "rspOutcome ?rsp = ''approved''" by simp
    with denied_outcome [OF assms(3,4)] show False by blast
  qed
qed

definition plain_permission :: "ProtocolApprovalOption list \<Rightarrow> ProtocolApproval" where
  "plain_permission opts = \<lparr>apToolName = ''RUN_COMMAND'', apNamePresent = None, apOptions = opts, apSubject = None, apHint = None\<rparr>"

definition usual_options :: "ProtocolApprovalOption list" where
  "usual_options =
     [\<lparr>oID = ''yes'', oName = ''Allow once'', oKind = ''allow_once''\<rparr>, \<lparr>oID = ''no'', oName = ''Reject'', oKind = ''reject_once''\<rparr>]"

theorem approval_needs_allow_option_witness:
  "\<exists>opt \<in> set usual_options. strictOptionDecision (oKind opt) = Some OptionDecisionAllow \<and> oID opt = ''yes''"
proof -
  let ?rsp = "\<lparr>rspOutcome = ''selected'', rspOptionID = ''yes'', rspApproved = False, rspReason = [], rspReviewText = []\<rparr>"
  have "ResolveNativeResponse (Some (plain_permission usual_options)) ?rsp = Inr (?rsp\<lparr>rspApproved := True\<rparr>)" by code_simp
  moreover have "apOptions (plain_permission usual_options) \<noteq> []" by code_simp
  moreover have "apOptions (plain_permission usual_options) = usual_options" by (simp add: plain_permission_def)
  ultimately show ?thesis
    using approval_needs_allow_option [of "plain_permission usual_options" ?rsp "?rsp\<lparr>rspApproved := True\<rparr>"] by simp
qed

theorem denied_review_never_approves_witness:
  "\<not> rspApproved (RuntimeResponseFromFinalReview (FinalizeReviewResult usual_options (resolveApproval ApprovalPolicyAutoDeny)))"
proof -
  let ?p = "plain_permission usual_options" and ?d = "resolveApproval ApprovalPolicyAutoDeny"
  let ?rsp = "RuntimeResponseFromFinalReview (FinalizeReviewResult (apOptions ?p) ?d)"
  have "list_all clear_option (apOptions ?p)" by code_simp
  moreover have "apOptions ?p \<noteq> []" by code_simp
  moreover have "TrimSpace (rvOptionID ?d) = []" by code_simp
  moreover have "\<not> approvedFromReviewOutcome ?d" by code_simp
  moreover have "ResolveNativeResponse (Some ?p) ?rsp = Inr ?rsp" by code_simp
  ultimately have "\<not> rspApproved ?rsp" by (rule denied_review_never_approves)
  then show ?thesis by (simp add: plain_permission_def)
qed

text \<open>C33 (error).  Without that agreement the denial is lost.  A permission whose allow option is labelled
  \<open>Proceed, do not deny\<close> satisfies the strict and the protocol option contracts; the default headless
  policy denies the request, the denial is matched to that option by its label, and the
  resolution that is sent back selects it: \<open>ResolveNativeResponse\<close> executes it as an approval.\<close>

theorem auto_deny_can_approve:
  "let opts = [\<lparr>oID = ''ok'', oName = ''Proceed, do not deny'', oKind = ''allow_once''\<rparr>,
               \<lparr>oID = ''stop'', oName = ''Stop'', oKind = ''reject_once''\<rparr>];
       answer = controlClientApprovalResolution (NormalizeOptions opts) (resolveApproval ApprovalPolicyAutoDeny)
   in ValidateACPOptions opts = None \<and> \<not> rspApproved answer \<and> rspOptionID answer = ''ok'' \<and>
      (case ResolveNativeResponse (Some (plain_permission opts)) answer of Inr r \<Rightarrow> rspApproved r | Inl _ \<Rightarrow> False)"
  by code_simp

end
