(* ===== verification/Approval_Queue.thy ===== *)
theory Approval_Queue
  imports Approval_Decision "HOL-Library.Word"
begin

text \<open>
  The approval queue of a session: \<open>internal/kernel/approval_queue.go\<close>, with the admission barrier of
  \<open>agent-sdk/tool/tool.go\<close> and the hand-over to the waiting tool call of
  \<open>gateway_approval.go\<close>.

  Pending approvals are compared by identity in the code, so they live in a heap of numbered
  objects, and so do the admission barriers.  \<open>paSent\<close> is what was sent on the decision channel
  (capacity one), \<open>paDone\<close> and \<open>paActivated\<close> say that the channel is closed.  Closing a closed channel panics and
  sending on the full channel blocks with the mutex held: either sets \<open>cFault\<close>.

  Every operation runs under the coordinator's mutex and is one step; a \<open>submit\<close> whose context is already
  cancelled returns before it and is no step.  The callbacks of a
  turn handle and its terminal flag are the argument \<open>env\<close> of a step, free to answer
  differently in every step.  A request keeps the fields the queue reads; \<open>rqSubagent\<close> says that its canonical
  origin is a subagent.
\<close>

section \<open>Admission barriers\<close>

record modelStepAdmission =
  amRemaining :: int
  amSeen :: "bool list"
  amDone :: bool

record ModelStepRef =
  msStepID :: string
  msIndex :: int
  msCallCount :: int
  msAdmission :: "nat option"

definition NewConcurrentModelStepRefs :: "nat \<Rightarrow> string \<Rightarrow> int \<Rightarrow> (modelStepAdmission \<times> ModelStepRef list) option" where
  "NewConcurrentModelStepRefs b i callCount =
     (if TrimSpace i = [] \<or> callCount < 2 then None
      else Some (\<lparr>amRemaining = callCount, amSeen = replicate (nat callCount) False, amDone = False\<rparr>,
                 map (\<lambda>k. \<lparr>msStepID = TrimSpace i, msIndex = int k, msCallCount = callCount, msAdmission = Some b\<rparr>) [0..<nat callCount]))"

section \<open>State\<close>

record ApprovalDecision =
  adRequestID :: string
  adOutcome :: string
  adOptionID :: string
  adApproved :: bool
  adReason :: string
  adReviewText :: string

record RuntimeApproval =
  rqPauseTokenID :: string
  rqRunID :: string
  rqTurnID :: string
  rqSubagent :: bool
  rqApproval :: "ProtocolApproval option"
  rqModelStep :: "ModelStepRef option"

datatype event_answer = CallbackMissing | CallbackError | CallbackNoEvent | CallbackEvent string "64 word"

datatype approval_error =
    ApprovalUnavailable
  | ApprovalAlreadyPending
  | ApprovalNoLongerPending string string
  | ApprovalIDRequired
  | ApprovalNotPending string string
  | ApprovalNotCallerResolvable
  | ApprovalNotActive string string
  | ApprovalInvalidDecision option_error
  | PersistenceUnavailable
  | PersistenceFailed
  | PersistenceNoEvent
  | PersistenceNoPosition

datatype review_context = NoReview | ReviewRunning | ReviewCancelled

record pendingApproval =
  paReview :: review_context
  paID :: string
  paSent :: "ApprovalDecision list"
  paDone :: bool
  paActivated :: bool
  paRequest :: "RuntimeApproval option"
  paOwner :: "nat option"
  paDetached :: bool
  paPublish :: bool
  paGroup :: string
  paGroupDone :: "nat option"
  paActivationErr :: "approval_error option"
  paPersisted :: bool
  paSettled :: bool

record approvalCoordinator =
  cSessionID :: string
  cPending :: "string \<Rightarrow> nat option"
  cSettled :: "string \<Rightarrow> string option"
  cQueue :: "nat list"
  cActive :: "nat list"
  cGroup :: string
  cGroupDone :: "nat option"
  cGroupOwner :: "nat option"
  cRequests :: "64 word"
  cObj :: "nat \<Rightarrow> pendingApproval"
  cObjs :: nat
  cBarrier :: "nat \<Rightarrow> modelStepAdmission"
  cFault :: bool

record turn_env =
  envPersist :: "nat \<Rightarrow> event_answer"
  envSettle :: "nat \<Rightarrow> event_answer"
  envTerminal :: "nat \<Rightarrow> bool"

definition upd_obj :: "nat \<Rightarrow> (pendingApproval \<Rightarrow> pendingApproval) \<Rightarrow> approvalCoordinator \<Rightarrow> approvalCoordinator" where
  "upd_obj q f c = c\<lparr>cObj := (cObj c)(q := f (cObj c q))\<rparr>"

definition newApprovalCoordinator :: "string \<Rightarrow> approvalCoordinator" where
  "newApprovalCoordinator sessionID =
     \<lparr>cSessionID = TrimSpace sessionID, cPending = Map.empty, cSettled = Map.empty, cQueue = [], cActive = [], cGroup = [],
      cGroupDone = None, cGroupOwner = None, cRequests = 0,
      cObj = (\<lambda>_. \<lparr>paReview = NoReview, paID = [], paSent = [], paDone = False, paActivated = False, paRequest = None, paOwner = None,
                   paDetached = False, paPublish = False, paGroup = [], paGroupDone = None, paActivationErr = None,
                   paPersisted = False, paSettled = False\<rparr>),
      cObjs = 0, cBarrier = (\<lambda>_. \<lparr>amRemaining = 0, amSeen = [], amDone = False\<rparr>), cFault = False\<rparr>"

section \<open>Channels\<close>

definition close_done :: "nat \<Rightarrow> approvalCoordinator \<Rightarrow> approvalCoordinator" where
  "close_done q c = (if paDone (cObj c q) then c\<lparr>cFault := True\<rparr> else upd_obj q (\<lambda>p. p\<lparr>paDone := True\<rparr>) c)"

definition close_activated :: "nat \<Rightarrow> approvalCoordinator \<Rightarrow> approvalCoordinator" where
  "close_activated q c = (if paActivated (cObj c q) then c\<lparr>cFault := True\<rparr> else upd_obj q (\<lambda>p. p\<lparr>paActivated := True\<rparr>) c)"

definition send_decision :: "nat \<Rightarrow> ApprovalDecision \<Rightarrow> approvalCoordinator \<Rightarrow> approvalCoordinator" where
  "send_decision q d c = (if paSent (cObj c q) \<noteq> [] then c\<lparr>cFault := True\<rparr> else upd_obj q (\<lambda>p. p\<lparr>paSent := [d]\<rparr>) c)"

definition channelClosed :: "approvalCoordinator \<Rightarrow> nat option \<Rightarrow> bool" where
  "channelClosed c ch = (case ch of None \<Rightarrow> False | Some b \<Rightarrow> amDone (cBarrier c b))"

definition MarkAdmissionComplete :: "ModelStepRef option \<Rightarrow> approvalCoordinator \<Rightarrow> approvalCoordinator" where
  "MarkAdmissionComplete r c =
     (case r of
        None \<Rightarrow> c
      | Some step \<Rightarrow>
          (case msAdmission step of
             None \<Rightarrow> c
           | Some b \<Rightarrow>
               if msIndex step < 0 \<or> msIndex step \<ge> msCallCount step then c
               else
                 let a = cBarrier c b; k = nat (msIndex step)
                 in if k \<ge> length (amSeen a) then c
                    else if amSeen a ! k then c
                    else
                      let a' = a\<lparr>amSeen := (amSeen a)[k := True], amRemaining := amRemaining a - 1\<rparr>
                      in if amRemaining a' = 0
                         then (if amDone a' then c\<lparr>cFault := True\<rparr> else c\<lparr>cBarrier := (cBarrier c)(b := a'\<lparr>amDone := True\<rparr>)\<rparr>)
                         else c\<lparr>cBarrier := (cBarrier c)(b := a')\<rparr>))"

section \<open>Activation\<close>

definition isActiveLocked :: "approvalCoordinator \<Rightarrow> nat \<Rightarrow> bool" where
  "isActiveLocked c q \<longleftrightarrow> q \<in> set (cActive c)"

definition removeLocked :: "nat \<Rightarrow> string \<Rightarrow> approvalCoordinator \<Rightarrow> approvalCoordinator" where
  "removeLocked q state c =
     (let i = paID (cObj c q)
      in c\<lparr>cPending := (cPending c)(i := None), cSettled := (cSettled c)(i \<mapsto> TrimSpace state),
           cQueue := remove1 q (cQueue c), cActive := remove1 q (cActive c)\<rparr>)"

definition eligible :: "approvalCoordinator \<Rightarrow> nat \<Rightarrow> bool" where
  "eligible c q \<longleftrightarrow> cPending c (paID (cObj c q)) = Some q \<and> \<not> isActiveLocked c q"

definition nextPendingLocked :: "approvalCoordinator \<Rightarrow> string \<Rightarrow> nat option" where
  "nextPendingLocked c g = find (\<lambda>q. eligible c q \<and> \<not> (g \<noteq> [] \<and> paGroup (cObj c q) \<noteq> g)) (cQueue c)"

definition validatePersistedApprovalEvent :: "event_answer \<Rightarrow> approval_error option" where
  "validatePersistedApprovalEvent a =
     (case a of
        CallbackMissing \<Rightarrow> Some PersistenceUnavailable
      | CallbackError \<Rightarrow> Some PersistenceFailed
      | CallbackNoEvent \<Rightarrow> Some PersistenceNoEvent
      | CallbackEvent i s \<Rightarrow> if TrimSpace i = [] \<or> s = 0 then Some PersistenceNoPosition else None)"

definition persist_answer :: "turn_env \<Rightarrow> approvalCoordinator \<Rightarrow> nat \<Rightarrow> event_answer" where
  "persist_answer env c q = (if paOwner (cObj c q) = None then CallbackMissing else envPersist env q)"

definition activateLocked :: "turn_env \<Rightarrow> nat \<Rightarrow> approvalCoordinator \<Rightarrow> bool \<times> approvalCoordinator" where
  "activateLocked env q c =
     (let c = c\<lparr>cActive := cActive c @ [q]\<rparr>
      in if paPublish (cObj c q)
         then (case validatePersistedApprovalEvent (persist_answer env c q) of
                 Some e \<Rightarrow>
                   (False, close_done q (removeLocked q ''persistence_failed'' (upd_obj q (\<lambda>p. p\<lparr>paActivationErr := Some e\<rparr>) c)))
               | None \<Rightarrow> (True, close_activated q (upd_obj q (\<lambda>p. p\<lparr>paPersisted := True\<rparr>) c)))
         else (True, close_activated q c))"

lemma obj_upd [simp]: "cObj (upd_obj q f c) = (cObj c)(q := f (cObj c q))" by (simp add: upd_obj_def)

lemma upd_obj_fields [simp]:
  "cPending (upd_obj q f c) = cPending c" "cSettled (upd_obj q f c) = cSettled c" "cQueue (upd_obj q f c) = cQueue c"
  "cActive (upd_obj q f c) = cActive c" "cGroup (upd_obj q f c) = cGroup c" "cGroupDone (upd_obj q f c) = cGroupDone c"
  "cGroupOwner (upd_obj q f c) = cGroupOwner c" "cBarrier (upd_obj q f c) = cBarrier c" "cFault (upd_obj q f c) = cFault c"
  "cObjs (upd_obj q f c) = cObjs c" "cRequests (upd_obj q f c) = cRequests c" "cSessionID (upd_obj q f c) = cSessionID c"
  by (simp_all add: upd_obj_def)


definition waiting :: "approvalCoordinator \<Rightarrow> nat" where
  "waiting c = length (filter (eligible c) (cQueue c))"

lemma filter_length_less:
  "\<lbrakk>q \<in> set xs; P q; \<And>x. x \<in> set xs \<Longrightarrow> R x \<Longrightarrow> P x \<and> x \<noteq> q\<rbrakk> \<Longrightarrow> length (filter R xs) < length (filter P xs)"
proof (induction xs)
  case (Cons x xs)
  have le: "length (filter R xs) \<le> length (filter P xs)"
    using Cons.prems(3) by (induction xs) (auto intro: le_SucI)
  show ?case
  proof (cases "x = q")
    case True
    with Cons.prems le show ?thesis by auto
  next
    case False
    with Cons show ?thesis by auto
  qed
qed simp

lemma eligible_after_activate:
  assumes "eligible c q" and "eligible (snd (activateLocked env q c)) x"
  shows "eligible c x \<and> x \<noteq> q"
  using assms
  by (auto simp: eligible_def isActiveLocked_def activateLocked_def Let_def close_done_def close_activated_def removeLocked_def
      split: option.splits if_splits)

lemma waiting_activate:
  assumes "q \<in> set (cQueue c)" and "eligible c q"
  shows "waiting (snd (activateLocked env q c)) < waiting c"
proof -
  let ?c = "snd (activateLocked env q c)"
  have "length (filter (eligible ?c) (cQueue c)) < length (filter (eligible c) (cQueue c))"
    using assms eligible_after_activate [OF assms(2)] by (intro filter_length_less) auto
  moreover have "length (filter (eligible ?c) (cQueue ?c)) \<le> length (filter (eligible ?c) (cQueue c))"
  proof -
    have "cQueue ?c = cQueue c \<or> cQueue ?c = remove1 q (cQueue c)"
      by (auto simp: activateLocked_def Let_def close_done_def close_activated_def removeLocked_def split: option.splits)
    then show ?thesis by (auto simp: filter_remove1 length_remove1)
  qed
  ultimately show ?thesis by (simp add: waiting_def)
qed

definition set_group :: "nat \<Rightarrow> approvalCoordinator \<Rightarrow> approvalCoordinator" where
  "set_group q c =
     (if paGroup (cObj c q) \<noteq> []
      then c\<lparr>cGroup := paGroup (cObj c q), cGroupDone := paGroupDone (cObj c q), cGroupOwner := paOwner (cObj c q)\<rparr>
      else c)"

definition clear_group :: "approvalCoordinator \<Rightarrow> approvalCoordinator" where
  "clear_group c = c\<lparr>cGroup := [], cGroupDone := None, cGroupOwner := None\<rparr>"

function activateNextLocked :: "turn_env \<Rightarrow> approvalCoordinator \<Rightarrow> approvalCoordinator" where
  "activateNextLocked env c =
     (if cGroup c \<noteq> [] then
        (case nextPendingLocked c (cGroup c) of
           None \<Rightarrow>
             if cActive c \<noteq> [] \<or> \<not> channelClosed c (cGroupDone c) then c
             else activateNextLocked env (clear_group c)
         | Some q \<Rightarrow> activateNextLocked env (snd (activateLocked env q c)))
      else if cActive c \<noteq> [] then c
      else
        (case nextPendingLocked c [] of
           None \<Rightarrow> c
         | Some q \<Rightarrow>
             let (ok, c') = activateLocked env q (set_group q c)
             in if ok \<and> cGroup c' = [] then c' else activateNextLocked env c'))"
  by pat_completeness auto

lemma set_group_fields [simp]:
  "cPending (set_group q c) = cPending c" "cSettled (set_group q c) = cSettled c" "cQueue (set_group q c) = cQueue c"
  "cActive (set_group q c) = cActive c" "cObj (set_group q c) = cObj c" "cObjs (set_group q c) = cObjs c"
  "cBarrier (set_group q c) = cBarrier c" "cFault (set_group q c) = cFault c" "cRequests (set_group q c) = cRequests c"
  by (simp_all add: set_group_def)

lemma clear_group_fields [simp]:
  "cPending (clear_group c) = cPending c" "cSettled (clear_group c) = cSettled c" "cQueue (clear_group c) = cQueue c"
  "cActive (clear_group c) = cActive c" "cObj (clear_group c) = cObj c" "cObjs (clear_group c) = cObjs c" "cGroup (clear_group c) = []"
  "cBarrier (clear_group c) = cBarrier c" "cFault (clear_group c) = cFault c" "cRequests (clear_group c) = cRequests c"
  by (simp_all add: clear_group_def)

lemma waiting_group [simp]: "waiting (set_group q c) = waiting c" "waiting (clear_group c) = waiting c"
  by (simp_all add: waiting_def eligible_def [abs_def] isActiveLocked_def)

lemma eligible_group [simp]: "eligible (set_group q c) x = eligible c x" "eligible (clear_group c) x = eligible c x"
  by (simp_all add: eligible_def isActiveLocked_def)

lemma nextPendingD:
  "nextPendingLocked c g = Some q \<Longrightarrow> q \<in> set (cQueue c) \<and> eligible c q \<and> \<not> (g \<noteq> [] \<and> paGroup (cObj c q) \<noteq> g)"
  unfolding nextPendingLocked_def by (drule find_SomeD) blast

termination activateNextLocked
proof (relation "measure (\<lambda>(env, c). 2 * waiting c + (if cGroup c = [] then 0 else 1))", goal_cases)
  case 1
  show ?case by simp
next
  case (2 env c)
  then show ?case by simp
next
  case (3 env c q)
  with waiting_activate [of q c env] nextPendingD [of c "cGroup c" q] show ?case by simp
next
  case (4 env c q x ok c')
  then have "waiting c' < waiting c"
    using waiting_activate [of q "set_group q c" env] nextPendingD [of c "[]" q]
    by (auto dest: arg_cong [of _ _ snd])
  with 4 show ?case by auto
qed

declare activateNextLocked.simps [simp del]

section \<open>Operations\<close>

fun decimal :: "nat \<Rightarrow> string" where
  "decimal n = (if n < 10 then [char_of (48 + n)] else decimal (n div 10) @ [char_of (48 + n mod 10)])"

definition pad6 :: "string \<Rightarrow> string" where
  "pad6 s = replicate (6 - length s) (CHR ''0'') @ s"

definition detachedApprovalRequest :: "RuntimeApproval option \<Rightarrow> bool" where
  "detachedApprovalRequest req = (case req of None \<Rightarrow> False | Some r \<Rightarrow> rqSubagent r)"

definition approvalRequestIDForRuntimeRequest :: "RuntimeApproval option \<Rightarrow> string" where
  "approvalRequestIDForRuntimeRequest req = (case req of None \<Rightarrow> [] | Some r \<Rightarrow> TrimSpace (rqPauseTokenID r))"

definition autoApprovalParallelGroup :: "RuntimeApproval option \<Rightarrow> string \<times> nat option" where
  "autoApprovalParallelGroup req =
     (case req of
        None \<Rightarrow> ([], None)
      | Some r \<Rightarrow>
          (case rqModelStep r of
             None \<Rightarrow> ([], None)
           | Some step \<Rightarrow>
               let stepID = TrimSpace (msStepID step); runID = TrimSpace (rqRunID r); turnID = TrimSpace (rqTurnID r)
               in if msAdmission step = None \<or> stepID = [] \<or> runID = [] \<or> turnID = [] \<or> msCallCount step < 2 \<or>
                     msIndex step < 0 \<or> msIndex step \<ge> msCallCount step
                  then ([], None)
                  else (runID @ [CHR 0x00] @ turnID @ [CHR 0x00] @ stepID, msAdmission step)))"

definition request_id :: "RuntimeApproval option \<Rightarrow> approvalCoordinator \<Rightarrow> string \<times> approvalCoordinator" where
  "request_id req c =
     (let i = approvalRequestIDForRuntimeRequest req
      in if i \<noteq> [] then (i, c)
         else let c' = c\<lparr>cRequests := cRequests c + 1\<rparr>;
                  pre = (if TrimSpace (cSessionID c) = [] then ''session'' else TrimSpace (cSessionID c))
              in (pre @ ''-approval-'' @ pad6 (decimal (unat (cRequests c'))), c'))"

definition new_pending :: "string \<Rightarrow> nat option \<Rightarrow> RuntimeApproval option \<Rightarrow> bool \<Rightarrow> pendingApproval" where
  "new_pending i owner req publishOnActivate =
     (let grp = (if publishOnActivate then ([], None) else autoApprovalParallelGroup req)
      in \<lparr>paReview = NoReview, paID = i, paSent = [], paDone = False, paActivated = False, paRequest = req, paOwner = owner,
          paDetached = detachedApprovalRequest req, paPublish = publishOnActivate, paGroup = fst grp, paGroupDone = snd grp,
          paActivationErr = None, paPersisted = False, paSettled = False\<rparr>)"

definition admit :: "pendingApproval \<Rightarrow> approvalCoordinator \<Rightarrow> approvalCoordinator" where
  "admit p c =
     (let q = cObjs c
      in c\<lparr>cObj := (cObj c)(q := p), cObjs := Suc q, cPending := (cPending c)(paID p \<mapsto> q), cQueue := cQueue c @ [q]\<rparr>)"

definition clone_request :: "RuntimeApproval \<Rightarrow> RuntimeApproval" where
  "clone_request r =
     r\<lparr>rqPauseTokenID := TrimSpace (rqPauseTokenID r), rqRunID := TrimSpace (rqRunID r), rqTurnID := TrimSpace (rqTurnID r)\<rparr>"

definition settled_state :: "approvalCoordinator \<Rightarrow> string \<Rightarrow> string" where
  "settled_state c i = (case cSettled c i of Some st \<Rightarrow> TrimSpace st | None \<Rightarrow> [])"

definition enqueue ::
  "turn_env \<Rightarrow> nat option \<Rightarrow> RuntimeApproval option \<Rightarrow> bool \<Rightarrow> approvalCoordinator \<Rightarrow> (approval_error + nat) \<times> approvalCoordinator" where
  "enqueue env owner req0 publishOnActivate c =
     (let req = map_option clone_request req0
      in if (case owner of None \<Rightarrow> False | Some h \<Rightarrow> envTerminal env h) \<and> \<not> detachedApprovalRequest req
         then (Inl ApprovalUnavailable, c)
         else
           let (i, c1) = request_id req c
           in if cPending c1 i \<noteq> None then (Inl ApprovalAlreadyPending, c1)
              else if settled_state c1 i \<noteq> [] then (Inl (ApprovalNoLongerPending i (settled_state c1 i)), c1)
              else
                let q = cObjs c1;
                    c2 = activateNextLocked env (MarkAdmissionComplete (Option.bind req rqModelStep)
                           (admit (new_pending i owner req publishOnActivate) c1))
                in case paActivationErr (cObj c2 q) of Some e \<Rightarrow> (Inl e, c2) | None \<Rightarrow> (Inr q, c2))"

definition approvalNotPendingErrorLocked :: "approvalCoordinator \<Rightarrow> string \<Rightarrow> approval_error" where
  "approvalNotPendingErrorLocked c i = ApprovalNotPending i (settled_state c i)"

definition approvalNotActiveErrorLocked :: "approvalCoordinator \<Rightarrow> string \<Rightarrow> approval_error" where
  "approvalNotActiveErrorLocked c i = ApprovalNotActive i (case cActive c of [] \<Rightarrow> [] | q # _ \<Rightarrow> paID (cObj c q))"

definition settle_answer :: "turn_env \<Rightarrow> approvalCoordinator \<Rightarrow> nat \<Rightarrow> event_answer" where
  "settle_answer env c q = (if paOwner (cObj c q) = None then CallbackMissing else envSettle env q)"

definition settleLocked :: "turn_env \<Rightarrow> nat \<Rightarrow> approvalCoordinator \<Rightarrow> approval_error option \<times> approvalCoordinator" where
  "settleLocked env q c =
     (if paSettled (cObj c q) \<or> \<not> paPersisted (cObj c q) \<or> settle_answer env c q = CallbackMissing then (None, c)
      else case validatePersistedApprovalEvent (settle_answer env c q) of
             Some e \<Rightarrow> (Some e, c)
           | None \<Rightarrow> (None, upd_obj q (\<lambda>p. p\<lparr>paSettled := True\<rparr>) c))"

definition permission_of :: "pendingApproval \<Rightarrow> ProtocolApproval option" where
  "permission_of p = Option.bind (paRequest p) rqApproval"

definition decision_response :: "ApprovalDecision \<Rightarrow> ApprovalResponse" where
  "decision_response d =
     \<lparr>rspOutcome = adOutcome d, rspOptionID = adOptionID d, rspApproved = adApproved d, rspReason = adReason d, rspReviewText = adReviewText d\<rparr>"

definition resolved_decision :: "string \<Rightarrow> ApprovalResponse \<Rightarrow> ApprovalDecision \<Rightarrow> ApprovalDecision" where
  "resolved_decision i r d =
     d\<lparr>adOutcome := rspOutcome r, adOptionID := rspOptionID r, adApproved := rspApproved r, adRequestID := i\<rparr>"

definition resolveLocked ::
  "turn_env \<Rightarrow> nat \<Rightarrow> ApprovalDecision \<Rightarrow> approvalCoordinator \<Rightarrow> approval_error option \<times> approvalCoordinator" where
  "resolveLocked env q d c =
     (let p = cObj c q
      in if cPending c (paID p) \<noteq> Some q then (Some (approvalNotPendingErrorLocked c (paID p)), c)
         else if \<not> isActiveLocked c q then (Some (approvalNotActiveErrorLocked c (paID p)), c)
         else case ResolveNativeResponse (permission_of p) (decision_response d) of
           Inl e \<Rightarrow> (Some (ApprovalInvalidDecision e), c)
         | Inr r \<Rightarrow>
             (case settleLocked env q c of
                (Some e, c1) \<Rightarrow> (Some e, c1)
              | (None, c1) \<Rightarrow>
                  (None, activateNextLocked env (removeLocked q ''resolved'' (send_decision q (resolved_decision (paID p) r d) c1)))))"

definition resolve ::
  "turn_env \<Rightarrow> nat option \<Rightarrow> ApprovalDecision \<Rightarrow> approvalCoordinator \<Rightarrow> approval_error option \<times> approvalCoordinator" where
  "resolve env q d c = (case q of None \<Rightarrow> (Some ApprovalUnavailable, c) | Some q \<Rightarrow> resolveLocked env q d c)"

definition submit ::
  "turn_env \<Rightarrow> ApprovalDecision \<Rightarrow> approvalCoordinator \<Rightarrow> approval_error option \<times> approvalCoordinator" where
  "submit env d c =
     (let i = TrimSpace (adRequestID d)
      in if i = [] then (Some ApprovalIDRequired, c)
         else case cPending c i of
                None \<Rightarrow> (Some (approvalNotPendingErrorLocked c i), c)
              | Some q \<Rightarrow>
                  if \<not> paPublish (cObj c q) then (Some ApprovalNotCallerResolvable, c)
                  else resolveLocked env q d c)"

definition finish :: "turn_env \<Rightarrow> string \<Rightarrow> nat \<Rightarrow> approvalCoordinator \<Rightarrow> approvalCoordinator" where
  "finish env state q c = close_done q (removeLocked q state (snd (settleLocked env q c)))"

definition release :: "turn_env \<Rightarrow> nat option \<Rightarrow> string \<Rightarrow> approvalCoordinator \<Rightarrow> approvalCoordinator" where
  "release env q state c =
     (case q of
        None \<Rightarrow> c
      | Some q \<Rightarrow>
          if cPending c (paID (cObj c q)) \<noteq> Some q then c
          else activateNextLocked env (finish env state q c))"

fun finish_all :: "turn_env \<Rightarrow> string \<Rightarrow> (pendingApproval \<Rightarrow> bool) \<Rightarrow> nat list \<Rightarrow> approvalCoordinator \<Rightarrow> approvalCoordinator" where
  "finish_all env state chosen [] c = c"
| "finish_all env state chosen (q # qs) c =
     finish_all env state chosen qs
       (if \<not> chosen (cObj c q) \<or> cPending c (paID (cObj c q)) \<noteq> Some q then c else finish env state q c)"

definition abandonOwner :: "turn_env \<Rightarrow> nat option \<Rightarrow> string \<Rightarrow> approvalCoordinator \<Rightarrow> approvalCoordinator" where
  "abandonOwner env owner state c =
     (case owner of
        None \<Rightarrow> c
      | Some h \<Rightarrow>
          let c1 = finish_all env state (\<lambda>p. paOwner p = Some h \<and> \<not> paDetached p) (cQueue c) c;
              c2 = (if cGroupOwner c1 = Some h then clear_group c1 else c1)
          in activateNextLocked env c2)"

definition cancel_review :: "pendingApproval \<Rightarrow> pendingApproval" where
  "cancel_review p = (if paReview p = NoReview then p else p\<lparr>paReview := ReviewCancelled\<rparr>)"

fun invalidate_loop :: "turn_env \<Rightarrow> nat list \<Rightarrow> approvalCoordinator \<Rightarrow> approvalCoordinator" where
  "invalidate_loop env [] c = c"
| "invalidate_loop env (q # qs) c =
     invalidate_loop env qs
       (if paPublish (cObj c q) \<or> cPending c (paID (cObj c q)) \<noteq> Some q then c
        else finish env ''cancelled'' q (upd_obj q cancel_review c))"

definition invalidateAutoReviews :: "turn_env \<Rightarrow> approvalCoordinator \<Rightarrow> approvalCoordinator" where
  "invalidateAutoReviews env c = activateNextLocked env (invalidate_loop env (cQueue c) c)"

fun clear_loop :: "turn_env \<Rightarrow> string \<Rightarrow> string list \<Rightarrow> approvalCoordinator \<Rightarrow> approvalCoordinator" where
  "clear_loop env state [] c = c"
| "clear_loop env state (i # is) c =
     clear_loop env state is
       (case cPending c i of
          None \<Rightarrow> c
        | Some q \<Rightarrow>
            let c1 = snd (settleLocked env q c)
            in close_done q (c1\<lparr>cPending := (cPending c1)(i := None), cSettled := (cSettled c1)(i \<mapsto> TrimSpace state)\<rparr>))"

text \<open>\<open>order\<close> is the order in which the loop ranges over the pending map.\<close>

definition clear_all :: "turn_env \<Rightarrow> string list \<Rightarrow> string \<Rightarrow> approvalCoordinator \<Rightarrow> approvalCoordinator" where
  "clear_all env order state c = clear_group ((clear_loop env state order c)\<lparr>cQueue := [], cActive := []\<rparr>)"

text \<open>The goroutine of \<open>watchParallelAdmissionLocked\<close> once the barrier has closed.\<close>

definition watchParallelAdmissionLocked :: "turn_env \<Rightarrow> string \<Rightarrow> nat option \<Rightarrow> approvalCoordinator \<Rightarrow> approvalCoordinator" where
  "watchParallelAdmissionLocked env g ch c =
     (if TrimSpace g = [] \<or> ch = None \<or> \<not> channelClosed c ch then c
      else if cGroup c \<noteq> g \<or> cGroupDone c \<noteq> ch then c
      else activateNextLocked env c)"

text \<open>The automatic review of \<open>resolveApprovalRequest\<close> registers its cancel function.\<close>

definition attach_review :: "nat \<Rightarrow> approvalCoordinator \<Rightarrow> approvalCoordinator" where
  "attach_review q c =
     upd_obj q (\<lambda>p. p\<lparr>paReview := (if cPending c (paID p) \<noteq> Some q then ReviewCancelled else ReviewRunning)\<rparr>) c"

definition snapshot :: "approvalCoordinator \<Rightarrow> nat option \<times> nat" where
  "snapshot c = ((case cActive c of [] \<Rightarrow> None | q # _ \<Rightarrow> Some q), length (filter (eligible c) (cQueue c)))"

datatype wait_outcome =
    WaitDecision ApprovalResponse
  | WaitActivationErr approval_error
  | WaitCanceled

text \<open>The ready cases of the select in \<open>waitForApprovalDecision\<close> that belong to the queue entry; the
  two contexts of the caller are the others.\<close>

definition waitForApprovalDecision :: "pendingApproval \<Rightarrow> wait_outcome list" where
  "waitForApprovalDecision p =
     map (\<lambda>d. WaitDecision (decision_response d)) (paSent p) @
     (if paDone p then [case paActivationErr p of Some e \<Rightarrow> WaitActivationErr e | None \<Rightarrow> WaitCanceled] else [])"

section \<open>Runs\<close>

inductive approval_step :: "approvalCoordinator \<Rightarrow> approvalCoordinator \<Rightarrow> bool" where
  enqueue: "approval_step c (snd (enqueue env owner req publish c))"
| submit: "approval_step c (snd (submit env d c))"
| resolve: "approval_step c (snd (resolve env q d c))"
| release: "approval_step c (release env q state c)"
| abandon: "approval_step c (abandonOwner env owner state c)"
| clear: "distinct order \<Longrightarrow> set order = dom (cPending c) \<Longrightarrow> approval_step c (clear_all env order state c)"
| invalidate: "approval_step c (invalidateAutoReviews env c)"
| watch: "approval_step c (watchParallelAdmissionLocked env g ch c)"
| mark: "approval_step c (MarkAdmissionComplete r c)"
| new_step: "NewConcurrentModelStepRefs b i n = Some (a, refs) \<Longrightarrow> amSeen (cBarrier c b) = [] \<Longrightarrow>
    approval_step c (c\<lparr>cBarrier := (cBarrier c)(b := a)\<rparr>)"
| review: "approval_step c (attach_review q c)"

definition approval_reachable :: "string \<Rightarrow> approvalCoordinator \<Rightarrow> bool" where
  "approval_reachable sessionID c \<longleftrightarrow> approval_step\<^sup>*\<^sup>* (newApprovalCoordinator sessionID) c"

section \<open>The invariant\<close>

definition queue_ok :: "approvalCoordinator \<Rightarrow> bool" where
  "queue_ok c \<longleftrightarrow>
     distinct (cQueue c) \<and> distinct (cActive c) \<and> set (cActive c) \<subseteq> set (cQueue c) \<and>
     (\<forall>i q. cPending c i = Some q \<longleftrightarrow> q \<in> set (cQueue c) \<and> paID (cObj c q) = i) \<and> (\<forall>q \<in> set (cQueue c). q < cObjs c)"

definition delivered_ok :: "pendingApproval \<Rightarrow> ApprovalDecision \<Rightarrow> bool" where
  "delivered_ok p d \<longleftrightarrow>
     adRequestID d = paID p \<and> paActivated p \<and> (paPublish p \<longrightarrow> paPersisted p) \<and>
     (\<exists>rsp r. ResolveNativeResponse (permission_of p) rsp = Inr r \<and>
        rspOutcome r = adOutcome d \<and> rspOptionID r = adOptionID d \<and> rspApproved r = adApproved d)"

definition queued_ok :: "bool \<Rightarrow> pendingApproval \<Rightarrow> bool" where
  "queued_ok active p \<longleftrightarrow>
     paSent p = [] \<and> \<not> paDone p \<and> paActivationErr p = None \<and> paActivated p = active \<and> (paPublish p \<longrightarrow> paGroup p = []) \<and>
     (active \<and> paPublish p \<longrightarrow> paPersisted p)"

definition left_ok :: "pendingApproval \<Rightarrow> bool" where
  "left_ok p \<longleftrightarrow> (if paDone p then paSent p = [] else \<exists>d. paSent p = [d] \<and> delivered_ok p d)"

definition entries_ok :: "approvalCoordinator \<Rightarrow> bool" where
  "entries_ok c \<longleftrightarrow>
     (\<forall>q < cObjs c. if q \<in> set (cQueue c) then queued_ok (q \<in> set (cActive c)) (cObj c q) else left_ok (cObj c q))"

definition cohort_ok :: "approvalCoordinator \<Rightarrow> bool" where
  "cohort_ok c \<longleftrightarrow>
     (\<forall>a \<in> set (cActive c). \<forall>b \<in> set (cActive c). a \<noteq> b \<longrightarrow> paGroup (cObj c a) = paGroup (cObj c b) \<and> paGroup (cObj c a) \<noteq> []) \<and>
     (cGroup c \<noteq> [] \<longrightarrow> (\<forall>a \<in> set (cActive c). paGroup (cObj c a) = cGroup c)) \<and>
     (\<forall>a \<in> set (cActive c). paGroup (cObj c a) = [] \<longrightarrow> hd (cQueue c) = a)"

definition settled_ok :: "approvalCoordinator \<Rightarrow> bool" where
  "settled_ok c \<longleftrightarrow> (\<forall>i. settled_state c i \<noteq> [] \<longrightarrow> cPending c i = None)"

definition barrier_ok :: "modelStepAdmission \<Rightarrow> bool" where
  "barrier_ok a \<longleftrightarrow> amRemaining a = int (length (filter Not (amSeen a))) \<and> (amDone a \<longleftrightarrow> amSeen a \<noteq> [] \<and> amRemaining a = 0)"

definition plane_ok :: "approvalCoordinator \<Rightarrow> bool" where
  "plane_ok c \<longleftrightarrow> queue_ok c \<and> entries_ok c \<and> cohort_ok c \<and> settled_ok c \<and> (\<forall>b. barrier_ok (cBarrier c b)) \<and> \<not> cFault c"

text \<open>After every operation the queue is served: with no active entry and no open cohort nothing waits.\<close>

definition served :: "approvalCoordinator \<Rightarrow> bool" where
  "served c \<longleftrightarrow> \<not> (cActive c = [] \<and> cGroup c = [] \<and> cQueue c \<noteq> [])"

lemmas plane_defs = plane_ok_def queue_ok_def entries_ok_def cohort_ok_def settled_ok_def

lemma eligible_iff: "queue_ok c \<Longrightarrow> q \<in> set (cQueue c) \<Longrightarrow> eligible c q \<longleftrightarrow> q \<notin> set (cActive c)"
  by (auto simp: eligible_def isActiveLocked_def queue_ok_def)

lemma new_ok: "plane_ok (newApprovalCoordinator sid) \<and> served (newApprovalCoordinator sid)"
  by (auto simp: plane_defs newApprovalCoordinator_def served_def settled_state_def barrier_ok_def)

lemma set_remove1_distinct: "distinct xs \<Longrightarrow> set (remove1 x xs) = set xs - {x}"
  by (rule set_remove1_eq)

lemma hd_remove1: "xs \<noteq> [] \<Longrightarrow> hd xs \<noteq> x \<Longrightarrow> hd (remove1 x xs) = hd xs"
  by (cases xs) auto

subsection \<open>Leaving the queue\<close>

definition leave :: "nat \<Rightarrow> string \<Rightarrow> (pendingApproval \<Rightarrow> pendingApproval) \<Rightarrow> approvalCoordinator \<Rightarrow> approvalCoordinator" where
  "leave q state f c = upd_obj q f (removeLocked q state c)"

lemma leave_ok:
  assumes c: "plane_ok c" and q: "q \<in> set (cQueue c)"
    and f: "paID (f (cObj c q)) = paID (cObj c q)" "left_ok (f (cObj c q))"
  shows "plane_ok (leave q state f c)"
proof -
  let ?c = "leave q state f c"
  from c have qok: "queue_ok c" and dist: "distinct (cQueue c)" "distinct (cActive c)" by (auto simp: plane_defs)
  have [simp]: "cQueue ?c = remove1 q (cQueue c)" "cActive ?c = remove1 q (cActive c)" "cGroup ?c = cGroup c" "cBarrier ?c = cBarrier c"
    "cFault ?c = cFault c" "cObjs ?c = cObjs c" "cObj ?c = (cObj c)(q := f (cObj c q))"
    "cPending ?c = (cPending c)(paID (cObj c q) := None)" "cSettled ?c = (cSettled c)(paID (cObj c q) \<mapsto> TrimSpace state)"
    by (simp_all add: leave_def removeLocked_def Let_def)
  have [simp]: "set (remove1 q (cQueue c)) = set (cQueue c) - {q}" "set (remove1 q (cActive c)) = set (cActive c) - {q}"
    using dist by simp_all
  have "queue_ok ?c"
    using qok q f(1) unfolding queue_ok_def by (auto simp: distinct_remove1) (metis option.inject)+
  moreover have "entries_ok ?c"
    using c f(2) by (auto simp: plane_defs)
  moreover have "cohort_ok ?c"
  proof -
    have "hd (remove1 q (cQueue c)) = a" if "a \<in> set (cActive c)" "a \<noteq> q" "hd (cQueue c) = a" for a
      using that q by (metis hd_remove1 list.set_cases list.distinct(1))
    with c show ?thesis by (auto simp: plane_defs)
  qed
  moreover have "settled_ok ?c"
    using c by (auto simp: plane_defs settled_state_def)
  ultimately show ?thesis using c by (simp add: plane_ok_def)
qed

definition same_entry :: "pendingApproval \<Rightarrow> pendingApproval \<Rightarrow> bool" where
  "same_entry p p' \<longleftrightarrow>
     paID p = paID p' \<and> paSent p = paSent p' \<and> paDone p = paDone p' \<and> paActivated p = paActivated p' \<and> paPublish p = paPublish p' \<and>
     paGroup p = paGroup p' \<and> paPersisted p = paPersisted p' \<and> paRequest p = paRequest p' \<and> paOwner p = paOwner p' \<and>
     paDetached p = paDetached p' \<and> paActivationErr p = paActivationErr p'"

lemma same_entry_ok:
  assumes "same_entry p p'"
  shows "queued_ok b p = queued_ok b p'" and "left_ok p = left_ok p'"
  using assms by (auto simp: same_entry_def queued_ok_def left_ok_def delivered_ok_def permission_of_def)

lemma upd_neutral:
  assumes c: "plane_ok c" and f: "same_entry (f (cObj c q)) (cObj c q)"
  shows "plane_ok (upd_obj q f c)"
proof -
  have fields: "paID (cObj (upd_obj q f c) x) = paID (cObj c x)" "paGroup (cObj (upd_obj q f c) x) = paGroup (cObj c x)" for x
    using f by (simp_all add: same_entry_def)
  have "queue_ok (upd_obj q f c) = queue_ok c" "cohort_ok (upd_obj q f c) = cohort_ok c" "settled_ok (upd_obj q f c) = settled_ok c"
    unfolding queue_ok_def cohort_ok_def settled_ok_def settled_state_def fields upd_obj_fields by (rule refl)+
  with c have "queue_ok (upd_obj q f c)" "cohort_ok (upd_obj q f c)" "settled_ok (upd_obj q f c)"
    by (simp_all add: plane_ok_def)
  moreover have "entries_ok (upd_obj q f c)"
    using c same_entry_ok [OF f] by (auto simp: plane_defs)
  ultimately show ?thesis using c by (simp add: plane_ok_def)
qed

lemma settle_cases:
  "snd (settleLocked env q c) = c \<or> snd (settleLocked env q c) = upd_obj q (\<lambda>p. p\<lparr>paSettled := True\<rparr>) c"
  by (auto simp: settleLocked_def split: option.splits)

lemma settle_ok: "plane_ok c \<Longrightarrow> plane_ok (snd (settleLocked env q c))"
  using settle_cases [of env q c] by (auto intro!: upd_neutral simp: same_entry_def)

lemma settle_fields [simp]:
  "cPending (snd (settleLocked env q c)) = cPending c" "cQueue (snd (settleLocked env q c)) = cQueue c"
  "cSettled (snd (settleLocked env q c)) = cSettled c" "cGroupOwner (snd (settleLocked env q c)) = cGroupOwner c"
  "cActive (snd (settleLocked env q c)) = cActive c" "cGroup (snd (settleLocked env q c)) = cGroup c"
  "cObjs (snd (settleLocked env q c)) = cObjs c" "cBarrier (snd (settleLocked env q c)) = cBarrier c"
  using settle_cases [of env q c] by auto

lemma settle_same: "same_entry (cObj (snd (settleLocked env q c)) x) (cObj c x)"
  using settle_cases [of env q c] by (cases "x = q") (auto simp: same_entry_def)

lemma queued_entry:
  "plane_ok c \<Longrightarrow> q \<in> set (cQueue c) \<Longrightarrow> queued_ok (q \<in> set (cActive c)) (cObj c q)"
  by (auto simp: plane_defs)

lemma finish_leave:
  assumes "plane_ok c" and "q \<in> set (cQueue c)"
  shows "finish env state q c = leave q state (\<lambda>p. p\<lparr>paDone := True\<rparr>) (snd (settleLocked env q c))"
proof -
  have "\<not> paDone (cObj (snd (settleLocked env q c)) q)"
    using queued_entry [OF settle_ok [OF assms(1), of env q], of q] assms(2) by (simp add: queued_ok_def)
  then show ?thesis by (simp add: finish_def leave_def close_done_def removeLocked_def Let_def)
qed

lemma finish_ok:
  assumes "plane_ok c" and "q \<in> set (cQueue c)"
  shows "plane_ok (finish env state q c)"
  unfolding finish_leave [OF assms]
proof (rule leave_ok)
  show "plane_ok (snd (settleLocked env q c))" using assms(1) by (rule settle_ok)
  then show "left_ok ((cObj (snd (settleLocked env q c)) q)\<lparr>paDone := True\<rparr>)"
    using queued_entry [of "snd (settleLocked env q c)" q] assms(2) by (simp add: left_ok_def queued_ok_def)
qed (use assms in simp_all)

subsection \<open>Activation\<close>

lemma activate_cases:
  assumes c: "plane_ok c" and q: "q \<in> set (cQueue c)" "q \<notin> set (cActive c)"
  obtains (active) f where "snd (activateLocked env q c) = (upd_obj q f c)\<lparr>cActive := cActive c @ [q]\<rparr>" and "fst (activateLocked env q c)"
      and "queued_ok True (f (cObj c q))" and "paID (f (cObj c q)) = paID (cObj c q)" and "paGroup (f (cObj c q)) = paGroup (cObj c q)"
  | (failed) e where "snd (activateLocked env q c) = leave q ''persistence_failed'' (\<lambda>p. p\<lparr>paActivationErr := Some e, paDone := True\<rparr>) c"
      and "\<not> fst (activateLocked env q c)" and "paPublish (cObj c q)"
proof (cases "paPublish (cObj c q) \<and> validatePersistedApprovalEvent (persist_answer env (c\<lparr>cActive := cActive c @ [q]\<rparr>) q) \<noteq> None")
  case True
  then obtain e where e: "validatePersistedApprovalEvent (persist_answer env (c\<lparr>cActive := cActive c @ [q]\<rparr>) q) = Some e" by auto
  have "remove1 q (cActive c @ [q]) = cActive c" using q by (simp add: remove1_append)
  moreover from queued_entry [OF c q(1)] have "\<not> paDone (cObj c q)" by (simp add: queued_ok_def)
  moreover have "remove1 q (cActive c) = cActive c" using q(2) by (rule remove1_idem)
  ultimately have "snd (activateLocked env q c) = leave q ''persistence_failed'' (\<lambda>p. p\<lparr>paActivationErr := Some e, paDone := True\<rparr>) c"
    "\<not> fst (activateLocked env q c)"
    using True e
    by (simp_all add: activateLocked_def Let_def leave_def close_done_def removeLocked_def upd_obj_def)
  with True show ?thesis by (blast intro: failed)
next
  case False
  have entry: "queued_ok False (cObj c q)" using queued_entry [OF c q(1)] q(2) by simp
  let ?f = "\<lambda>p. p\<lparr>paPersisted := (paPublish p \<or> paPersisted p), paActivated := True\<rparr>"
  have "snd (activateLocked env q c) = (upd_obj q ?f c)\<lparr>cActive := cActive c @ [q]\<rparr>" "fst (activateLocked env q c)"
    using False entry
    by (auto simp: activateLocked_def Let_def close_activated_def upd_obj_def queued_ok_def)
  moreover have "queued_ok True (?f (cObj c q))" using entry by (simp add: queued_ok_def)
  ultimately show ?thesis by (rule active) simp_all
qed

lemma activate_succeeded:
  assumes "plane_ok c" and "q \<in> set (cQueue c)" and "q \<notin> set (cActive c)" and "activateLocked env q c = (True, c')"
  shows "cActive c' \<noteq> []"
  using assms(1-3)
proof (cases rule: activate_cases [where env = env])
  case (active f)
  with assms(4) show ?thesis by auto
qed (use assms(4) in simp)

lemma activate_ok:
  assumes c: "plane_ok c" and q: "q \<in> set (cQueue c)" "q \<notin> set (cActive c)"
    and same: "\<And>a. a \<in> set (cActive c) \<Longrightarrow> paGroup (cObj c a) = paGroup (cObj c q) \<and> paGroup (cObj c q) \<noteq> []"
    and grp: "cGroup c \<noteq> [] \<Longrightarrow> paGroup (cObj c q) = cGroup c" and head: "paGroup (cObj c q) = [] \<Longrightarrow> hd (cQueue c) = q"
  shows "plane_ok (snd (activateLocked env q c))"
  using c q
proof (cases rule: activate_cases [where env = env])
  case (active f)
  let ?c = "(upd_obj q f c)\<lparr>cActive := cActive c @ [q]\<rparr>"
  have fields: "paID (cObj ?c x) = paID (cObj c x)" "paGroup (cObj ?c x) = paGroup (cObj c x)" for x
    using active(4,5) by simp_all
  have "queue_ok ?c = queue_ok (c\<lparr>cActive := cActive c @ [q]\<rparr>)" "cohort_ok ?c = cohort_ok (c\<lparr>cActive := cActive c @ [q]\<rparr>)"
    unfolding queue_ok_def cohort_ok_def fields by simp_all
  moreover have "queue_ok (c\<lparr>cActive := cActive c @ [q]\<rparr>)" using c q by (simp add: plane_ok_def queue_ok_def)
  moreover have "cohort_ok (c\<lparr>cActive := cActive c @ [q]\<rparr>)"
    using c same grp head by (simp add: plane_ok_def cohort_ok_def) metis
  moreover have "entries_ok ?c" using c q active(3) by (auto simp: plane_ok_def entries_ok_def)
  moreover have "settled_ok ?c" using c by (simp add: plane_ok_def settled_ok_def settled_state_def)
  ultimately have "plane_ok ?c" using c by (simp add: plane_ok_def)
  with active(1) show ?thesis by (simp only:)
next
  case (failed e)
  have "left_ok ((cObj c q)\<lparr>paActivationErr := Some e, paDone := True\<rparr>)"
    using queued_entry [OF c q(1)] by (simp add: left_ok_def queued_ok_def)
  with c q show ?thesis unfolding failed(1) by (intro leave_ok) simp_all
qed

lemma group_parts:
  "queue_ok (clear_group c) = queue_ok c" "entries_ok (clear_group c) = entries_ok c" "settled_ok (clear_group c) = settled_ok c"
  "queue_ok (set_group q c) = queue_ok c" "entries_ok (set_group q c) = entries_ok c" "settled_ok (set_group q c) = settled_ok c"
  unfolding queue_ok_def entries_ok_def settled_ok_def settled_state_def clear_group_fields set_group_fields by (rule refl)+

lemma clear_group_ok: "plane_ok c \<Longrightarrow> plane_ok (clear_group c)"
  unfolding plane_ok_def group_parts cohort_ok_def clear_group_fields by blast

lemma set_group_ok: "plane_ok c \<Longrightarrow> cActive c = [] \<Longrightarrow> plane_ok (set_group q c)"
  unfolding plane_ok_def group_parts cohort_ok_def set_group_fields by simp

lemma next_head:
  assumes "queue_ok c" and "cActive c = []"
  shows "nextPendingLocked c [] = (case cQueue c of [] \<Rightarrow> None | q # _ \<Rightarrow> Some q)"
  using eligible_iff [OF assms(1)] assms(2) by (cases "cQueue c") (auto simp: nextPendingLocked_def)

lemma next_none:
  assumes "queue_ok c" and "nextPendingLocked c g = None" and "cActive c = []" and "g \<noteq> []"
  shows "\<forall>q \<in> set (cQueue c). paGroup (cObj c q) \<noteq> g"
  using assms eligible_iff [OF assms(1)] by (auto simp: nextPendingLocked_def find_None_iff)

text \<open>What holds when the activation loop returns.\<close>

definition settled_loop :: "approvalCoordinator \<Rightarrow> bool" where
  "settled_loop c \<longleftrightarrow> plane_ok c \<and> served c \<and>
     (cActive c = [] \<and> cGroup c \<noteq> [] \<longrightarrow> \<not> channelClosed c (cGroupDone c) \<and> (\<forall>q \<in> set (cQueue c). paGroup (cObj c q) \<noteq> cGroup c))"

lemma activate_next_ok: "plane_ok c \<Longrightarrow> settled_loop (activateNextLocked env c)"
proof (induction env c rule: activateNextLocked.induct)
  case (1 env c)
  from \<open>plane_ok c\<close> have qok: "queue_ok c" and coh: "cohort_ok c" by (simp_all add: plane_ok_def)
  show ?case
  proof (cases "cGroup c = []")
    case False
    show ?thesis
    proof (cases "nextPendingLocked c (cGroup c)")
      case None
      show ?thesis
      proof (cases "cActive c \<noteq> [] \<or> \<not> channelClosed c (cGroupDone c)")
        case True
        have "settled_loop c"
          using 1(4) True False next_none [OF qok None] by (auto simp: settled_loop_def served_def)
        with True False None show ?thesis by (simp add: activateNextLocked.simps [of env c])
      next
        case stay: False
        from 1(1) [OF False None stay] 1(4) have "settled_loop (activateNextLocked env (clear_group c))" by (simp add: clear_group_ok)
        with stay False None show ?thesis by (simp add: activateNextLocked.simps [of env c])
      qed
    next
      case (Some q)
      from nextPendingD [OF this] False have q: "q \<in> set (cQueue c)" "q \<notin> set (cActive c)" "paGroup (cObj c q) = cGroup c"
        by (auto simp: eligible_def isActiveLocked_def)
      have "plane_ok (snd (activateLocked env q c))"
        using 1(4) q coh False by (intro activate_ok) (auto simp: cohort_ok_def)
      from 1(2) [OF False Some this] Some False show ?thesis by (simp add: activateNextLocked.simps [of env c])
    qed
  next
    case True
    show ?thesis
    proof (cases "cActive c = []")
      case False
      then have "settled_loop c" using 1(4) by (simp add: settled_loop_def served_def)
      with True False show ?thesis by (simp add: activateNextLocked.simps [of env c])
    next
      case idle: True
      show ?thesis
      proof (cases "nextPendingLocked c []")
        case None
        then have "cQueue c = []" using next_head [OF qok idle] by (auto split: list.splits)
        then have "settled_loop c" using 1(4) True by (simp add: settled_loop_def served_def)
        with True idle None show ?thesis by (simp add: activateNextLocked.simps [of env c])
      next
        case (Some q)
        then have q: "q \<in> set (cQueue c)" "hd (cQueue c) = q" using next_head [OF qok idle] by (auto split: list.splits)
        let ?r = "activateLocked env q (set_group q c)"
        have ok: "plane_ok (snd ?r)"
        proof (rule activate_ok)
          show "plane_ok (set_group q c)" using 1(4) idle by (rule set_group_ok)
        qed (use q idle True in \<open>simp_all add: set_group_def split: if_splits\<close>)
        obtain b c' where r: "?r = (b, c')" by (cases ?r)
        show ?thesis
        proof (cases "b \<and> cGroup c' = []")
          case fin: True
          have "cActive c' \<noteq> []" using activate_succeeded [OF set_group_ok [OF 1(4) idle], of q q env c'] q idle r fin by simp
          then have "settled_loop c'" using ok r by (simp add: settled_loop_def served_def)
          with fin r Some idle True show ?thesis by (simp add: activateNextLocked.simps [of env c])
        next
          case False
          from 1(3) [OF _ _ Some r [symmetric] refl] ok r True idle False have "settled_loop (activateNextLocked env c')" by auto
          with False r Some idle True show ?thesis by (auto simp: activateNextLocked.simps [of env c])
        qed
      qed
    qed
  qed
qed

subsection \<open>The operations\<close>

lemma plane_frame:
  assumes "cQueue c' = cQueue c" "cActive c' = cActive c" "cPending c' = cPending c" "cObj c' = cObj c" "cObjs c' = cObjs c"
    "cGroup c' = cGroup c" "cSettled c' = cSettled c" "plane_ok c" "\<And>b. barrier_ok (cBarrier c' b)" "\<not> cFault c'"
  shows "plane_ok c'"
proof -
  have "queue_ok c' = queue_ok c" "entries_ok c' = entries_ok c" "settled_ok c' = settled_ok c" "cohort_ok c' = cohort_ok c"
    unfolding queue_ok_def entries_ok_def settled_ok_def settled_state_def cohort_ok_def assms(1-7) by (rule refl)+
  with assms(8-10) show ?thesis by (simp add: plane_ok_def)
qed

lemma filter_Not_update:
  "k < length xs \<Longrightarrow> \<not> xs ! k \<Longrightarrow> length (filter Not xs) = Suc (length (filter Not (xs[k := True])))"
proof (induction xs arbitrary: k)
  case (Cons x xs)
  then show ?case by (cases k) auto
qed simp

lemma all_fun_upd: "\<forall>x. P (f x) \<Longrightarrow> P v \<Longrightarrow> \<forall>x. P ((f(y := v)) x)"
  by simp

lemma pending_iff: "plane_ok c \<Longrightarrow> cPending c i = Some q \<longleftrightarrow> q \<in> set (cQueue c) \<and> paID (cObj c q) = i"
  unfolding plane_ok_def queue_ok_def by blast

lemma mark_cases:
  assumes "\<forall>b. barrier_ok (cBarrier c b)"
  shows "\<exists>B. MarkAdmissionComplete r c = c\<lparr>cBarrier := B\<rparr> \<and> (\<forall>b. barrier_ok (B b))"
proof (cases "MarkAdmissionComplete r c = c")
  case True
  then show ?thesis using assms by (intro exI [of _ "cBarrier c"]) simp
next
  case False
  then obtain step b where r: "r = Some step" "msAdmission step = Some b" and k: "nat (msIndex step) < length (amSeen (cBarrier c b))"
      "\<not> amSeen (cBarrier c b) ! nat (msIndex step)" and range: "\<not> (msIndex step < 0 \<or> msIndex step \<ge> msCallCount step)"
    by (auto simp: MarkAdmissionComplete_def Let_def split: option.splits if_splits)
  let ?a = "cBarrier c b" and ?k = "nat (msIndex step)"
  let ?a' = "?a\<lparr>amSeen := (amSeen ?a)[?k := True], amRemaining := amRemaining ?a - 1\<rparr>"
  from assms have a: "barrier_ok ?a" by blast
  have len: "length (filter Not (amSeen ?a)) = Suc (length (filter Not ((amSeen ?a)[?k := True])))"
    by (rule filter_Not_update) (use k in auto)
  with a have open': "\<not> amDone ?a" and rem: "amRemaining ?a' = int (length (filter Not (amSeen ?a')))"
    by (auto simp: barrier_ok_def)
  let ?b = "if amRemaining ?a' = 0 then ?a'\<lparr>amDone := True\<rparr> else ?a'"
  have "MarkAdmissionComplete r c = c\<lparr>cBarrier := (cBarrier c)(b := ?b)\<rparr>"
    using r k range open' by (simp add: MarkAdmissionComplete_def Let_def)
  moreover have "barrier_ok ?b" using rem open' k(1) by (auto simp: barrier_ok_def)
  with assms have "\<forall>x. barrier_ok (((cBarrier c)(b := ?b)) x)" by (rule all_fun_upd)
  ultimately show ?thesis by blast
qed

lemma mark_ok:
  assumes "plane_ok c"
  shows "plane_ok (MarkAdmissionComplete r c)" and "served (MarkAdmissionComplete r c) = served c"
proof -
  from assms have "\<forall>b. barrier_ok (cBarrier c b)" by (simp add: plane_ok_def)
  from mark_cases [OF this, of r] obtain B where B: "MarkAdmissionComplete r c = c\<lparr>cBarrier := B\<rparr>" "\<And>b. barrier_ok (B b)" by blast
  show "plane_ok (MarkAdmissionComplete r c)"
    unfolding B(1) by (rule plane_frame [where c = c]) (use assms B(2) in \<open>simp_all add: plane_ok_def\<close>)
  show "served (MarkAdmissionComplete r c) = served c" unfolding B(1) by (simp add: served_def)
qed

lemma cohort_frame:
  assumes c: "cohort_ok c" and act: "cActive c' = cActive c" and grp: "cGroup c' = cGroup c"
    and eq: "\<And>a. a \<in> set (cActive c) \<Longrightarrow> paGroup (cObj c' a) = paGroup (cObj c a)"
    and hd: "\<And>a. a \<in> set (cActive c) \<Longrightarrow> hd (cQueue c') = hd (cQueue c)"
  shows "cohort_ok c'"
  unfolding cohort_ok_def act grp
proof (intro conjI ballI impI)
  fix a assume a: "a \<in> set (cActive c)"
  show "paGroup (cObj c' a) = cGroup c" if "cGroup c \<noteq> []"
    using c a that eq [OF a] unfolding cohort_ok_def by simp
  show "hd (cQueue c') = a" if "paGroup (cObj c' a) = []"
    using c a that eq [OF a] hd [OF a] unfolding cohort_ok_def by simp
  fix b assume b: "b \<in> set (cActive c)" and ne: "a \<noteq> b"
  from c a b ne have "paGroup (cObj c a) = paGroup (cObj c b)" "paGroup (cObj c a) \<noteq> []" unfolding cohort_ok_def by blast+
  then show "paGroup (cObj c' a) = paGroup (cObj c' b)" "paGroup (cObj c' a) \<noteq> []"
    using eq [OF a] eq [OF b] by simp_all
qed

lemma admit_ok:
  assumes c: "plane_ok c" and free: "cPending c (paID p) = None" and new: "settled_state c (paID p) = []" and p: "queued_ok False p"
  shows "plane_ok (admit p c)"
proof -
  let ?c = "admit p c" and ?q = "cObjs c"
  have [simp]: "cQueue ?c = cQueue c @ [?q]" "cActive ?c = cActive c" "cPending ?c = (cPending c)(paID p \<mapsto> ?q)" "cSettled ?c = cSettled c"
    "cObj ?c = (cObj c)(?q := p)" "cObjs ?c = Suc ?q" "cGroup ?c = cGroup c" "cBarrier ?c = cBarrier c" "cFault ?c = cFault c"
    by (simp_all add: admit_def Let_def)
  from c have bound: "\<And>q. q \<in> set (cQueue c) \<Longrightarrow> q < ?q" and sub: "set (cActive c) \<subseteq> set (cQueue c)" by (auto simp: plane_defs)
  then have fresh: "?q \<notin> set (cQueue c)" "?q \<notin> set (cActive c)" by auto
  have other: "paID (cObj c q) \<noteq> paID p" if "q \<in> set (cQueue c)" for q
    using that free pending_iff [OF c, of "paID p" q] by auto
  have "queue_ok ?c"
    using c free fresh bound other unfolding plane_ok_def queue_ok_def by (auto simp: less_SucI)
  moreover have "entries_ok ?c"
    using c p fresh by (auto simp: plane_ok_def entries_ok_def less_Suc_eq)
  moreover have "cohort_ok ?c"
  proof -
    have "cohort_ok c" using c by (simp add: plane_ok_def)
    then show ?thesis
    proof (rule cohort_frame)
      show "hd (cQueue ?c) = hd (cQueue c)" if "a \<in> set (cActive c)" for a
        using that sub by (cases "cQueue c") auto
    qed (use fresh in auto)
  qed
  moreover have "settled_ok ?c"
    using c new by (auto simp: plane_ok_def settled_ok_def settled_state_def)
  ultimately show ?thesis using c by (simp add: plane_ok_def)
qed

lemma group_of_publish: "queued_ok False (new_pending i owner req publish)"
  by (simp add: queued_ok_def new_pending_def Let_def)

lemma request_id_cases: "snd (request_id req c) = c \<or> snd (request_id req c) = c\<lparr>cRequests := cRequests c + 1\<rparr>"
  by (simp add: request_id_def Let_def)

lemma requests_ok: "plane_ok c \<Longrightarrow> plane_ok (c\<lparr>cRequests := n\<rparr>)"
  by (rule plane_frame [where c = c]) (simp_all add: plane_ok_def)

lemma count_ok: "plane_ok c \<Longrightarrow> plane_ok (snd (request_id req c)) \<and> served (snd (request_id req c)) = served c"
  using request_id_cases [of req c] requests_ok [of c "cRequests c + 1"] by (auto simp: served_def)

lemma settled_loopD: "settled_loop c \<Longrightarrow> plane_ok c \<and> served c"
  by (simp add: settled_loop_def)

lemma enqueue_ok:
  assumes "plane_ok c" and "served c"
  shows "plane_ok (snd (enqueue env owner req publish c)) \<and> served (snd (enqueue env owner req publish c))"
proof -
  let ?req = "map_option clone_request req"
  obtain i c1 where r: "request_id ?req c = (i, c1)" by (cases "request_id ?req c")
  with assms count_ok [of c ?req] have c1: "plane_ok c1" "served c1" by simp_all
  let ?c2 = "activateNextLocked env (MarkAdmissionComplete (Option.bind ?req rqModelStep) (admit (new_pending i owner ?req publish) c1))"
  have "plane_ok ?c2 \<and> served ?c2" if "cPending c1 i = None" "settled_state c1 i = []"
  proof -
    have "paID (new_pending i owner ?req publish) = i" by (simp add: new_pending_def Let_def)
    with that c1 have "plane_ok (admit (new_pending i owner ?req publish) c1)"
      by (intro admit_ok) (simp_all add: group_of_publish)
    then show ?thesis by (intro settled_loopD activate_next_ok mark_ok)
  qed
  with c1 assms r show ?thesis
    by (auto simp: enqueue_def Let_def split: option.splits)
qed

lemma decide_ok:
  assumes c: "plane_ok c" and q: "q \<in> set (cQueue c)" "q \<in> set (cActive c)"
    and r: "ResolveNativeResponse (permission_of (cObj c q)) rsp = Inr r"
  shows "plane_ok (removeLocked q state (send_decision q (resolved_decision (paID (cObj c q)) r d) c))"
proof -
  let ?d = "resolved_decision (paID (cObj c q)) r d"
  have entry: "queued_ok True (cObj c q)" using queued_entry [OF c q(1)] q(2) by simp
  then have "removeLocked q state (send_decision q ?d c) = leave q state (\<lambda>p. p\<lparr>paSent := [?d]\<rparr>) c"
    by (simp add: leave_def send_decision_def removeLocked_def Let_def queued_ok_def upd_obj_def)
  moreover have "left_ok ((cObj c q)\<lparr>paSent := [?d]\<rparr>)"
    using entry r by (auto simp: left_ok_def delivered_ok_def queued_ok_def resolved_decision_def permission_of_def)
  ultimately show ?thesis using c q(1) by (simp add: leave_ok)
qed

lemma resolveLocked_ok:
  assumes c: "plane_ok c" "served c"
  shows "plane_ok (snd (resolveLocked env q d c)) \<and> served (snd (resolveLocked env q d c))"
proof (cases "cPending c (paID (cObj c q)) = Some q \<and> isActiveLocked c q")
  case True
  then have q: "q \<in> set (cQueue c)" "q \<in> set (cActive c)"
    using pending_iff [OF c(1)] by (auto simp: isActiveLocked_def)
  let ?c1 = "snd (settleLocked env q c)"
  have c1: "plane_ok ?c1" "served ?c1" using c by (simp_all add: settle_ok served_def)
  have p: "paID (cObj ?c1 q) = paID (cObj c q)" "permission_of (cObj ?c1 q) = permission_of (cObj c q)"
    using settle_same [of env q c q] by (simp_all add: same_entry_def permission_of_def)
  show ?thesis
  proof (cases "ResolveNativeResponse (permission_of (cObj c q)) (decision_response d)")
    case (Inl e)
    with True c show ?thesis by (simp add: resolveLocked_def Let_def)
  next
    case (Inr r)
    have "plane_ok (removeLocked q ''resolved'' (send_decision q (resolved_decision (paID (cObj ?c1 q)) r d) ?c1))"
      using Inr q p by (intro decide_ok [OF c1(1)]) simp_all
    then have "plane_ok (removeLocked q ''resolved'' (send_decision q (resolved_decision (paID (cObj c q)) r d) ?c1))"
      by (simp only: p)
    note fin = settled_loopD [OF activate_next_ok [OF this, of env]]
    obtain e c' where s: "settleLocked env q c = (e, c')" by (cases "settleLocked env q c")
    with True Inr c1 fin show ?thesis by (cases e) (simp_all add: resolveLocked_def Let_def)
  qed
next
  case False
  then show ?thesis using c by (auto simp: resolveLocked_def Let_def)
qed

lemma submit_ok: "plane_ok c \<Longrightarrow> served c \<Longrightarrow> plane_ok (snd (submit env d c)) \<and> served (snd (submit env d c))"
  using resolveLocked_ok [of c env _ d] by (auto simp: submit_def Let_def split: option.splits)

lemma resolve_ok: "plane_ok c \<Longrightarrow> served c \<Longrightarrow> plane_ok (snd (resolve env q d c)) \<and> served (snd (resolve env q d c))"
  using resolveLocked_ok [of c env _ d] by (auto simp: resolve_def split: option.splits)

lemma release_plane_ok: "plane_ok c \<Longrightarrow> served c \<Longrightarrow> plane_ok (release env q state c) \<and> served (release env q state c)"
  using settled_loopD [OF activate_next_ok [OF finish_ok [of c _ env state]], of _ env] pending_iff [of c]
  by (auto simp: release_def split: option.splits)

lemma finish_all_ok: "plane_ok c \<Longrightarrow> plane_ok (finish_all env state chosen qs c)"
proof (induction qs arbitrary: c)
  case (Cons q qs)
  then show ?case using finish_ok [of c q env state] pending_iff [of c "paID (cObj c q)" q] by simp
qed simp

lemma cancel_review_same: "same_entry (cancel_review p) p"
  by (simp add: cancel_review_def same_entry_def)

lemma invalidate_loop_ok: "plane_ok c \<Longrightarrow> plane_ok (invalidate_loop env qs c)"
proof (induction qs arbitrary: c)
  case (Cons q qs)
  have "plane_ok (upd_obj q cancel_review c)" using Cons.prems cancel_review_same by (rule upd_neutral)
  with Cons finish_ok [of "upd_obj q cancel_review c" q env "''cancelled''"] pending_iff [of c "paID (cObj c q)" q]
  show ?case by simp
qed simp

lemma abandon_ok:
  assumes "plane_ok c" and "served c"
  shows "plane_ok (abandonOwner env owner state c) \<and> served (abandonOwner env owner state c)"
proof (cases owner)
  case (Some h)
  let ?c1 = "finish_all env state (\<lambda>p. paOwner p = Some h \<and> \<not> paDetached p) (cQueue c) c"
  have "plane_ok ?c1" using assms(1) by (rule finish_all_ok)
  then have "plane_ok (if cGroupOwner ?c1 = Some h then clear_group ?c1 else ?c1)" by (simp add: clear_group_ok)
  then show ?thesis unfolding abandonOwner_def Some option.case Let_def by (intro settled_loopD activate_next_ok)
qed (use assms in \<open>simp add: abandonOwner_def\<close>)

text \<open>Clearing is finishing every pending entry: the loop leaves the two lists alone and empties them at the end.\<close>

fun finish_ids :: "turn_env \<Rightarrow> string \<Rightarrow> string list \<Rightarrow> approvalCoordinator \<Rightarrow> approvalCoordinator" where
  "finish_ids env state [] c = c"
| "finish_ids env state (i # is) c =
     finish_ids env state is (case cPending c i of None \<Rightarrow> c | Some q \<Rightarrow> finish env state q c)"

lemma settle_lists:
  "settleLocked env q (c\<lparr>cQueue := x, cActive := y\<rparr>) = apsnd (\<lambda>c. c\<lparr>cQueue := x, cActive := y\<rparr>) (settleLocked env q c)"
  by (simp add: settleLocked_def settle_answer_def upd_obj_def split: option.splits)

lemma clear_loop_finish:
  assumes "plane_ok c"
  shows "(clear_loop env state ids (c\<lparr>cQueue := x, cActive := y\<rparr>))\<lparr>cQueue := [], cActive := []\<rparr> =
         (finish_ids env state ids c)\<lparr>cQueue := [], cActive := []\<rparr>"
  using assms
proof (induction ids arbitrary: c)
  case (Cons i ids)
  show ?case
  proof (cases "cPending c i")
    case None
    with Cons show ?thesis by simp
  next
    case (Some q)
    let ?c1 = "snd (settleLocked env q c)" and ?l = "\<lambda>c. c\<lparr>cQueue := x, cActive := y\<rparr>"
    from Some Cons.prems have q: "q \<in> set (cQueue c)" "paID (cObj c q) = i" by (simp_all add: pending_iff)
    then have i: "paID (cObj ?c1 q) = i" using settle_same [of env q c q] by (simp add: same_entry_def)
    have "close_done q ((?l ?c1)\<lparr>cPending := (cPending ?c1)(i := None), cSettled := (cSettled ?c1)(i \<mapsto> TrimSpace state)\<rparr>) =
          ?l (finish env state q c)"
      by (simp add: finish_def close_done_def removeLocked_def i Let_def upd_obj_def del: settle_fields)
    moreover have "plane_ok (finish env state q c)" using Cons.prems q(1) by (rule finish_ok)
    ultimately show ?thesis using Some Cons.IH by (simp add: settle_lists Let_def)
  qed
qed simp

lemma finish_ids_pending:
  "plane_ok c \<Longrightarrow> plane_ok (finish_ids env state ids c) \<and>
     (\<forall>i. cPending (finish_ids env state ids c) i = (if i \<in> set ids then None else cPending c i))"
proof (induction ids arbitrary: c)
  case (Cons j ids)
  show ?case
  proof (cases "cPending c j")
    case None
    with Cons show ?thesis by auto
  next
    case (Some q)
    with Cons.prems have q: "q \<in> set (cQueue c)" "paID (cObj c q) = j" by (simp_all add: pending_iff)
    have "plane_ok (finish env state q c)" using Cons.prems q(1) by (rule finish_ok)
    moreover have "cPending (finish env state q c) = (cPending c)(j := None)"
      using q settle_same [of env q c q] by (simp add: finish_leave [OF Cons.prems q(1)] leave_def removeLocked_def Let_def same_entry_def)
    ultimately show ?thesis using Some Cons.IH [of "finish env state q c"] by auto
  qed
qed simp

lemma lists_same: "cQueue c = x \<Longrightarrow> cActive c = y \<Longrightarrow> c\<lparr>cQueue := x, cActive := y\<rparr> = c"
  by (cases c) simp

lemma clear_all_ok:
  assumes c: "plane_ok c" and order: "set order = dom (cPending c)"
  shows "clear_all env order state c = clear_group (finish_ids env state order c)"
    and "plane_ok (clear_all env order state c)" and "cQueue (clear_all env order state c) = []"
proof -
  let ?f = "finish_ids env state order c"
  from finish_ids_pending [OF c, of env state order] order have f: "plane_ok ?f" "cPending ?f = Map.empty"
    by (auto simp: fun_eq_iff dom_def)
  then have "set (cQueue ?f) = {}" using pending_iff [OF f(1)] by (metis ex_in_conv option.distinct(1))
  moreover from f(1) have "set (cActive ?f) \<subseteq> set (cQueue ?f)" by (simp add: plane_ok_def queue_ok_def)
  ultimately have lists: "cQueue ?f = []" "cActive ?f = []" by auto
  show eq: "clear_all env order state c = clear_group ?f"
    using clear_loop_finish [OF c, where x = "cQueue c" and y = "cActive c"] lists by (simp add: clear_all_def lists_same)
  show "plane_ok (clear_all env order state c)" unfolding eq using f(1) by (rule clear_group_ok)
  show "cQueue (clear_all env order state c) = []" unfolding eq using lists by simp
qed

lemma review_ok: "plane_ok c \<Longrightarrow> plane_ok (attach_review q c)"
  unfolding attach_review_def by (rule upd_neutral) (simp_all add: same_entry_def)

lemma watch_ok:
  "plane_ok c \<Longrightarrow> served c \<Longrightarrow> plane_ok (watchParallelAdmissionLocked env g ch c) \<and> served (watchParallelAdmissionLocked env g ch c)"
  using settled_loopD [OF activate_next_ok, of c env] by (simp add: watchParallelAdmissionLocked_def)

lemma new_barrier_ok:
  assumes "plane_ok c" and "NewConcurrentModelStepRefs b i n = Some (a, refs)"
  shows "plane_ok (c\<lparr>cBarrier := (cBarrier c)(b := a)\<rparr>)"
proof -
  from assms(2) have "barrier_ok a" by (auto simp: NewConcurrentModelStepRefs_def barrier_ok_def split: if_splits)
  with assms(1) have "barrier_ok (((cBarrier c)(b := a)) x)" for x by (simp add: plane_ok_def)
  with assms(1) show ?thesis by (intro plane_frame [where c = c and c' = "c\<lparr>cBarrier := (cBarrier c)(b := a)\<rparr>"]) (simp_all add: plane_ok_def)
qed

lemma step_ok: "approval_step c c' \<Longrightarrow> plane_ok c \<and> served c \<Longrightarrow> plane_ok c' \<and> served c'"
proof (induction rule: approval_step.induct)
  case (clear order c env state)
  then show ?case using clear_all_ok [of c order env state] by (simp add: served_def)
next
  case (invalidate c env)
  then show ?case unfolding invalidateAutoReviews_def by (intro settled_loopD activate_next_ok invalidate_loop_ok) simp
next
  case (new_step b i n a refs c)
  then show ?case using new_barrier_ok [of c b i n a refs] by (simp add: served_def)
next
  case (review c q)
  then show ?case by (simp add: review_ok) (simp add: attach_review_def served_def)
qed (simp_all add: enqueue_ok submit_ok resolve_ok release_plane_ok abandon_ok watch_ok mark_ok)

interpretation approvals: step_system "newApprovalCoordinator sid" approval_step "\<lambda>c. plane_ok c \<and> served c" for sid
  by unfold_locales (use new_ok step_ok in blast)+

lemma plane_reachable: "approval_reachable sid c \<Longrightarrow> plane_ok c \<and> served c"
  unfolding approval_reachable_def by (rule approvals.reachable_inv)

section \<open>What the queue guarantees\<close>

lemma distinct_singleton: "distinct xs \<Longrightarrow> set xs = {x} \<Longrightarrow> xs = [x]"
  by (cases xs; cases "tl xs") auto

lemma active_pair:
  assumes "plane_ok c" and "q \<in> set (cActive c)" and "q' \<in> set (cActive c)" and "q' \<noteq> q"
  shows "paGroup (cObj c q') = paGroup (cObj c q) \<and> paGroup (cObj c q) \<noteq> []"
  using assms unfolding plane_ok_def cohort_ok_def by metis

lemma active_cohort_shape:
  assumes c: "plane_ok c" and q: "q \<in> set (cActive c)" and pub: "paPublish (cObj c q)"
  shows "cActive c = [q] \<and> hd (cQueue c) = q \<and> paPersisted (cObj c q)"
proof -
  have qq: "q \<in> set (cQueue c)" "distinct (cActive c)" using c q by (auto simp: plane_ok_def queue_ok_def)
  have "queued_ok True (cObj c q)" using queued_entry [OF c qq(1)] q by simp
  with pub have grp: "paGroup (cObj c q) = []" "paPersisted (cObj c q)" by (simp_all add: queued_ok_def)
  with active_pair [OF c q] have "set (cActive c) = {q}" using q by blast
  with qq(2) have "cActive c = [q]" by (rule distinct_singleton)
  moreover from c q grp(1) have "hd (cQueue c) = q" unfolding plane_ok_def cohort_ok_def by blast
  ultimately show ?thesis using grp by simp
qed

text \<open>C12 (invariant).  In every reachable state of the approval plane at most one request is active, or the
  active requests are automatic reviews of one model step.  An active manual request is
  alone, is the head of the queue and was made durable before it could be answered.\<close>

theorem active_cohort:
  assumes "approval_reachable sid c" and "q \<in> set (cActive c)"
  shows "(if paPublish (cObj c q) then cActive c = [q] \<and> hd (cQueue c) = q \<and> paPersisted (cObj c q)
          else \<forall>q' \<in> set (cActive c). q' = q \<or> paGroup (cObj c q') = paGroup (cObj c q) \<and> paGroup (cObj c q) \<noteq> [])"
  using plane_reachable [OF assms(1)] assms(2) active_pair [of c q] active_cohort_shape [of c q] by auto

text \<open>The activation loop never revokes an answer and never touches an entry outside the queue.\<close>

lemma activate_keeps:
  "paSent (cObj (snd (activateLocked env q c)) x) = paSent (cObj c x)"
  "paReview (cObj (snd (activateLocked env q c)) x) = paReview (cObj c x)"
  "x \<noteq> q \<Longrightarrow> cObj (snd (activateLocked env q c)) x = cObj c x"
  "cObjs (snd (activateLocked env q c)) = cObjs c"
  by (auto simp: activateLocked_def Let_def close_done_def close_activated_def removeLocked_def split: option.splits)

lemma queue_shrinks: "set (cQueue (snd (activateLocked env q c))) \<subseteq> set (cQueue c)"
  using set_remove1_subset [of q "cQueue c"]
  by (auto simp: activateLocked_def Let_def close_done_def close_activated_def removeLocked_def split: option.splits)

lemma next_rule:
  assumes same: "\<And>c. R c c" and trans: "\<And>a b c. R a b \<Longrightarrow> R b c \<Longrightarrow> R a c"
    and grp: "\<And>q c. R c (set_group q c)" "\<And>c. R c (clear_group c)"
    and act: "\<And>q c. q \<in> set (cQueue c) \<Longrightarrow> eligible c q \<Longrightarrow> R c (snd (activateLocked env q c))"
  shows "R c (activateNextLocked env c)"
  using act
proof (induction env c rule: activateNextLocked.induct)
  case (1 env c)
  show ?case
  proof (cases "cGroup c = []")
    case False
    show ?thesis
    proof (cases "nextPendingLocked c (cGroup c)")
      case None
      show ?thesis
      proof (cases "cActive c \<noteq> [] \<or> \<not> channelClosed c (cGroupDone c)")
        case True
        with same False None show ?thesis by (simp add: activateNextLocked.simps [of env c])
      next
        case stay: False
        from trans [OF grp(2) 1(1) [OF False None stay 1(4)]] show ?thesis
          using stay False None by (simp add: activateNextLocked.simps [of env c])
      qed
    next
      case (Some q)
      have "R c (snd (activateLocked env q c))" using 1(4) nextPendingD [OF Some] by blast
      from trans [OF this 1(2) [OF False Some 1(4)]] show ?thesis
        using Some False by (simp add: activateNextLocked.simps [of env c])
    qed
  next
    case True
    show ?thesis
    proof (cases "cActive c = [] \<and> nextPendingLocked c [] \<noteq> None")
      case False
      with same True show ?thesis by (auto simp: activateNextLocked.simps [of env c] split: option.splits)
    next
      case idle: True
      then obtain q where Some: "nextPendingLocked c [] = Some q" by auto
      obtain b c' where r: "activateLocked env q (set_group q c) = (b, c')" by (cases "activateLocked env q (set_group q c)")
      have c': "R c c'" using trans [OF grp(1) 1(4) [of q "set_group q c"]] nextPendingD [OF Some] r by simp
      show ?thesis
      proof (cases "b \<and> cGroup c' = []")
        case fin: True
        with c' r Some idle True show ?thesis by (simp add: activateNextLocked.simps [of env c])
      next
        case False
        from 1(3) [OF _ _ Some r [symmetric] refl False 1(4)] True idle have "R c' (activateNextLocked env c')" by simp
        with c' have "R c (activateNextLocked env c')" by (rule trans)
        with False r Some idle True show ?thesis by (auto simp: activateNextLocked.simps [of env c])
      qed
    qed
  qed
qed

definition keeps :: "approvalCoordinator \<Rightarrow> approvalCoordinator \<Rightarrow> bool" where
  "keeps c c' \<longleftrightarrow> set (cQueue c') \<subseteq> set (cQueue c) \<and> (\<forall>x. paSent (cObj c' x) = paSent (cObj c x)) \<and>
     (\<forall>x. x \<notin> set (cQueue c) \<longrightarrow> cObj c' x = cObj c x)"

lemma next_keeps: "keeps c (activateNextLocked env c)"
proof (rule next_rule)
  show "keeps c (snd (activateLocked env q c))" if "q \<in> set (cQueue c)" for q c
    unfolding keeps_def using that queue_shrinks [of env q c] activate_keeps(3) [of _ q env c]
    by (simp add: activate_keeps(1)) metis
  show "keeps a c" if "keeps a b" "keeps b c" for a b c
    using that unfolding keeps_def by (metis subset_iff)
qed (auto simp: keeps_def)

text \<open>C9 (safety).  Every admitted request is answered exactly once: while it waits in the queue its
  tool call has no outcome, and once it has left the queue exactly one outcome is ready, a
  decision or the closed channel.  No channel is closed twice and no decision is sent into a
  full channel.\<close>

theorem answered_exactly_once:
  assumes "approval_reachable sid c" and "q < cObjs c"
  shows "\<not> cFault c \<and> length (waitForApprovalDecision (cObj c q)) = (if q \<in> set (cQueue c) then 0 else 1)"
proof -
  from plane_reachable [OF assms(1)] have c: "entries_ok c" "\<not> cFault c" by (simp_all add: plane_ok_def)
  with assms(2) have "if q \<in> set (cQueue c) then queued_ok (q \<in> set (cActive c)) (cObj c q) else left_ok (cObj c q)"
    by (simp add: entries_ok_def)
  with c(2) show ?thesis
    by (auto simp: queued_ok_def left_ok_def waitForApprovalDecision_def split: if_splits)
qed

text \<open>C3 (safety).  End to end through queue and resolution: if a tool call with a permission that offers
  options is released with an approval, an option of an allow kind was offered, and the
  selected option is one.\<close>

theorem executed_approval_was_offered:
  assumes "approval_reachable sid c" and "q < cObjs c" and "WaitDecision r \<in> set (waitForApprovalDecision (cObj c q))"
    and "rspApproved r" and "permission_of (cObj c q) = Some p" and "apOptions p \<noteq> []"
  shows "\<exists>opt \<in> set (apOptions p). strictOptionDecision (oKind opt) = Some OptionDecisionAllow \<and>
           (rspOptionID r = [] \<or> oID opt = rspOptionID r)"
proof -
  from plane_reachable [OF assms(1)] assms(2)
  have entry: "if q \<in> set (cQueue c) then queued_ok (q \<in> set (cActive c)) (cObj c q) else left_ok (cObj c q)"
    by (simp add: plane_ok_def entries_ok_def)
  from assms(3) obtain d where d: "d \<in> set (paSent (cObj c q))" "r = decision_response d"
    by (auto simp: waitForApprovalDecision_def split: if_splits option.splits)
  with entry have "delivered_ok (cObj c q) d" by (auto simp: queued_ok_def left_ok_def split: if_splits)
  then obtain rsp r' where "ResolveNativeResponse (Some p) rsp = Inr r'" "rspOptionID r' = rspOptionID r" "rspApproved r' = rspApproved r"
    using assms(5) d(2) by (auto simp: delivered_ok_def decision_response_def)
  with approved_allow_option [of p rsp r'] assms(4,6) show ?thesis by simp
qed


lemma finish_other: "x \<noteq> q \<Longrightarrow> cObj (finish env state q c) x = cObj c x"
  using settle_cases [of env q c] by (auto simp: finish_def close_done_def removeLocked_def Let_def)

lemma finish_queue [simp]: "cQueue (finish env state q c) = remove1 q (cQueue c)" "cObjs (finish env state q c) = cObjs c"
  by (simp_all add: finish_def close_done_def removeLocked_def Let_def)

lemma finish_self:
  assumes "plane_ok c" and "q \<in> set (cQueue c)"
  shows "paDone (cObj (finish env state q c) q)" and "paActivationErr (cObj (finish env state q c) q) = None"
    and "paReview (cObj (finish env state q c) q) = paReview (cObj c q)" and "q \<notin> set (cQueue (finish env state q c))"
proof -
  have entry: "queued_ok (q \<in> set (cActive c)) (cObj c q)" using assms by (rule queued_entry)
  show "paDone (cObj (finish env state q c) q)" "paReview (cObj (finish env state q c) q) = paReview (cObj c q)"
    "paActivationErr (cObj (finish env state q c) q) = None"
    using entry settle_cases [of env q c] by (auto simp: finish_def close_done_def removeLocked_def Let_def queued_ok_def)
  show "q \<notin> set (cQueue (finish env state q c))" using assms by (simp add: plane_ok_def queue_ok_def)
qed

text \<open>One round of the invalidation loop.\<close>

lemma invalidate_round:
  fixes env q c
  defines "c' \<equiv> (if paPublish (cObj c q) \<or> cPending c (paID (cObj c q)) \<noteq> Some q then c
                  else finish env ''cancelled'' q (upd_obj q cancel_review c))"
  assumes c: "plane_ok c"
  shows "plane_ok c'" and "x \<notin> set (cQueue c) \<Longrightarrow> cObj c' x = cObj c x \<and> x \<notin> set (cQueue c')"
    and "x \<noteq> q \<Longrightarrow> cObj c' x = cObj c x" and "x \<noteq> q \<Longrightarrow> x \<in> set (cQueue c') \<longleftrightarrow> x \<in> set (cQueue c)"
    and "q \<in> set (cQueue c) \<Longrightarrow> \<not> paPublish (cObj c q) \<Longrightarrow>
           paDone (cObj c' q) \<and> paActivationErr (cObj c' q) = None \<and> paReview (cObj c' q) \<noteq> ReviewRunning \<and> q \<notin> set (cQueue c')"
proof -
  let ?u = "upd_obj q cancel_review c"
  have u: "plane_ok ?u" using c cancel_review_same by (rule upd_neutral)
  note iff = pending_iff [OF c, of "paID (cObj c q)" q]
  show "plane_ok c'" using c finish_ok [OF u, of q env "''cancelled''"] iff by (auto simp: c'_def)
  show other: "cObj c' x = cObj c x" if "x \<noteq> q" for x using that finish_other [of x q env "''cancelled''" ?u] by (simp add: c'_def)
  show "x \<in> set (cQueue c') \<longleftrightarrow> x \<in> set (cQueue c)" if "x \<noteq> q" for x
    using that by (simp add: c'_def)
  then show "cObj c' x = cObj c x \<and> x \<notin> set (cQueue c')" if "x \<notin> set (cQueue c)" for x
    using that other [of x] iff by (cases "x = q") (auto simp: c'_def)
  show "paDone (cObj c' q) \<and> paActivationErr (cObj c' q) = None \<and> paReview (cObj c' q) \<noteq> ReviewRunning \<and> q \<notin> set (cQueue c')"
    if "q \<in> set (cQueue c)" "\<not> paPublish (cObj c q)"
  proof -
    have "c' = finish env ''cancelled'' q ?u" using that iff by (simp add: c'_def)
    with finish_self [OF u, of q env "''cancelled''"] that(1) show ?thesis by (simp add: cancel_review_def)
  qed
qed

lemma invalidate_keeps:
  "plane_ok c \<Longrightarrow> x \<notin> set (cQueue c) \<Longrightarrow> cObj (invalidate_loop env qs c) x = cObj c x \<and> x \<notin> set (cQueue (invalidate_loop env qs c))"
proof (induction qs arbitrary: c)
  case (Cons q qs)
  note r = invalidate_round [where env = env and q = q, OF Cons.prems(1)]
  show ?case unfolding invalidate_loop.simps
    using Cons.IH [OF r(1)] r(2) [OF Cons.prems(2)] by simp
qed simp

lemma invalidate_done:
  "plane_ok c \<Longrightarrow> q \<in> set (cQueue c) \<Longrightarrow> \<not> paPublish (cObj c q) \<Longrightarrow> q \<in> set qs \<Longrightarrow>
   (let p = cObj (invalidate_loop env qs c) q
    in paDone p \<and> paActivationErr p = None \<and> paReview p \<noteq> ReviewRunning \<and> q \<notin> set (cQueue (invalidate_loop env qs c)))"
proof (induction qs arbitrary: c)
  case (Cons x qs)
  note r = invalidate_round [where env = env and q = x, OF Cons.prems(1)]
  show ?case
  proof (cases "x = q")
    case True
    note fin = r(5) [unfolded True, OF Cons.prems(2,3)]
    show ?thesis unfolding invalidate_loop.simps True
      using invalidate_keeps [OF r(1) [unfolded True], of q env qs] fin by (simp add: Let_def)
  next
    case False
    then have "q \<in> set qs" using Cons.prems(4) by simp
    with Cons.IH [OF r(1)] r(3,4) [of q] False Cons.prems(2,3) show ?thesis unfolding invalidate_loop.simps by simp
  qed
qed simp

text \<open>C18 (safety).  Steering cancels every automatic review that waits or runs: its tool call is released without a
  decision, its reviewer's context is cancelled, and a verdict that arrives later is refused
  and changes nothing.\<close>

theorem steering_cancels_reviews:
  assumes "approval_reachable sid c" and "q \<in> set (cQueue c)" and "\<not> paPublish (cObj c q)"
  shows "(let c' = invalidateAutoReviews env c
          in waitForApprovalDecision (cObj c' q) = [WaitCanceled] \<and> paReview (cObj c' q) \<noteq> ReviewRunning \<and>
             fst (resolve env' (Some q) d c') \<noteq> None \<and> snd (resolve env' (Some q) d c') = c')"
proof -
  from plane_reachable [OF assms(1)] have c: "plane_ok c" by simp
  let ?l = "invalidate_loop env (cQueue c) c" and ?c = "invalidateAutoReviews env c"
  have l: "plane_ok ?l" using c by (rule invalidate_loop_ok)
  note fin = invalidate_done [OF c assms(2,3,2), of env, unfolded Let_def]
  have c': "plane_ok ?c" using settled_loopD [OF activate_next_ok [OF l, of env]] by (simp add: invalidateAutoReviews_def)
  have k: "cObj ?c q = cObj ?l q" "q \<notin> set (cQueue ?c)"
    using next_keeps [of ?l env] fin by (auto simp: keeps_def invalidateAutoReviews_def)
  have bound: "q < cObjs c" using c assms(2) by (simp add: plane_ok_def queue_ok_def)
  have "cObjs ?l = cObjs c"
  proof -
    have "cObjs (invalidate_loop env qs a) = cObjs a" for qs a by (induction qs arbitrary: a) simp_all
    then show ?thesis .
  qed
  with l fin bound have "left_ok (cObj ?l q)" by (auto simp: plane_ok_def entries_ok_def)
  with fin have "paSent (cObj ?l q) = []" by (simp add: left_ok_def)
  moreover have "cPending ?c (paID (cObj ?c q)) \<noteq> Some q" using pending_iff [OF c'] k by simp
  ultimately show ?thesis using k fin
    by (simp add: Let_def waitForApprovalDecision_def resolve_def resolveLocked_def)
qed


lemma barrier_activate [simp]: "cBarrier (snd (activateLocked env q c)) = cBarrier c" "cGroupDone (snd (activateLocked env q c)) = cGroupDone c"
  by (auto simp: activateLocked_def Let_def close_done_def close_activated_def removeLocked_def split: option.splits)




text \<open>Settled requests.\<close>

definition frozen :: "approvalCoordinator \<Rightarrow> approvalCoordinator \<Rightarrow> bool" where
  "frozen c c' \<longleftrightarrow> (settled_ok c \<longrightarrow> settled_ok c' \<and> (\<forall>i. settled_state c i \<noteq> [] \<longrightarrow> settled_state c' i = settled_state c i))"

lemma frozen_refl [simp]: "frozen c c" by (simp add: frozen_def)

lemma frozen_trans: "frozen a b \<Longrightarrow> frozen b c \<Longrightarrow> frozen a c"
  unfolding frozen_def by metis

lemma frozen_frame: "cSettled c' = cSettled c \<Longrightarrow> cPending c' = cPending c \<Longrightarrow> frozen c c'"
  by (simp add: frozen_def settled_ok_def settled_state_def)

lemma frozen_drop:
  assumes "cPending c i \<noteq> None" and "cPending c' = (cPending c)(i := None)" and "cSettled c' = (cSettled c)(i \<mapsto> s)"
  shows "frozen c c'"
  using assms by (auto simp: frozen_def settled_ok_def settled_state_def)

lemma frozen_activate: "eligible c q \<Longrightarrow> frozen c (snd (activateLocked env q c))"
  by (auto simp: activateLocked_def Let_def close_done_def close_activated_def removeLocked_def eligible_def
      intro: frozen_frame frozen_drop split: option.splits)

lemma frozen_next: "frozen c (activateNextLocked env c)"
  by (rule next_rule) (auto intro: frozen_frame frozen_activate frozen_trans)

lemma frozen_finish: "cPending c (paID (cObj c q)) = Some q \<Longrightarrow> frozen c (finish env state q c)"
  using settle_same [of env q c q]
  by (intro frozen_drop [where i = "paID (cObj c q)"]) (simp_all add: finish_def close_done_def removeLocked_def Let_def same_entry_def)

lemma frozen_finish_all: "frozen c (finish_all env state chosen qs c)"
proof (induction qs arbitrary: c)
  case (Cons q qs)
  then show ?case by (auto intro: frozen_trans [OF frozen_finish])
qed simp

lemma frozen_invalidate: "frozen c (invalidate_loop env qs c)"
proof (induction qs arbitrary: c)
  case (Cons q qs)
  have "frozen c (finish env ''cancelled'' q (upd_obj q cancel_review c))" if "cPending c (paID (cObj c q)) = Some q"
    by (rule frozen_trans [OF frozen_frame frozen_finish]) (use that cancel_review_same [of "cObj c q"] in \<open>simp_all add: same_entry_def\<close>)
  with Cons show ?case by (auto intro: frozen_trans)
qed simp

lemma frozen_finish_ids: "plane_ok c \<Longrightarrow> frozen c (finish_ids env state ids c)"
proof (induction ids arbitrary: c)
  case (Cons i ids)
  show ?case
  proof (cases "cPending c i")
    case None
    with Cons show ?thesis by simp
  next
    case (Some q)
    with Cons.prems have q: "q \<in> set (cQueue c)" "paID (cObj c q) = i" by (simp_all add: pending_iff)
    with Some have "frozen c (finish env state q c)" by (simp add: frozen_finish)
    from frozen_trans [OF this Cons.IH [OF finish_ok [OF Cons.prems q(1)]]] show ?thesis using Some by simp
  qed
qed simp

lemma frozen_admit: "settled_state c (paID p) = [] \<Longrightarrow> frozen c (admit p c)"
  by (auto simp: frozen_def admit_def settled_ok_def settled_state_def Let_def)

lemma frozen_mark: "frozen c (MarkAdmissionComplete r c)"
  by (rule frozen_frame) (auto simp: MarkAdmissionComplete_def Let_def split: option.splits)

lemma frozen_enqueue: "frozen c (snd (enqueue env owner req publish c))"
proof -
  let ?req = "map_option clone_request req"
  obtain i c1 where r: "request_id ?req c = (i, c1)" by (cases "request_id ?req c")
  with request_id_cases [of ?req c] have c1: "frozen c c1" by (auto intro: frozen_frame)
  have p: "paID (new_pending i owner ?req publish) = i" by (simp add: new_pending_def Let_def)
  have "frozen c (activateNextLocked env (MarkAdmissionComplete m (admit (new_pending i owner ?req publish) c1)))"
    if "settled_state c1 i = []" for m
    by (rule frozen_trans [OF c1], rule frozen_trans [OF frozen_admit frozen_trans [OF frozen_mark frozen_next]]) (use that p in simp)
  with c1 r show ?thesis by (auto simp: enqueue_def Let_def split: option.splits)
qed

lemma frozen_resolve: "frozen c (snd (resolveLocked env q d c))"
proof -
  have s: "frozen c (snd (settleLocked env q c))" by (rule frozen_frame) simp_all
  have "frozen c (activateNextLocked env (removeLocked q ''resolved'' (send_decision q x (snd (settleLocked env q c)))))"
    if "cPending c (paID (cObj c q)) = Some q" for x
    using that settle_same [of env q c q]
    by (intro frozen_trans [OF _ frozen_next] frozen_drop [where i = "paID (cObj c q)" and s = "TrimSpace ''resolved''"])
       (simp_all add: send_decision_def removeLocked_def Let_def same_entry_def)
  with s show ?thesis
    by (cases "settleLocked env q c") (auto simp: resolveLocked_def Let_def split: sum.splits option.splits)
qed

lemma frozen_step: "approval_step c c' \<Longrightarrow> plane_ok c \<and> served c \<Longrightarrow> frozen c c'"
proof (induction rule: approval_step.induct)
  case (submit c env d)
  show ?case using frozen_resolve by (auto simp: submit_def Let_def split: option.splits)
next
  case (resolve c env q d)
  show ?case using frozen_resolve by (auto simp: resolve_def split: option.splits)
next
  case (release c env q state)
  show ?case using frozen_trans [OF frozen_finish frozen_next] by (auto simp: release_def split: option.splits)
next
  case (abandon c env owner state)
  have "frozen c (activateNextLocked env (if b then clear_group (finish_all env state chosen qs c) else finish_all env state chosen qs c))"
    for chosen qs b
    by (rule frozen_trans [OF frozen_finish_all frozen_trans [OF _ frozen_next]]) (auto intro: frozen_frame)
  note this [where b = True, simplified] this [where b = False, simplified]
  then show ?case unfolding abandonOwner_def Let_def by (auto split: option.split)
next
  case (clear order c env state)
  have "frozen (finish_ids env state order c) (clear_group (finish_ids env state order c))" by (rule frozen_frame) simp_all
  with clear frozen_finish_ids [of c env state order] clear_all_ok(1) [of c order env state] show ?case by (simp add: frozen_trans)
next
  case (invalidate c env)
  show ?case unfolding invalidateAutoReviews_def by (rule frozen_trans [OF frozen_invalidate frozen_next])
next
  case (watch c env g ch)
  show ?case by (simp add: watchParallelAdmissionLocked_def frozen_next)
next
  case (new_step b i n a refs c)
  show ?case by (rule frozen_frame) simp_all
next
  case (review c q)
  show ?case by (rule frozen_frame) (simp_all add: attach_review_def)
qed (simp_all add: frozen_enqueue frozen_mark)

text \<open>C35 (safety).  A request that was settled stays settled with the same state through every later run, and is never
  pending again: a replayed pause token cannot reopen it.\<close>

theorem settled_request_never_reopens:
  assumes "approval_reachable sid c" and "settled_state c i \<noteq> []" and "approval_step\<^sup>*\<^sup>* c c'"
  shows "settled_state c' i = settled_state c i \<and> cPending c' i = None"
proof -
  note c = plane_reachable [OF assms(1)]
  have "frozen c c'"
    by (rule approvals.steps_rel [OF assms(3) c]) (auto intro: frozen_trans frozen_step)
  with c assms(2) have "settled_state c' i = settled_state c i" "settled_ok c'" by (simp_all add: frozen_def plane_ok_def)
  with assms(2) show ?thesis by (simp add: settled_ok_def)
qed

section \<open>Concrete runs\<close>

definition demo_env :: turn_env where
  "demo_env = \<lparr>envPersist = (\<lambda>_. CallbackEvent ''e'' 1), envSettle = (\<lambda>_. CallbackEvent ''f'' 1), envTerminal = (\<lambda>_. False)\<rparr>"

definition demo_request :: "string \<Rightarrow> ModelStepRef option \<Rightarrow> RuntimeApproval" where
  "demo_request tok step =
     \<lparr>rqPauseTokenID = tok, rqRunID = ''r'', rqTurnID = ''t'', rqSubagent = False,
      rqApproval = Some (plain_permission usual_options), rqModelStep = step\<rparr>"

definition demo_decision :: ApprovalDecision where
  "demo_decision = \<lparr>adRequestID = ''p1'', adOutcome = ''selected'', adOptionID = ''yes'', adApproved = False, adReason = [], adReviewText = []\<rparr>"

text \<open>A manual request, its answer, and an automatic review of a model step of two calls.\<close>

definition demo_manual :: approvalCoordinator where
  "demo_manual = snd (enqueue demo_env (Some 0) (Some (demo_request ''p1'' None)) True (newApprovalCoordinator ''s''))"

definition demo_answered :: approvalCoordinator where
  "demo_answered = snd (submit demo_env demo_decision demo_manual)"

definition demo_refs :: "modelStepAdmission \<times> ModelStepRef list" where
  "demo_refs = the (NewConcurrentModelStepRefs 0 ''step'' 2)"

definition demo_step :: approvalCoordinator where
  "demo_step = (newApprovalCoordinator ''s'')\<lparr>cBarrier := (cBarrier (newApprovalCoordinator ''s''))(0 := fst demo_refs)\<rparr>"

definition demo_auto :: approvalCoordinator where
  "demo_auto = snd (enqueue demo_env (Some 0) (Some (demo_request ''p2'' (Some (hd (snd demo_refs))))) False demo_step)"

definition demo_open :: approvalCoordinator where
  "demo_open = snd (resolve demo_env (Some 0) demo_decision demo_auto)"

definition demo_closed :: approvalCoordinator where
  "demo_closed = MarkAdmissionComplete (Some (snd demo_refs ! 1)) demo_open"

lemma demo_reachable:
  "approval_reachable ''s'' demo_manual" "approval_reachable ''s'' demo_answered" "approval_reachable ''s'' demo_auto"
  "approval_reachable ''s'' demo_open" "approval_reachable ''s'' demo_closed"
proof -
  have m: "approval_step (newApprovalCoordinator ''s'') demo_manual" unfolding demo_manual_def by (rule approval_step.enqueue)
  have a: "approval_step demo_manual demo_answered" unfolding demo_answered_def by (rule approval_step.submit)
  have refs: "NewConcurrentModelStepRefs 0 ''step'' 2 = Some (fst demo_refs, snd demo_refs)"
    unfolding demo_refs_def by code_simp
  have s: "approval_step (newApprovalCoordinator ''s'') demo_step"
    unfolding demo_step_def by (rule approval_step.new_step [OF refs]) (simp add: newApprovalCoordinator_def)
  have u: "approval_step demo_step demo_auto" unfolding demo_auto_def by (rule approval_step.enqueue)
  have o: "approval_step demo_auto demo_open" unfolding demo_open_def by (rule approval_step.resolve)
  have k: "approval_step demo_open demo_closed" unfolding demo_closed_def by (rule approval_step.mark)
  show "approval_reachable ''s'' demo_manual" "approval_reachable ''s'' demo_answered" "approval_reachable ''s'' demo_auto"
    "approval_reachable ''s'' demo_open" "approval_reachable ''s'' demo_closed"
    unfolding approval_reachable_def using m a s u o k by (auto intro: rtranclp.rtrancl_into_rtrancl)
qed

lemma demo_values:
  "cActive demo_manual = [0]" "paPublish (cObj demo_manual 0)" "fst (submit demo_env demo_decision demo_manual) = None"
  "cObjs demo_answered = 1" "map (\<lambda>d. adApproved d) (paSent (cObj demo_answered 0)) = [True]"
  "settled_state demo_answered ''p1'' = ''resolved''" "permission_of (cObj demo_answered 0) = Some (plain_permission usual_options)"
  "cQueue demo_auto = [0]" "\<not> paPublish (cObj demo_auto 0)"
  "cActive demo_closed = []" "cGroup demo_closed \<noteq> []" "channelClosed demo_closed (cGroupDone demo_closed)"
  "TrimSpace (cGroup demo_closed) \<noteq> []"
  by code_simp+

theorem active_cohort_witness: "cActive demo_manual = [0] \<and> hd (cQueue demo_manual) = 0 \<and> paPersisted (cObj demo_manual 0)"
  using active_cohort [OF demo_reachable(1), of 0] demo_values(1,2) by simp

theorem answered_exactly_once_witness:
  "\<not> cFault demo_answered \<and> length (waitForApprovalDecision (cObj demo_answered 0)) = (if 0 \<in> set (cQueue demo_answered) then 0 else 1)"
  using answered_exactly_once [OF demo_reachable(2), of 0] demo_values(4) by simp

theorem executed_approval_was_offered_witness:
  "\<exists>opt \<in> set usual_options. strictOptionDecision (oKind opt) = Some OptionDecisionAllow"
proof -
  from demo_values(5) obtain d where d: "paSent (cObj demo_answered 0) = [d]" "adApproved d" by auto
  then have "WaitDecision (decision_response d) \<in> set (waitForApprovalDecision (cObj demo_answered 0))"
    by (simp add: waitForApprovalDecision_def)
  moreover have "rspApproved (decision_response d)" using d(2) by (simp add: decision_response_def)
  moreover have "apOptions (plain_permission usual_options) = usual_options" "usual_options \<noteq> []"
    by (simp_all add: plain_permission_def usual_options_def)
  ultimately show ?thesis
    using executed_approval_was_offered [OF demo_reachable(2), of 0 "decision_response d" "plain_permission usual_options"] demo_values(4,7)
    by auto
qed


theorem steering_cancels_reviews_witness:
  "waitForApprovalDecision (cObj (invalidateAutoReviews demo_env demo_auto) 0) = [WaitCanceled]"
  using steering_cancels_reviews [OF demo_reachable(3), of 0 demo_env demo_env demo_decision] demo_values(8,9) by (simp add: Let_def)


theorem settled_request_never_reopens_witness:
  "settled_state (snd (enqueue demo_env (Some 0) (Some (demo_request ''p1'' None)) True demo_answered)) ''p1'' = ''resolved''"
proof -
  have "approval_step\<^sup>*\<^sup>* demo_answered (snd (enqueue demo_env (Some 0) (Some (demo_request ''p1'' None)) True demo_answered))"
    by (intro r_into_rtranclp approval_step.enqueue)
  then show ?thesis using settled_request_never_reopens [OF demo_reachable(2), of "''p1''"] demo_values(6) by simp
qed

end
