(* ===== verification/Session_Fence.thy ===== *)
theory Session_Fence
  imports Go_Prelude "HOL-Library.Word"
begin

text \<open>
  Mutation authority of a session, \<open>agent-sdk/session/mutation_guard.go\<close> and
  \<open>fence_claim.go\<close>: the guard a writer presents, the durable fence of the running
  execution, and the decision whether the mutation may go ahead.

  The digest of a claim (hexadecimal SHA-256) is the parameter \<open>sha\<close> of the definitions
  that use it.  Fencing tokens are 64-bit words.  Conflicts carry the detail text of the
  code.  The acquisition time of a fence takes no part in any decision and is left out.
\<close>

section \<open>References, fences and guards\<close>

record SessionRef =
  srAppName :: string
  srUserID :: string
  srSessionID :: string
  srWorkspaceKey :: string

definition NormalizeSessionRef :: "SessionRef \<Rightarrow> SessionRef" where
  "NormalizeSessionRef ref =
     \<lparr>srAppName = TrimSpace (srAppName ref), srUserID = TrimSpace (srUserID ref),
      srSessionID = TrimSpace (srSessionID ref), srWorkspaceKey = TrimSpace (srWorkspaceKey ref)\<rparr>"

record SessionFence =
  fnRef :: SessionRef
  fnFenceID :: string
  fnOwnerID :: string
  fnFencingToken :: "64 word"
  fnClaimToken :: string
  fnClaimDigest :: string

definition empty_ref :: SessionRef where
  "empty_ref = \<lparr>srAppName = [], srUserID = [], srSessionID = [], srWorkspaceKey = []\<rparr>"

definition no_fence :: SessionFence where
  "no_fence = \<lparr>fnRef = empty_ref, fnFenceID = [], fnOwnerID = [], fnFencingToken = 0, fnClaimToken = [], fnClaimDigest = []\<rparr>"

definition SessionFenceIsHeld :: "SessionFence \<Rightarrow> bool" where
  "SessionFenceIsHeld fence \<longleftrightarrow> TrimSpace (fnFenceID fence) \<noteq> []"

abbreviation "MutationAuthorityRuntime \<equiv> ''runtime''"
abbreviation "MutationAuthorityControl \<equiv> ''control''"

record MutationGuard =
  mgAuthority :: string
  mgPurpose :: string
  mgFenceID :: string
  mgOwnerID :: string
  mgFencingToken :: "64 word"
  mgClaimToken :: string

definition no_guard :: MutationGuard where
  "no_guard = \<lparr>mgAuthority = [], mgPurpose = [], mgFenceID = [], mgOwnerID = [], mgFencingToken = 0, mgClaimToken = []\<rparr>"

text \<open>The guard that \<open>ContextWithRuntimeFence\<close> puts into the context.\<close>

definition runtime_guard :: "SessionFence \<Rightarrow> MutationGuard" where
  "runtime_guard fence =
     \<lparr>mgAuthority = MutationAuthorityRuntime, mgPurpose = [], mgFenceID = fnFenceID fence, mgOwnerID = fnOwnerID fence,
      mgFencingToken = fnFencingToken fence, mgClaimToken = fnClaimToken fence\<rparr>"

definition ControlMutationGuard :: "string \<Rightarrow> MutationGuard" where
  "ControlMutationGuard purpose = no_guard\<lparr>mgAuthority := MutationAuthorityControl, mgPurpose := TrimSpace purpose\<rparr>"

text \<open>\<open>ControlMutationGuardWithRuntimeFence\<close>, with the guard of the context as argument.\<close>

definition ControlMutationGuardWithRuntimeFence :: "MutationGuard \<Rightarrow> string \<Rightarrow> MutationGuard" where
  "ControlMutationGuardWithRuntimeFence runtimeGuard purpose =
     (let guard = ControlMutationGuard purpose
      in if mgAuthority runtimeGuard \<noteq> MutationAuthorityRuntime then guard
         else guard\<lparr>mgFenceID := TrimSpace (mgFenceID runtimeGuard), mgOwnerID := TrimSpace (mgOwnerID runtimeGuard),
                    mgFencingToken := mgFencingToken runtimeGuard, mgClaimToken := mgClaimToken runtimeGuard\<rparr>)"

section \<open>Purposes\<close>

definition overlapping_purposes :: "string list" where
  "overlapping_purposes =
     [''approval'', ''conversation_interaction'', ''participant'', ''system_commit'', ''subagent_completion'',
      ''subagent_activity'', ''test'']"

definition known_purposes :: "string list" where
  "known_purposes =
     [''approval'', ''conversation_interaction'', ''idle_conversation_interaction'', ''handoff'', ''coordinator'',
      ''participant'', ''session_lifecycle'', ''session_configuration'', ''test'', ''system_commit'',
      ''subagent_completion'', ''subagent_activity'']"

definition ControlMutationMayOverlapRuntimeFence :: "string \<Rightarrow> bool" where
  "ControlMutationMayOverlapRuntimeFence purpose \<longleftrightarrow> TrimSpace purpose \<in> set overlapping_purposes"

definition knownControlMutationPurpose :: "string \<Rightarrow> bool" where
  "knownControlMutationPurpose purpose \<longleftrightarrow> purpose \<in> set known_purposes"

definition controlMutationRequiresFence :: "string \<Rightarrow> bool" where
  "controlMutationRequiresFence purpose \<longleftrightarrow> purpose \<in> {''handoff'', ''coordinator''}"

section \<open>Claims\<close>

definition sessionFenceClaimDigest :: "(string \<Rightarrow> string) \<Rightarrow> string \<Rightarrow> string" where
  "sessionFenceClaimDigest sha token = sha (TrimSpace token)"

definition sessionFenceClaimMatches :: "(string \<Rightarrow> string) \<Rightarrow> string \<Rightarrow> string \<Rightarrow> bool" where
  "sessionFenceClaimMatches sha digest0 token0 =
     (let digest = TrimSpace digest0; token = TrimSpace token0
      in if digest = [] \<or> token = [] then False else digest = sessionFenceClaimDigest sha token)"

datatype fence_error = FenceConflict string string | SessionNotFound | InvalidSession | RevisionConflict "64 word" "64 word"
  | ParticipantConflict string string string | InvalidValue

text \<open>\<open>NewSessionFenceClaim\<close> with the random claim token as argument.\<close>

definition NewSessionFenceClaim :: "(string \<Rightarrow> string) \<Rightarrow> string \<Rightarrow> SessionFence \<Rightarrow> fence_error + SessionFence" where
  "NewSessionFenceClaim sha token fence =
     (if \<not> SessionFenceIsHeld fence \<or> TrimSpace (fnOwnerID fence) = [] \<or> fnFencingToken fence = 0
      then Inl (FenceConflict (srSessionID (NormalizeSessionRef (fnRef fence)))
                 ''complete fence identity is required before creating a claim'')
      else Inr (fence\<lparr>fnClaimToken := token, fnClaimDigest := sessionFenceClaimDigest sha token\<rparr>))"

definition SessionFenceForStorage :: "SessionFence \<Rightarrow> SessionFence" where
  "SessionFenceForStorage fence = fence\<lparr>fnClaimToken := []\<rparr>"

definition SessionFenceForObservation :: "SessionFence \<Rightarrow> SessionFence" where
  "SessionFenceForObservation fence = fence\<lparr>fnClaimToken := [], fnClaimDigest := []\<rparr>"

definition RestoreSessionFenceClaimDigest :: "SessionFence \<Rightarrow> string \<Rightarrow> SessionFence" where
  "RestoreSessionFenceClaimDigest fence digest = fence\<lparr>fnClaimToken := [], fnClaimDigest := TrimSpace digest\<rparr>"

definition SessionFenceHasClaim :: "(string \<Rightarrow> string) \<Rightarrow> SessionFence \<Rightarrow> bool" where
  "SessionFenceHasClaim sha fence = sessionFenceClaimMatches sha (fnClaimDigest fence) (fnClaimToken fence)"

record ReleaseSessionFenceRequest =
  rrRef :: SessionRef
  rrFenceID :: string
  rrOwnerID :: string
  rrClaimToken :: string

definition SessionFenceReleaseRequest :: "SessionFence \<Rightarrow> ReleaseSessionFenceRequest" where
  "SessionFenceReleaseRequest fence =
     \<lparr>rrRef = fnRef fence, rrFenceID = fnFenceID fence, rrOwnerID = fnOwnerID fence, rrClaimToken = fnClaimToken fence\<rparr>"

definition SessionFenceReleaseAuthorized ::
  "(string \<Rightarrow> string) \<Rightarrow> SessionFence \<Rightarrow> ReleaseSessionFenceRequest \<Rightarrow> bool" where
  "SessionFenceReleaseAuthorized sha active req \<longleftrightarrow>
     NormalizeSessionRef (fnRef active) = NormalizeSessionRef (rrRef req) \<and>
     TrimSpace (fnFenceID active) \<noteq> [] \<and> fnFenceID active = TrimSpace (rrFenceID req) \<and>
     fnOwnerID active = TrimSpace (rrOwnerID req) \<and>
     sessionFenceClaimMatches sha (fnClaimDigest active) (rrClaimToken req)"

section \<open>Authorization\<close>

definition ValidateControlMutationGuard :: "MutationGuard \<Rightarrow> string option" where
  "ValidateControlMutationGuard guard =
     (if mgAuthority guard \<noteq> MutationAuthorityControl then None
      else let purpose = TrimSpace (mgPurpose guard);
               hasFenceID = (TrimSpace (mgFenceID guard) \<noteq> []);
               hasOwnerID = (TrimSpace (mgOwnerID guard) \<noteq> []);
               hasFence = (mgFencingToken guard \<noteq> 0)
           in if purpose = [] then Some ''control mutation requires a non-empty purpose''
              else if \<not> knownControlMutationPurpose purpose then Some ''control mutation purpose is unknown''
              else if (hasFenceID \<or> hasOwnerID \<or> hasFence) \<and> (\<not> hasFenceID \<or> \<not> hasOwnerID \<or> \<not> hasFence)
                then Some ''control mutation fence requires fence_id, owner_id, and fencing_token''
              else if \<not> hasFenceID \<and> controlMutationRequiresFence purpose
                then Some ''control mutation purpose requires a matching runtime fence''
              else None)"

definition sessionFenceMutationAuthorized ::
  "(string \<Rightarrow> string) \<Rightarrow> SessionFence \<Rightarrow> MutationGuard \<Rightarrow> bool" where
  "sessionFenceMutationAuthorized sha active guard \<longleftrightarrow>
     fnFenceID active = TrimSpace (mgFenceID guard) \<and> fnOwnerID active = TrimSpace (mgOwnerID guard) \<and>
     fnFencingToken active = mgFencingToken guard \<and>
     sessionFenceClaimMatches sha (fnClaimDigest active) (mgClaimToken guard)"

definition AuthorizeMutationGuard ::
  "(string \<Rightarrow> string) \<Rightarrow> SessionFence \<Rightarrow> MutationGuard \<Rightarrow> fence_error option" where
  "AuthorizeMutationGuard sha active guard =
     (let conflict = (\<lambda>detail. Some (FenceConflict (srSessionID (NormalizeSessionRef (fnRef active))) detail))
      in if mgAuthority guard = MutationAuthorityControl then
           (case ValidateControlMutationGuard guard of
              Some detail \<Rightarrow> conflict detail
            | None \<Rightarrow>
                if TrimSpace (mgFenceID guard) \<noteq> [] then
                  (if \<not> SessionFenceIsHeld active then conflict ''control mutation fence is absent''
                   else if \<not> sessionFenceMutationAuthorized sha active guard then conflict ''control mutation fencing token is stale''
                   else None)
                else if SessionFenceIsHeld active \<and> \<not> ControlMutationMayOverlapRuntimeFence (mgPurpose guard)
                  then conflict ''active execution fence requires a matching control fence''
                else None)
         else if mgAuthority guard \<noteq> MutationAuthorityRuntime then
           (if fnFenceID active = [] then None else conflict ''active fence requires explicit mutation authority'')
         else if \<not> SessionFenceIsHeld active then conflict ''runtime fence is absent''
         else if \<not> sessionFenceMutationAuthorized sha active guard then conflict ''runtime fencing token is stale''
         else None)"

section \<open>Facts\<close>

lemma NormalizeSessionRef_idem [simp]: "NormalizeSessionRef (NormalizeSessionRef ref) = NormalizeSessionRef ref"
  by (simp add: NormalizeSessionRef_def)

text \<open>
  The specification of the decision: with a held fence a mutation passes when its guard
  matches the fence completely, claim included, or when it is an unfenced Control mutation
  whose purpose may overlap; without one, every mutation that claims no fence passes, as
  far as its guard is well formed.
\<close>

definition may_mutate :: "(string \<Rightarrow> string) \<Rightarrow> SessionFence \<Rightarrow> MutationGuard \<Rightarrow> bool" where
  "may_mutate sha active guard \<longleftrightarrow>
     (if mgAuthority guard = MutationAuthorityControl \<and> ValidateControlMutationGuard guard \<noteq> None then False
      else if SessionFenceIsHeld active then
        (mgAuthority guard = MutationAuthorityRuntime \<or>
         mgAuthority guard = MutationAuthorityControl \<and> TrimSpace (mgFenceID guard) \<noteq> []) \<and>
          sessionFenceMutationAuthorized sha active guard \<or>
        mgAuthority guard = MutationAuthorityControl \<and> TrimSpace (mgFenceID guard) = [] \<and>
          ControlMutationMayOverlapRuntimeFence (mgPurpose guard)
      else mgAuthority guard \<noteq> MutationAuthorityRuntime \<and>
        (mgAuthority guard = MutationAuthorityControl \<longrightarrow> TrimSpace (mgFenceID guard) = []) \<and>
        (mgAuthority guard \<noteq> MutationAuthorityControl \<longrightarrow> fnFenceID active = []))"

lemma AuthorizeMutationGuard_iff: "AuthorizeMutationGuard sha active guard = None \<longleftrightarrow> may_mutate sha active guard"
proof (cases "SessionFenceIsHeld active")
  case True
  then have "fnFenceID active \<noteq> []" by (auto simp: SessionFenceIsHeld_def)
  with True show ?thesis
    by (auto simp: AuthorizeMutationGuard_def may_mutate_def Let_def split: option.splits)
next
  case False
  then show ?thesis by (auto simp: AuthorizeMutationGuard_def may_mutate_def Let_def split: option.splits)
qed

lemma authorized_token:
  assumes "SessionFenceIsHeld active" and "AuthorizeMutationGuard sha active guard = None"
    and "mgAuthority guard = MutationAuthorityRuntime \<or> TrimSpace (mgFenceID guard) \<noteq> [] \<and> mgAuthority guard = MutationAuthorityControl"
  shows "mgFencingToken guard = fnFencingToken active \<and> sessionFenceClaimMatches sha (fnClaimDigest active) (mgClaimToken guard)"
  using assms by (auto simp: AuthorizeMutationGuard_iff may_mutate_def sessionFenceMutationAuthorized_def split: if_splits)

lemma claim_matchesD: "sessionFenceClaimMatches sha digest token \<Longrightarrow> TrimSpace digest = sha (TrimSpace token)"
  by (simp add: sessionFenceClaimMatches_def sessionFenceClaimDigest_def Let_def split: if_splits)

section \<open>Properties\<close>

text \<open>While an execution holds the fence, a mutation is authorized only for the holder of the
  exact fence (identity, owner, token and bearer claim), or as an unfenced Control mutation
  whose purpose is on the short list of purposes that may overlap an execution.\<close>

theorem held_fence_excludes_others:
  assumes "SessionFenceIsHeld active" and "AuthorizeMutationGuard sha active guard = None"
  shows "sessionFenceMutationAuthorized sha active guard \<or>
         mgAuthority guard = MutationAuthorityControl \<and> TrimSpace (mgFenceID guard) = [] \<and>
         TrimSpace (mgPurpose guard) \<in> set overlapping_purposes"
  using assms by (auto simp: AuthorizeMutationGuard_iff may_mutate_def ControlMutationMayOverlapRuntimeFence_def split: if_splits)

definition sample_fence :: SessionFence where
  "sample_fence =
     \<lparr>fnRef = empty_ref, fnFenceID = ''f1'', fnOwnerID = ''host'', fnFencingToken = 7, fnClaimToken = [],
      fnClaimDigest = ''digest:t''\<rparr>"

lemma held_fence_excludes_others_witness:
  "sessionFenceMutationAuthorized ((@) ''digest:'') sample_fence (runtime_guard (sample_fence\<lparr>fnClaimToken := ''t''\<rparr>)) \<or>
   mgAuthority (runtime_guard (sample_fence\<lparr>fnClaimToken := ''t''\<rparr>)) = MutationAuthorityControl \<and>
   TrimSpace (mgFenceID (runtime_guard (sample_fence\<lparr>fnClaimToken := ''t''\<rparr>))) = [] \<and>
   TrimSpace (mgPurpose (runtime_guard (sample_fence\<lparr>fnClaimToken := ''t''\<rparr>))) \<in> set overlapping_purposes"
proof (rule held_fence_excludes_others)
  show "SessionFenceIsHeld sample_fence" by code_simp
  show "AuthorizeMutationGuard ((@) ''digest:'') sample_fence (runtime_guard (sample_fence\<lparr>fnClaimToken := ''t''\<rparr>)) = None"
    by code_simp
qed


end
