(* ===== verification/Session_Store.thy ===== *)
theory Session_Store
  imports Session_Fence
begin

text \<open>
  The in-memory session store, \<open>agent-sdk/session/memory/store.go\<close> and \<open>memory/fence.go\<close>,
  with \<open>participant_bindings.go\<close>: starting and looking up sessions, acquiring, replacing and
  releasing the execution fence, and the document mutations that need authority
  (participants, controller, state).  Each operation runs under the store lock, so an
  interleaving is a sequence of operations.

  The record of a session keeps the parts these operations use.  Random fence identities
  and claim tokens are arguments of the operations that draw them; clock values, titles,
  metadata and events are not part of the model.  A binding is its identity, its delegation
  and an opaque rest, a controller binding and a state are opaque values of the JSON type.
\<close>

section \<open>Records\<close>

record ParticipantBinding =
  pbID :: string
  pbDelegationID :: string
  pbRest :: json

text \<open>\<open>CloneParticipantBinding\<close> trims the identities.\<close>

definition CloneParticipantBinding :: "ParticipantBinding \<Rightarrow> ParticipantBinding" where
  "CloneParticipantBinding b = b\<lparr>pbID := TrimSpace (pbID b), pbDelegationID := TrimSpace (pbDelegationID b)\<rparr>"

record Session =
  ssRef :: SessionRef
  ssRevision :: "64 word"
  ssCWD :: string
  ssController :: json
  ssParticipants :: "ParticipantBinding list"

record IdleCompactionState =
  icEpoch :: "64 word"
  icWindowRevoked :: "bool option"

definition Invalidate :: "IdleCompactionState \<Rightarrow> IdleCompactionState" where
  "Invalidate s = s\<lparr>icEpoch := icEpoch s + 1, icWindowRevoked := map_option (\<lambda>_. True) (icWindowRevoked s)\<rparr>"

record session_record =
  rcIdle :: IdleCompactionState
  rcSession :: Session
  rcState :: json_map
  rcFence :: SessionFence
  rcFenceEpoch :: "64 word"

type_synonym Store = "string \<rightharpoonup> session_record"

section \<open>Lookup and start\<close>

definition lookupLocked :: "Store \<Rightarrow> SessionRef \<Rightarrow> session_record option" where
  "lookupLocked s ref =
     (let n = NormalizeSessionRef ref
      in case s (srSessionID n) of
           None \<Rightarrow> None
         | Some r \<Rightarrow>
             if srAppName n \<noteq> [] \<and> srAppName (ssRef (rcSession r)) \<noteq> srAppName n then None
             else if srUserID n \<noteq> [] \<and> srUserID (ssRef (rcSession r)) \<noteq> srUserID n then None
             else if srWorkspaceKey n \<noteq> [] \<and> srWorkspaceKey (ssRef (rcSession r)) \<noteq> srWorkspaceKey n then None
             else Some r)"

definition store_key :: "SessionRef \<Rightarrow> string" where
  "store_key ref = srSessionID (NormalizeSessionRef ref)"

text \<open>\<open>StartSession\<close> for a request without metadata and execution configuration; \<open>fresh\<close> is
  the generated session identity.\<close>

definition StartSession ::
  "Store \<Rightarrow> SessionRef \<Rightarrow> string \<Rightarrow> json \<Rightarrow> string \<Rightarrow> fence_error + (Store \<times> Session)" where
  "StartSession s req cwd controller fresh =
     (let ref = NormalizeSessionRef req
      in if srAppName ref = [] \<or> srUserID ref = [] then Inl InvalidSession
         else let ref = (if srSessionID ref = [] then ref\<lparr>srSessionID := fresh\<rparr> else ref)
              in case s (srSessionID ref) of
                   Some r \<Rightarrow> Inr (s, rcSession r)
                 | None \<Rightarrow>
                     let created = \<lparr>ssRef = ref, ssRevision = 0, ssCWD = TrimSpace cwd, ssController = controller,
                                    ssParticipants = []\<rparr>;
                         r = \<lparr>rcIdle = \<lparr>icEpoch = 0, icWindowRevoked = None\<rparr>, rcSession = created, rcState = [],
                              rcFence = no_fence, rcFenceEpoch = 0\<rparr>
                     in Inr (s(srSessionID ref \<mapsto> r), created))"

section \<open>The execution fence\<close>

definition fenceConflict :: "SessionRef \<Rightarrow> string \<Rightarrow> fence_error" where
  "fenceConflict ref detail = FenceConflict (srSessionID (NormalizeSessionRef ref)) detail"

definition acquireSessionFence ::
  "(string \<Rightarrow> string) \<Rightarrow> Store \<Rightarrow> SessionRef \<Rightarrow> string \<Rightarrow> bool \<Rightarrow> string \<Rightarrow> string \<Rightarrow>
   Store \<times> (fence_error + SessionFence)" where
  "acquireSessionFence sha s ref owner0 replacePriorHost fenceID token =
     (case lookupLocked s ref of
        None \<Rightarrow> (s, Inl SessionNotFound)
      | Some r \<Rightarrow>
          let owner = TrimSpace owner0
          in if owner = [] then (s, Inl (fenceConflict ref ''owner_id is required''))
             else if SessionFenceIsHeld (rcFence r) \<and> (\<not> replacePriorHost \<or> fnOwnerID (rcFence r) = owner)
               then (s, Inl (fenceConflict ref ''another execution producer holds the fence''))
             else let epoch = rcFenceEpoch r + 1;
                      r1 = r\<lparr>rcIdle := Invalidate (rcIdle r), rcFenceEpoch := epoch\<rparr>
                  in case NewSessionFenceClaim sha token
                            \<lparr>fnRef = NormalizeSessionRef (ssRef (rcSession r)), fnFenceID = fenceID, fnOwnerID = owner,
                             fnFencingToken = epoch, fnClaimToken = [], fnClaimDigest = []\<rparr> of
                       Inl e \<Rightarrow> (s(store_key ref \<mapsto> r1), Inl e)
                     | Inr fence \<Rightarrow>
                         (s(store_key ref \<mapsto> r1\<lparr>rcFence := SessionFenceForStorage fence\<rparr>), Inr fence))"

definition AcquireSessionFence ::
  "(string \<Rightarrow> string) \<Rightarrow> Store \<Rightarrow> SessionRef \<Rightarrow> string \<Rightarrow> string \<Rightarrow> string \<Rightarrow> Store \<times> (fence_error + SessionFence)" where
  "AcquireSessionFence sha s ref owner fenceID token = acquireSessionFence sha s ref owner False fenceID token"

text \<open>\<open>hostOwned\<close> is the answer of the embedding's authorization callback.\<close>

definition ReplacePriorHostSessionFence ::
  "(string \<Rightarrow> string) \<Rightarrow> Store \<Rightarrow> bool \<Rightarrow> SessionRef \<Rightarrow> string \<Rightarrow> string \<Rightarrow> string \<Rightarrow>
   Store \<times> (fence_error + SessionFence)" where
  "ReplacePriorHostSessionFence sha s hostOwned ref owner fenceID token =
     (if \<not> hostOwned then (s, Inl (fenceConflict ref ''product Host ownership is not held''))
      else acquireSessionFence sha s ref owner True fenceID token)"

definition ReleaseSessionFence :: "(string \<Rightarrow> string) \<Rightarrow> Store \<Rightarrow> ReleaseSessionFenceRequest \<Rightarrow> fence_error + Store" where
  "ReleaseSessionFence sha s req =
     (case lookupLocked s (rrRef req) of
        None \<Rightarrow> Inl SessionNotFound
      | Some r \<Rightarrow>
          if \<not> SessionFenceReleaseAuthorized sha (rcFence r) req
          then Inl (fenceConflict (fnRef (rcFence r)) ''fence identity, owner, or claim mismatch'')
          else Inr (s(store_key (rrRef req) \<mapsto> r\<lparr>rcIdle := Invalidate (rcIdle r), rcFence := no_fence\<rparr>)))"

definition SessionFence_observed :: "Store \<Rightarrow> SessionRef \<Rightarrow> fence_error + SessionFence" where
  "SessionFence_observed s ref =
     (case lookupLocked s ref of
        None \<Rightarrow> Inl SessionNotFound
      | Some r \<Rightarrow> Inr (SessionFenceForObservation (rcFence r)))"

section \<open>Guarded mutations\<close>

definition CheckExpectedRevision :: "Session \<Rightarrow> 64 word option \<Rightarrow> fence_error option" where
  "CheckExpectedRevision active expected =
     (case expected of
        None \<Rightarrow> None
      | Some e \<Rightarrow> if e = ssRevision active then None else Some (RevisionConflict e (ssRevision active)))"

text \<open>\<open>record.authorizeMutation\<close>: the authorized record has its idle window revoked.\<close>

definition authorizeMutation :: "(string \<Rightarrow> string) \<Rightarrow> session_record \<Rightarrow> MutationGuard \<Rightarrow> fence_error + session_record" where
  "authorizeMutation sha r guard =
     (case AuthorizeMutationGuard sha (rcFence r) guard of
        Some e \<Rightarrow> Inl e
      | None \<Rightarrow> Inr (r\<lparr>rcIdle := Invalidate (rcIdle r)\<rparr>))"

text \<open>
  The prologue that the document mutations share: lookup, authorization and the revision
  check, then the change of the record.  When a later step fails, the authorized record
  stays in the store, with its idle window revoked.
\<close>

definition guarded_update ::
  "(string \<Rightarrow> string) \<Rightarrow> Store \<Rightarrow> SessionRef \<Rightarrow> MutationGuard \<Rightarrow> 64 word option \<Rightarrow>
   (session_record \<Rightarrow> fence_error + session_record) \<Rightarrow> Store \<times> (fence_error + Session)" where
  "guarded_update sha s ref guard expected change =
     (case lookupLocked s ref of
        None \<Rightarrow> (s, Inl SessionNotFound)
      | Some r0 \<Rightarrow>
          (case authorizeMutation sha r0 guard of
             Inl e \<Rightarrow> (s, Inl e)
           | Inr r \<Rightarrow>
               let s1 = s(store_key ref \<mapsto> r)
               in case CheckExpectedRevision (rcSession r) expected of
                    Some e \<Rightarrow> (s1, Inl e)
                  | None \<Rightarrow>
                      (case change r of
                         Inl e \<Rightarrow> (s1, Inl e)
                       | Inr r' \<Rightarrow> (s(store_key ref \<mapsto> r'), Inr (rcSession r')))))"

definition bump_revision :: "session_record \<Rightarrow> session_record" where
  "bump_revision r = r\<lparr>rcSession := (rcSession r)\<lparr>ssRevision := ssRevision (rcSession r) + 1\<rparr>\<rparr>"

section \<open>Participants\<close>

fun check_delegation :: "string \<Rightarrow> string \<Rightarrow> ParticipantBinding list \<Rightarrow> fence_error option" where
  "check_delegation participantID expected [] = None"
| "check_delegation participantID expected (b # bs) =
     (if TrimSpace (pbID b) \<noteq> participantID then check_delegation participantID expected bs
      else if TrimSpace (pbDelegationID b) \<noteq> expected
        then Some (ParticipantConflict participantID expected (TrimSpace (pbDelegationID b)))
      else None)"

definition CheckParticipantDelegation :: "Session \<Rightarrow> string \<Rightarrow> string \<Rightarrow> fence_error option" where
  "CheckParticipantDelegation active participantID expected =
     check_delegation (TrimSpace participantID) (TrimSpace expected) (ssParticipants active)"

fun put_binding :: "ParticipantBinding \<Rightarrow> ParticipantBinding list \<Rightarrow> ParticipantBinding list" where
  "put_binding n [] = [n]"
| "put_binding n (b # bs) = (if pbID b = pbID n \<and> pbID n \<noteq> [] then n # bs else b # put_binding n bs)"

definition PutParticipantBinding :: "Session \<Rightarrow> ParticipantBinding \<Rightarrow> Session" where
  "PutParticipantBinding active binding =
     active\<lparr>ssParticipants := put_binding (CloneParticipantBinding binding) (ssParticipants active)\<rparr>"

text \<open>The changed session, or nothing for an empty identity.\<close>

definition RemoveParticipantBinding :: "Session \<Rightarrow> string \<Rightarrow> Session option" where
  "RemoveParticipantBinding active participantID0 =
     (let participantID = TrimSpace participantID0
      in if participantID = [] then None
         else Some (active\<lparr>ssParticipants := filter (\<lambda>b. TrimSpace (pbID b) \<noteq> participantID) (ssParticipants active)\<rparr>))"

record PutParticipantRequest =
  ppRef :: SessionRef
  ppGuard :: MutationGuard
  ppExpectedRevision :: "64 word option"
  ppBinding :: ParticipantBinding
  ppExpectedDelegationID :: "string option"

definition PutParticipant :: "(string \<Rightarrow> string) \<Rightarrow> Store \<Rightarrow> PutParticipantRequest \<Rightarrow> Store \<times> (fence_error + Session)" where
  "PutParticipant sha s req =
     guarded_update sha s (ppRef req) (ppGuard req) (ppExpectedRevision req)
       (\<lambda>r. let expected = (case ppExpectedDelegationID req of None \<Rightarrow> TrimSpace (pbDelegationID (ppBinding req)) | Some d \<Rightarrow> TrimSpace d)
            in case (if TrimSpace (pbID (ppBinding req)) \<noteq> []
                     then CheckParticipantDelegation (rcSession r) (pbID (ppBinding req)) expected else None) of
                 Some e \<Rightarrow> Inl e
               | None \<Rightarrow> Inr (bump_revision (r\<lparr>rcSession := PutParticipantBinding (rcSession r) (ppBinding req)\<rparr>)))"

record RemoveParticipantRequest =
  rpRef :: SessionRef
  rpGuard :: MutationGuard
  rpExpectedRevision :: "64 word option"
  rpParticipantID :: string
  rpExpectedDelegationID :: "string option"

definition RemoveParticipant :: "(string \<Rightarrow> string) \<Rightarrow> Store \<Rightarrow> RemoveParticipantRequest \<Rightarrow> Store \<times> (fence_error + Session)" where
  "RemoveParticipant sha s req =
     guarded_update sha s (rpRef req) (rpGuard req) (rpExpectedRevision req)
       (\<lambda>r. case (case rpExpectedDelegationID req of
                     None \<Rightarrow> None
                   | Some d \<Rightarrow> CheckParticipantDelegation (rcSession r) (rpParticipantID req) d) of
              Some e \<Rightarrow> Inl e
            | None \<Rightarrow>
                (case RemoveParticipantBinding (rcSession r) (rpParticipantID req) of
                   None \<Rightarrow> Inr r
                 | Some sess \<Rightarrow> Inr (bump_revision (r\<lparr>rcSession := sess\<rparr>))))"

section \<open>Controller and state\<close>

record BindControllerRequest =
  bcRef :: SessionRef
  bcGuard :: MutationGuard
  bcBinding :: json

definition BindController :: "(string \<Rightarrow> string) \<Rightarrow> Store \<Rightarrow> BindControllerRequest \<Rightarrow> Store \<times> (fence_error + Session)" where
  "BindController sha s req =
     guarded_update sha s (bcRef req) (bcGuard req) None
       (\<lambda>r. Inr (bump_revision (r\<lparr>rcSession := (rcSession r)\<lparr>ssController := bcBinding req\<rparr>\<rparr>)))"

record ReplaceStateRequest =
  rsRef :: SessionRef
  rsGuard :: MutationGuard
  rsExpectedRevision :: "64 word option"
  rsState :: json_map

definition ReplaceState :: "(string \<Rightarrow> string) \<Rightarrow> Store \<Rightarrow> ReplaceStateRequest \<Rightarrow> Store \<times> (fence_error + Session)" where
  "ReplaceState sha s req =
     guarded_update sha s (rsRef req) (rsGuard req) (rsExpectedRevision req)
       (\<lambda>r. Inr (bump_revision (r\<lparr>rcState := rsState req\<rparr>)))"

text \<open>The callback of \<open>UpdateState\<close> is a function that may fail; no callback changes nothing.\<close>

record UpdateStateRequest =
  usRef :: SessionRef
  usGuard :: MutationGuard
  usExpectedRevision :: "64 word option"
  usUpdate :: "(json_map \<Rightarrow> json_map option) option"

definition UpdateState :: "(string \<Rightarrow> string) \<Rightarrow> Store \<Rightarrow> UpdateStateRequest \<Rightarrow> Store \<times> (fence_error + Session)" where
  "UpdateState sha s req =
     guarded_update sha s (usRef req) (usGuard req) (usExpectedRevision req)
       (\<lambda>r. case usUpdate req of
              None \<Rightarrow> Inr r
            | Some f \<Rightarrow> (case f (rcState r) of
                           None \<Rightarrow> Inl InvalidValue
                         | Some next \<Rightarrow> Inr (bump_revision (r\<lparr>rcState := next\<rparr>))))"

section \<open>The contract of a guarded mutation\<close>

lemma lookup_key: "lookupLocked s ref = Some r \<Longrightarrow> s (store_key ref) = Some r"
  by (auto simp: lookupLocked_def store_key_def Let_def split: option.splits if_splits)

text \<open>What a change of an authorized record must leave alone.\<close>

definition keeps_fence :: "(session_record \<Rightarrow> fence_error + session_record) \<Rightarrow> bool" where
  "keeps_fence change \<longleftrightarrow>
     (\<forall>r r'. change r = Inr r' \<longrightarrow> rcFence r' = rcFence r \<and> rcFenceEpoch r' = rcFenceEpoch r \<and> ssRef (rcSession r') = ssRef (rcSession r))"

text \<open>
  The interface of the document mutations: without authority nothing changes, other
  sessions are not touched, no session appears or disappears, and fences survive.
\<close>

locale session_mutation =
  fixes sha :: "string \<Rightarrow> string"
    and mutate :: "Store \<Rightarrow> 'q \<Rightarrow> Store \<times> (fence_error + Session)"
    and ref_of :: "'q \<Rightarrow> SessionRef"
    and guard_of :: "'q \<Rightarrow> MutationGuard"
  assumes refused: "lookupLocked s (ref_of q) = Some r \<Longrightarrow> AuthorizeMutationGuard sha (rcFence r) (guard_of q) = Some e \<Longrightarrow>
      mutate s q = (s, Inl e)"
    and missing: "lookupLocked s (ref_of q) = None \<Longrightarrow> mutate s q = (s, Inl SessionNotFound)"
    and frame: "k \<noteq> store_key (ref_of q) \<Longrightarrow> fst (mutate s q) k = s k"
    and kept: "s k = Some r \<Longrightarrow> \<exists>r'. fst (mutate s q) k = Some r' \<and> rcFence r' = rcFence r \<and> rcFenceEpoch r' = rcFenceEpoch r"
begin

lemma success_authorized:
  assumes "mutate s q = (s', Inr sess)"
  shows "\<exists>r. lookupLocked s (ref_of q) = Some r \<and> may_mutate sha (rcFence r) (guard_of q)"
proof (cases "lookupLocked s (ref_of q)")
  case None
  with missing [of s q] assms show ?thesis by simp
next
  case (Some r)
  with refused [OF Some] assms have "AuthorizeMutationGuard sha (rcFence r) (guard_of q) = None"
    by (cases "AuthorizeMutationGuard sha (rcFence r) (guard_of q)") auto
  with Some show ?thesis by (simp add: AuthorizeMutationGuard_iff)
qed

lemma none_stays: "s k = None \<Longrightarrow> fst (mutate s q) k = None"
proof -
  assume k: "s k = None"
  show ?thesis
  proof (cases "k = store_key (ref_of q)")
    case True
    with k have "lookupLocked s (ref_of q) = None"
      using lookup_key by (metis not_None_eq option.distinct(1))
    with missing k show ?thesis by simp
  next
    case False
    with frame k show ?thesis by simp
  qed
qed

lemma stale_token_refused:
  assumes "lookupLocked s (ref_of q) = Some r" and "SessionFenceIsHeld (rcFence r)"
    and "mgAuthority (guard_of q) = MutationAuthorityRuntime" and "mgFencingToken (guard_of q) \<noteq> fnFencingToken (rcFence r)"
  shows "\<exists>e. mutate s q = (s, Inl e)"
proof -
  have "AuthorizeMutationGuard sha (rcFence r) (guard_of q) \<noteq> None"
    using assms authorized_token [of "rcFence r" sha "guard_of q"] by auto
  with refused [OF assms(1)] show ?thesis by auto
qed

end

lemma guarded_update_contract:
  assumes "\<And>q. keeps_fence (change q)"
  shows "session_mutation sha (\<lambda>s q. guarded_update sha s (ref q) (guard q) (expected q) (change q)) ref guard"
proof
  fix s :: Store and q r e
  show "guarded_update sha s (ref q) (guard q) (expected q) (change q) = (s, Inl e)"
    if "lookupLocked s (ref q) = Some r" "AuthorizeMutationGuard sha (rcFence r) (guard q) = Some e"
    using that by (simp add: guarded_update_def authorizeMutation_def)
next
  fix s :: Store and q
  show "guarded_update sha s (ref q) (guard q) (expected q) (change q) = (s, Inl SessionNotFound)"
    if "lookupLocked s (ref q) = None"
    using that by (simp add: guarded_update_def)
next
  fix k and s :: Store and q
  show "fst (guarded_update sha s (ref q) (guard q) (expected q) (change q)) k = s k" if "k \<noteq> store_key (ref q)"
    using that by (auto simp: guarded_update_def Let_def split: option.splits sum.splits)
next
  fix s :: Store and k r q
  assume k: "s k = Some r"
  show "\<exists>r'. fst (guarded_update sha s (ref q) (guard q) (expected q) (change q)) k = Some r' \<and>
        rcFence r' = rcFence r \<and> rcFenceEpoch r' = rcFenceEpoch r"
  proof (cases "k = store_key (ref q) \<and> lookupLocked s (ref q) \<noteq> None")
    case True
    with k lookup_key have l: "lookupLocked s (ref q) = Some r" by fastforce
    show ?thesis
      using True k l assms [of q]
      by (auto simp: guarded_update_def authorizeMutation_def keeps_fence_def Let_def split: option.splits sum.splits)
  next
    case False
    with k show ?thesis by (auto simp: guarded_update_def Let_def split: option.splits sum.splits)
  qed
qed

lemma bump_revision_fence [simp]:
  "rcFence (bump_revision r) = rcFence r" "rcFenceEpoch (bump_revision r) = rcFenceEpoch r"
  "ssRef (rcSession (bump_revision r)) = ssRef (rcSession r)"
  by (simp_all add: bump_revision_def)

interpretation put_participant: session_mutation sha "PutParticipant sha" ppRef ppGuard for sha
  unfolding PutParticipant_def [abs_def]
  by (rule guarded_update_contract) (auto simp: keeps_fence_def PutParticipantBinding_def Let_def split: option.splits)

interpretation remove_participant: session_mutation sha "RemoveParticipant sha" rpRef rpGuard for sha
  unfolding RemoveParticipant_def [abs_def]
  by (rule guarded_update_contract)
    (auto simp: keeps_fence_def RemoveParticipantBinding_def Let_def split: option.splits if_splits)

interpretation bind_controller: session_mutation sha "BindController sha" bcRef bcGuard for sha
  unfolding BindController_def [abs_def]
  by (rule guarded_update_contract [of _ sha bcRef bcGuard "\<lambda>_. None"]) (auto simp: keeps_fence_def)

interpretation replace_state: session_mutation sha "ReplaceState sha" rsRef rsGuard for sha
  unfolding ReplaceState_def [abs_def]
  by (rule guarded_update_contract) (auto simp: keeps_fence_def)

interpretation update_state: session_mutation sha "UpdateState sha" usRef usGuard for sha
  unfolding UpdateState_def [abs_def]
  by (rule guarded_update_contract) (auto simp: keeps_fence_def split: option.splits)

section \<open>Runs of the store\<close>

text \<open>One operation under the store lock, with the random values it draws.\<close>

datatype store_op =
    OpStart SessionRef string json string
  | OpAcquire SessionRef string string string
  | OpReplace bool SessionRef string string string
  | OpRelease ReleaseSessionFenceRequest
  | OpPut PutParticipantRequest
  | OpRemove RemoveParticipantRequest
  | OpBind BindControllerRequest
  | OpReplaceState ReplaceStateRequest
  | OpUpdateState UpdateStateRequest

fun store_step :: "(string \<Rightarrow> string) \<Rightarrow> store_op \<Rightarrow> Store \<Rightarrow> Store" where
  "store_step sha (OpStart ref cwd c fresh) s = (case StartSession s ref cwd c fresh of Inl _ \<Rightarrow> s | Inr (s', _) \<Rightarrow> s')"
| "store_step sha (OpAcquire ref owner fid token) s = fst (AcquireSessionFence sha s ref owner fid token)"
| "store_step sha (OpReplace host ref owner fid token) s = fst (ReplacePriorHostSessionFence sha s host ref owner fid token)"
| "store_step sha (OpRelease req) s = (case ReleaseSessionFence sha s req of Inl _ \<Rightarrow> s | Inr s' \<Rightarrow> s')"
| "store_step sha (OpPut q) s = fst (PutParticipant sha s q)"
| "store_step sha (OpRemove q) s = fst (RemoveParticipant sha s q)"
| "store_step sha (OpBind q) s = fst (BindController sha s q)"
| "store_step sha (OpReplaceState q) s = fst (ReplaceState sha s q)"
| "store_step sha (OpUpdateState q) s = fst (UpdateState sha s q)"

inductive reachable :: "(string \<Rightarrow> string) \<Rightarrow> Store \<Rightarrow> bool" for sha where
  empty: "reachable sha Map.empty"
| step: "reachable sha s \<Longrightarrow> reachable sha (store_step sha op s)"

text \<open>
  The invariant: a stored fence carries no bearer claim, a held fence has an owner and a
  non-zero token, and a fence that is not held is the empty one.
\<close>

definition fence_ok :: "SessionFence \<Rightarrow> bool" where
  "fence_ok fence \<longleftrightarrow>
     fnClaimToken fence = [] \<and>
     (if SessionFenceIsHeld fence then fnFencingToken fence \<noteq> 0 \<and> fnOwnerID fence \<noteq> [] else fence = no_fence)"

definition store_ok :: "Store \<Rightarrow> bool" where
  "store_ok s \<longleftrightarrow> (\<forall>k r. s k = Some r \<longrightarrow> fence_ok (rcFence r))"

lemma no_fence_ok [simp]: "fence_ok no_fence" "\<not> SessionFenceIsHeld no_fence"
  by (simp_all add: fence_ok_def no_fence_def SessionFenceIsHeld_def)

lemma store_okD: "store_ok s \<Longrightarrow> s k = Some r \<Longrightarrow> fence_ok (rcFence r)"
  by (auto simp: store_ok_def)

lemma store_ok_upd: "store_ok s \<Longrightarrow> fence_ok (rcFence r) \<Longrightarrow> store_ok (s(k \<mapsto> r))"
  by (auto simp: store_ok_def)

lemma StartSession_ok: "store_ok s \<Longrightarrow> StartSession s ref cwd c fresh = Inr (s', sess) \<Longrightarrow> store_ok s'"
  by (auto simp: StartSession_def Let_def intro!: store_ok_upd split: if_splits option.splits)

text \<open>The cases of an acquisition.\<close>

lemma acquire_cases:
  assumes "acquireSessionFence sha s ref owner replace fid token = (s', res)"
  obtains (unchanged) e where "s' = s" "res = Inl e"
  | (wasted) r e where "lookupLocked s ref = Some r" "\<not> SessionFenceIsHeld (rcFence r) \<or> replace" "res = Inl e"
      "s' = s(store_key ref \<mapsto> r\<lparr>rcIdle := Invalidate (rcIdle r), rcFenceEpoch := rcFenceEpoch r + 1\<rparr>)"
  | (acquired) r fence where "lookupLocked s ref = Some r"
      "\<not> SessionFenceIsHeld (rcFence r) \<or> replace \<and> fnOwnerID (rcFence r) \<noteq> TrimSpace owner" "res = Inr fence"
      "fence = \<lparr>fnRef = NormalizeSessionRef (ssRef (rcSession r)), fnFenceID = fid, fnOwnerID = TrimSpace owner,
          fnFencingToken = rcFenceEpoch r + 1, fnClaimToken = token, fnClaimDigest = sha (TrimSpace token)\<rparr>"
      "TrimSpace fid \<noteq> []" "TrimSpace owner \<noteq> []" "rcFenceEpoch r + 1 \<noteq> 0"
      "s' = s(store_key ref \<mapsto> r\<lparr>rcIdle := Invalidate (rcIdle r), rcFenceEpoch := rcFenceEpoch r + 1,
                                rcFence := SessionFenceForStorage fence\<rparr>)"
proof (cases "lookupLocked s ref")
  case None
  with assms unchanged show thesis by (auto simp: acquireSessionFence_def)
next
  case (Some r)
  show thesis
  proof (cases "TrimSpace owner = [] \<or> SessionFenceIsHeld (rcFence r) \<and> (\<not> replace \<or> fnOwnerID (rcFence r) = TrimSpace owner)")
    case True
    with Some assms unchanged show thesis by (auto simp: acquireSessionFence_def Let_def split: if_splits)
  next
    case False
    show thesis
    proof (cases "TrimSpace fid = [] \<or> rcFenceEpoch r + 1 = 0")
      case True
      with False Some assms show thesis
        by (intro wasted [of r]) (auto simp: acquireSessionFence_def Let_def NewSessionFenceClaim_def SessionFenceIsHeld_def)
    next
      case ok: False
      with False Some assms show thesis
        by (intro acquired [OF Some])
          (auto simp: acquireSessionFence_def Let_def NewSessionFenceClaim_def SessionFenceIsHeld_def sessionFenceClaimDigest_def)
    qed
  qed
qed

lemma acquire_ok:
  assumes "store_ok s" and "acquireSessionFence sha s ref owner replace fid token = (s', res)"
  shows "store_ok s'"
  using assms(2)
proof (cases rule: acquire_cases)
  case (wasted r e)
  with assms(1) show ?thesis by (auto intro!: store_ok_upd dest: store_okD lookup_key)
next
  case (acquired r fence)
  then have "fence_ok (SessionFenceForStorage fence)"
    by (simp add: fence_ok_def SessionFenceForStorage_def SessionFenceIsHeld_def)
  with assms(1) acquired show ?thesis by (auto intro!: store_ok_upd)
qed (use assms(1) in simp)

lemma release_ok: "store_ok s \<Longrightarrow> ReleaseSessionFence sha s req = Inr s' \<Longrightarrow> store_ok s'"
  by (auto simp: ReleaseSessionFence_def intro!: store_ok_upd split: option.splits if_splits)

lemma ok_of_kept:
  assumes "store_ok s" and "\<And>k r. s k = Some r \<Longrightarrow> \<exists>r'. s' k = Some r' \<and> rcFence r' = rcFence r \<and> rcFenceEpoch r' = rcFenceEpoch r"
    and "\<And>k. s k = None \<Longrightarrow> s' k = None"
  shows "store_ok s'"
  unfolding store_ok_def
proof (intro allI impI)
  fix k r'
  assume r': "s' k = Some r'"
  then obtain r where r: "s k = Some r" using assms(3) [of k] by (cases "s k") auto
  with assms(2) [OF r] r' store_okD [OF assms(1) r] show "fence_ok (rcFence r')" by auto
qed

lemmas mutation_ok =
  ok_of_kept [OF _ put_participant.kept put_participant.none_stays]
  ok_of_kept [OF _ remove_participant.kept remove_participant.none_stays]
  ok_of_kept [OF _ bind_controller.kept bind_controller.none_stays]
  ok_of_kept [OF _ replace_state.kept replace_state.none_stays]
  ok_of_kept [OF _ update_state.kept update_state.none_stays]

lemma store_step_ok: "store_ok s \<Longrightarrow> store_ok (store_step sha op s)"
proof (cases op)
  case (OpAcquire ref owner fid token)
  assume "store_ok s"
  with OpAcquire show ?thesis
    using acquire_ok [of s sha ref owner False fid token] by (cases "acquireSessionFence sha s ref owner False fid token") (simp add: AcquireSessionFence_def)
next
  case (OpReplace host ref owner fid token)
  assume "store_ok s"
  with OpReplace show ?thesis
    using acquire_ok [of s sha ref owner True fid token] by (cases "acquireSessionFence sha s ref owner True fid token") (simp add: ReplacePriorHostSessionFence_def)
next
  case (OpRelease req)
  assume "store_ok s"
  with OpRelease show ?thesis using release_ok [of s sha req] by (auto split: sum.splits)
next
  case (OpStart ref cwd c fresh)
  assume "store_ok s"
  with OpStart show ?thesis using StartSession_ok [of s ref cwd c fresh] by (auto split: sum.splits)
qed (auto intro: mutation_ok)

lemma reachable_ok: "reachable sha s \<Longrightarrow> store_ok s"
  by (induction rule: reachable.induct) (simp_all add: store_step_ok store_ok_def [of Map.empty])

section \<open>Epochs\<close>

text \<open>An operation keeps the epoch of a session or increases it by one.\<close>

lemma acquire_epoch:
  assumes "acquireSessionFence sha s ref owner replace fid token = (s', res)" and "s k = Some r"
  shows "\<exists>r'. s' k = Some r' \<and> rcFenceEpoch r' \<in> {rcFenceEpoch r, rcFenceEpoch r + 1}"
  using assms(1)
proof (cases rule: acquire_cases)
  case (wasted r0 e)
  with assms(2) lookup_key [OF wasted(1)] show ?thesis by (cases "k = store_key ref") auto
next
  case (acquired r0 fence)
  with assms(2) lookup_key [OF acquired(1)] show ?thesis by (cases "k = store_key ref") auto
qed (use assms(2) in auto)

lemma store_step_epoch:
  assumes "s k = Some r"
  shows "\<exists>r'. store_step sha op s k = Some r' \<and> rcFenceEpoch r' \<in> {rcFenceEpoch r, rcFenceEpoch r + 1}"
proof (cases op)
  case (OpStart ref cwd c fresh)
  with assms show ?thesis by (auto simp: StartSession_def Let_def split: option.splits sum.splits if_splits)
next
  case (OpAcquire ref owner fid token)
  then show ?thesis
    using acquire_epoch [of sha s ref owner False fid token, OF _ assms]
    by (cases "acquireSessionFence sha s ref owner False fid token") (auto simp: AcquireSessionFence_def)
next
  case (OpReplace host ref owner fid token)
  then show ?thesis
    using acquire_epoch [of sha s ref owner True fid token, OF _ assms] assms
    by (cases "acquireSessionFence sha s ref owner True fid token") (auto simp: ReplacePriorHostSessionFence_def)
next
  case (OpRelease req)
  with assms lookup_key show ?thesis
    by (fastforce simp: ReleaseSessionFence_def split: option.splits sum.splits if_splits)
next
  case (OpPut q)
  with put_participant.kept [of s k r sha q, OF assms] show ?thesis by auto
next
  case (OpRemove q)
  with remove_participant.kept [of s k r sha q, OF assms] show ?thesis by auto
next
  case (OpBind q)
  with bind_controller.kept [of s k r sha q, OF assms] show ?thesis by auto
next
  case (OpReplaceState q)
  with replace_state.kept [of s k r sha q, OF assms] show ?thesis by auto
next
  case (OpUpdateState q)
  with update_state.kept [of s k r sha q, OF assms] show ?thesis by auto
qed

definition store_run :: "(string \<Rightarrow> string) \<Rightarrow> store_op list \<Rightarrow> Store \<Rightarrow> Store" where
  "store_run sha ops s = fold (store_step sha) ops s"

lemma store_run_epoch:
  "s k = Some r \<Longrightarrow> \<exists>r' n. store_run sha ops s k = Some r' \<and> n \<le> length ops \<and> rcFenceEpoch r' = rcFenceEpoch r + of_nat n"
proof (induction ops arbitrary: s r)
  case Nil
  then show ?case by (auto simp: store_run_def)
next
  case (Cons op ops)
  obtain r1 where r1: "store_step sha op s k = Some r1" "rcFenceEpoch r1 \<in> {rcFenceEpoch r, rcFenceEpoch r + 1}"
    using store_step_epoch [of s k r sha op, OF Cons.prems] by blast
  from Cons.IH [of "store_step sha op s" r1, OF r1(1)] obtain r' n where n: "store_run sha ops (store_step sha op s) k = Some r'"
    "n \<le> length ops" "rcFenceEpoch r' = rcFenceEpoch r1 + of_nat n" by blast
  have "store_run sha (op # ops) s k = Some r'" using n(1) by (simp add: store_run_def)
  moreover have "\<exists>m. m \<le> Suc (length ops) \<and> rcFenceEpoch r1 + of_nat n = rcFenceEpoch r + of_nat m"
    using r1(2) n(2) by (auto intro: exI [of _ n] exI [of _ "Suc n"] simp: ac_simps)
  ultimately show ?case using n(3) by auto
qed

section \<open>Properties\<close>

text \<open>A concrete session and its store, with a readable stand-in for the digest.\<close>

definition sample_ref :: SessionRef where
  "sample_ref = \<lparr>srAppName = ''app'', srUserID = ''u'', srSessionID = ''s1'', srWorkspaceKey = []\<rparr>"

definition sample_record :: session_record where
  "sample_record =
     \<lparr>rcIdle = \<lparr>icEpoch = 0, icWindowRevoked = None\<rparr>,
      rcSession = \<lparr>ssRef = sample_ref, ssRevision = 0, ssCWD = ''/w'', ssController = JNull, ssParticipants = []\<rparr>,
      rcState = [], rcFence = no_fence, rcFenceEpoch = 0\<rparr>"

definition sample_store :: Store where
  "sample_store = [''s1'' \<mapsto> sample_record]"

definition sample_sha :: "string \<Rightarrow> string" where
  "sample_sha token = ''d'' @ token"

definition acquired_fence :: SessionFence where
  "acquired_fence =
     \<lparr>fnRef = sample_ref, fnFenceID = ''f1'', fnOwnerID = ''h'', fnFencingToken = 1, fnClaimToken = ''t1'', fnClaimDigest = ''dt1''\<rparr>"

definition acquired_store :: Store where
  "acquired_store = sample_store(''s1'' \<mapsto> sample_record\<lparr>rcIdle := \<lparr>icEpoch = 1, icWindowRevoked = None\<rparr>, rcFenceEpoch := 1,
     rcFence := acquired_fence\<lparr>fnClaimToken := []\<rparr>\<rparr>)"

lemmas sample_defs =
  sample_ref_def sample_record_def sample_store_def sample_sha_def acquired_fence_def acquired_store_def

lemma sample_acquire:
  "AcquireSessionFence sample_sha sample_store sample_ref ''h'' ''f1'' ''t1'' = (acquired_store, Inr acquired_fence)"
  by (simp add: AcquireSessionFence_def acquireSessionFence_def lookupLocked_def NormalizeSessionRef_def store_key_def
      NewSessionFenceClaim_def SessionFenceIsHeld_def SessionFenceForStorage_def sessionFenceClaimDigest_def
      Invalidate_def no_fence_def sample_defs go_simps Let_def)

text \<open>C25 (invariant). In every reachable store, whatever the interleaving of operations, a stored fence
  carries no bearer claim, a held one has an owner and a non-zero token, a released one is
  empty, and observing a fence reveals neither the claim nor its digest.\<close>

theorem stored_fences_hold_no_claim:
  assumes "reachable sha s"
  shows "store_ok s \<and> (case SessionFence_observed s ref of Inl _ \<Rightarrow> True | Inr f \<Rightarrow> fnClaimToken f = [] \<and> fnClaimDigest f = [])"
  using reachable_ok [OF assms]
  by (auto simp: SessionFence_observed_def SessionFenceForObservation_def split: option.splits)

lemma stored_fences_hold_no_claim_witness: "store_ok (store_step sample_sha (OpStart sample_ref ''/w'' JNull ''x'') Map.empty)"
  using stored_fences_hold_no_claim [OF reachable.step [OF reachable.empty]] by blast

text \<open>C4 (safety). A stale writer is fenced off.  When a fence is acquired, then any sequence of fewer than
  \<open>2^64 - 1\<close> operations runs, and then the session's fence is acquired again, every document
  mutation that still presents the first fence fails and changes nothing.\<close>

theorem stale_writer_rejected:
  assumes "acquireSessionFence sha s ref owner replace fid token = (s1, Inr f1)"
    and "length ops < 2 ^ 64 - 1"
    and "acquireSessionFence sha (store_run sha ops s1) ref owner' replace' fid' token' = (s3, Inr f2)"
  shows "(\<exists>e. PutParticipant sha s3 \<lparr>ppRef = ref, ppGuard = runtime_guard f1, ppExpectedRevision = xr, ppBinding = b, ppExpectedDelegationID = d\<rparr> = (s3, Inl e)) \<and>
         (\<exists>e. RemoveParticipant sha s3 \<lparr>rpRef = ref, rpGuard = runtime_guard f1, rpExpectedRevision = xr, rpParticipantID = p, rpExpectedDelegationID = d\<rparr> = (s3, Inl e)) \<and>
         (\<exists>e. BindController sha s3 \<lparr>bcRef = ref, bcGuard = runtime_guard f1, bcBinding = c\<rparr> = (s3, Inl e)) \<and>
         (\<exists>e. ReplaceState sha s3 \<lparr>rsRef = ref, rsGuard = runtime_guard f1, rsExpectedRevision = xr, rsState = st\<rparr> = (s3, Inl e)) \<and>
         (\<exists>e. UpdateState sha s3 \<lparr>usRef = ref, usGuard = runtime_guard f1, usExpectedRevision = xr, usUpdate = u\<rparr> = (s3, Inl e))"
proof -
  from assms(1) obtain r where r: "lookupLocked s ref = Some r" "fnFencingToken f1 = rcFenceEpoch r + 1"
    "\<exists>r1. s1 (store_key ref) = Some r1 \<and> rcFenceEpoch r1 = rcFenceEpoch r + 1"
    by (cases rule: acquire_cases) auto
  then obtain r1 where r1: "s1 (store_key ref) = Some r1" "rcFenceEpoch r1 = fnFencingToken f1" by auto
  obtain r2 n where r2: "store_run sha ops s1 (store_key ref) = Some r2" "n \<le> length ops"
    "rcFenceEpoch r2 = fnFencingToken f1 + of_nat n"
    using store_run_epoch [of s1 "store_key ref" r1 sha ops, OF r1(1)] r1(2) by auto
  from assms(3) obtain r3 where r3: "lookupLocked s3 ref = Some r3" "SessionFenceIsHeld (rcFence r3)"
    "fnFencingToken (rcFence r3) = rcFenceEpoch r2 + 1"
  proof (cases rule: acquire_cases)
    case (acquired r0 fence)
    with lookup_key [OF acquired(1)] r2(1) have "r0 = r2" by simp
    show thesis
      by (rule that [of "r0\<lparr>rcIdle := Invalidate (rcIdle r0), rcFenceEpoch := rcFenceEpoch r0 + 1, rcFence := SessionFenceForStorage fence\<rparr>"])
        (use acquired \<open>r0 = r2\<close> in \<open>auto simp: lookupLocked_def store_key_def Let_def SessionFenceIsHeld_def SessionFenceForStorage_def
            split: option.splits if_splits\<close>)
  qed auto
  have "(of_nat (n + 1) :: 64 word) \<noteq> 0"
  proof -
    have "n + 1 < 2 ^ 64" using r2(2) assms(2) by simp
    then have "unat (of_nat (n + 1) :: 64 word) = n + 1"
      by (simp only: unat_of_nat take_bit_nat_eq_self_iff) (simp add: take_bit_nat_eq_self)
    then show ?thesis by (metis add_is_0 one_neq_zero unat_0)
  qed
  then have stale: "fnFencingToken f1 \<noteq> fnFencingToken (rcFence r3)"
    using r2(3) r3(3) by (simp add: add.assoc add.commute)
  show ?thesis
    by (intro conjI put_participant.stale_token_refused [OF _ r3(2)] remove_participant.stale_token_refused [OF _ r3(2)]
        bind_controller.stale_token_refused [OF _ r3(2)] replace_state.stale_token_refused [OF _ r3(2)]
        update_state.stale_token_refused [OF _ r3(2)])
      (simp_all add: r3(1) runtime_guard_def stale)
qed

lemma sample_second_acquire:
  "acquireSessionFence sample_sha (store_run sample_sha [OpRelease (SessionFenceReleaseRequest acquired_fence)] acquired_store) sample_ref
     ''h'' False ''f2'' ''t2'' =
   (fst (acquireSessionFence sample_sha (store_run sample_sha [OpRelease (SessionFenceReleaseRequest acquired_fence)] acquired_store) sample_ref
     ''h'' False ''f2'' ''t2''),
    Inr \<lparr>fnRef = sample_ref, fnFenceID = ''f2'', fnOwnerID = ''h'', fnFencingToken = 2, fnClaimToken = ''t2'', fnClaimDigest = ''dt2''\<rparr>)"
  by (simp add: store_run_def ReleaseSessionFence_def SessionFenceReleaseAuthorized_def SessionFenceReleaseRequest_def
      acquireSessionFence_def lookupLocked_def NormalizeSessionRef_def store_key_def sessionFenceClaimMatches_def
      NewSessionFenceClaim_def SessionFenceIsHeld_def SessionFenceForStorage_def sessionFenceClaimDigest_def
      Invalidate_def no_fence_def sample_defs go_simps Let_def)

lemma stale_writer_rejected_witness:
  "\<exists>s3 e. BindController sample_sha s3 \<lparr>bcRef = sample_ref, bcGuard = runtime_guard acquired_fence, bcBinding = JNull\<rparr> = (s3, Inl e)"
  using stale_writer_rejected [OF sample_acquire [unfolded AcquireSessionFence_def] _ sample_second_acquire] by force

text \<open>Mutual exclusion: an ordinary acquisition succeeds only when no fence is held, and a Host
  replacement only with Host ownership and never against its own fence.\<close>

theorem acquisition_is_exclusive:
  assumes "lookupLocked s ref = Some r" and "SessionFenceIsHeld (rcFence r)"
  shows "(\<exists>e. AcquireSessionFence sha s ref owner fid token = (s, Inl e)) \<and>
         ((\<exists>e. ReplacePriorHostSessionFence sha s host ref owner fid token = (s, Inl e)) \<or>
          host \<and> fnOwnerID (rcFence r) \<noteq> TrimSpace owner)"
  using assms
  by (auto simp: AcquireSessionFence_def ReplacePriorHostSessionFence_def acquireSessionFence_def Let_def)

lemma acquisition_is_exclusive_witness:
  "\<exists>e. AcquireSessionFence sample_sha acquired_store sample_ref ''other'' ''f9'' ''t9'' = (acquired_store, Inl e)"
proof -
  have "lookupLocked acquired_store sample_ref = acquired_store ''s1''" "SessionFenceIsHeld (rcFence (the (acquired_store ''s1'')))"
    "acquired_store ''s1'' = Some (the (acquired_store ''s1''))"
    by (simp_all add: lookupLocked_def NormalizeSessionRef_def SessionFenceIsHeld_def sample_defs go_simps Let_def)
  with acquisition_is_exclusive show ?thesis by metis
qed

text \<open>Only the acquirer can release: a release that succeeds after an acquisition presents
  the bearer claim that the acquisition returned.  The digest is only required to give
  texts without surrounding space and not to collide on the two claims.\<close>

theorem release_needs_claim:
  assumes "TrimSpace (sha (TrimSpace token)) = sha (TrimSpace token)"
    and "sha (TrimSpace (rrClaimToken req)) = sha (TrimSpace token) \<longrightarrow> TrimSpace (rrClaimToken req) = TrimSpace token"
    and "acquireSessionFence sha s ref owner replace fid token = (s1, Inr f1)"
    and "store_key (rrRef req) = store_key ref"
    and "ReleaseSessionFence sha s1 req = Inr s2"
  shows "TrimSpace (rrClaimToken req) = TrimSpace (fnClaimToken f1)"
  using assms(3)
proof (cases rule: acquire_cases)
  case (acquired r fence)
  from assms(5) obtain r1 where r1: "lookupLocked s1 (rrRef req) = Some r1" "SessionFenceReleaseAuthorized sha (rcFence r1) req"
    by (auto simp: ReleaseSessionFence_def split: option.splits if_splits)
  from lookup_key [OF r1(1)] acquired(8) assms(4) have "rcFence r1 = SessionFenceForStorage fence" by auto
  then have "fnClaimDigest (rcFence r1) = sha (TrimSpace token)"
    using acquired(4) by (simp add: SessionFenceForStorage_def)
  moreover have "TrimSpace (fnClaimDigest (rcFence r1)) = sha (TrimSpace (rrClaimToken req))"
    using r1(2) claim_matchesD by (simp add: SessionFenceReleaseAuthorized_def)
  ultimately have "TrimSpace (rrClaimToken req) = TrimSpace token" using assms(1,2) by metis
  with acquired(3,4) show ?thesis by simp
qed auto

lemma release_needs_claim_witness:
  "TrimSpace (rrClaimToken (SessionFenceReleaseRequest acquired_fence)) = TrimSpace (fnClaimToken acquired_fence)"
proof (rule release_needs_claim [OF _ _ sample_acquire [unfolded AcquireSessionFence_def]])
  show "ReleaseSessionFence sample_sha acquired_store (SessionFenceReleaseRequest acquired_fence) =
        Inr (acquired_store(''s1'' \<mapsto> (the (acquired_store ''s1''))
              \<lparr>rcIdle := Invalidate (rcIdle (the (acquired_store ''s1''))), rcFence := no_fence\<rparr>))"
    by (simp add: ReleaseSessionFence_def SessionFenceReleaseAuthorized_def SessionFenceReleaseRequest_def lookupLocked_def
        NormalizeSessionRef_def store_key_def sessionFenceClaimMatches_def sessionFenceClaimDigest_def sample_defs go_simps Let_def)
qed (simp_all add: SessionFenceReleaseRequest_def store_key_def sample_defs go_simps)

end
