(* ===== verification/Collab_Store.thy ===== *)
theory Collab_Store
  imports Go_Prelude "HOL-Library.AList" "HOL-Library.List_Lexorder" "HOL-Library.Char_ord"
begin

text \<open>
  The collaboration service's mailbox and shared message log, \<open>control/collaboration/service.go\<close>,
  \<open>messages.go\<close>, \<open>lifecycle.go\<close> and the mail part of \<open>threads.go\<close>.

  The SQLite tables are lists of rows in insertion order, and each SQL statement of the code
  is written out over them: \<open>ORDER BY seq\<close> sorts by the sequence column, \<open>AUTOINCREMENT\<close> is a
  counter that never goes back, \<open>INSERT OR IGNORE\<close> keeps an existing row.  A transaction that
  fails is rolled back, so each transaction takes the error of its statements or its commit
  as an argument (\<open>None\<close> when it succeeds) and leaves the tables alone when there is one.
  A stored body is represented by the message it decodes to, or by a text that does not
  decode; its length is the length of the real encoding.  Results of the execution backend
  (\<open>List\<close>, \<open>Deliver\<close>), of the credential check and of the UUID package are arguments.
  The wake-up channels of waiting callers are not part of the state.
\<close>

section \<open>Data\<close>

record Identity =
  idSession :: string
  idMember :: string

record Thread =
  thParticipantID :: string
  thGeneration :: string
  thID :: string
  thSessionID :: string
  thHandle :: string
  thState :: string
  thCanDeliver :: bool

record Message =
  msID :: string
  msFrom :: string
  msTo :: string
  msText :: string
  msReplyTo :: string

datatype collab_error =
    NotAttached
  | BadTextLength
  | BadReplyTo
  | BadRecipient
  | OverBudget
  | StoredOverBudget
  | Undecodable
  | BadLimit
  | ReaderReplaced
  | ErrSessionClosed
  | NotController
  | BackendError string
  | StoreError string
  | DeliveryError nat string
  | CredentialError

section \<open>The encoding of a message\<close>

definition json_field :: "string \<Rightarrow> string \<Rightarrow> string" where
  "json_field k v = json_quote k @ '':'' @ json_quote v"

definition Marshal :: "Message \<Rightarrow> string" where
  "Marshal m =
     ''{'' @ json_field ''id'' (msID m) @ '','' @ json_field ''from'' (msFrom m) @ '','' @ json_field ''to'' (msTo m) @ '','' @
     json_field ''message'' (msText m) @ (if msReplyTo m = [] then [] else '','' @ json_field ''reply_to'' (msReplyTo m)) @ ''}''"

datatype body = Encoded Message | Malformed string

fun Unmarshal :: "body \<Rightarrow> Message option" where
  "Unmarshal (Encoded m) = Some m"
| "Unmarshal (Malformed s) = None"

fun body_len :: "body \<Rightarrow> nat" where
  "body_len (Encoded m) = length (Marshal m)"
| "body_len (Malformed s) = length s"

definition MaxResponseBytes :: nat where "MaxResponseBytes = 4 * 2 ^ 20"

definition mailboxBatchBytes :: nat where "mailboxBatchBytes = MaxResponseBytes - 64 * 2 ^ 10"

section \<open>Tables\<close>

record mail_row =
  mrSeq :: nat
  mrSession :: string
  mrRecipient :: string
  mrBody :: body

record message_row =
  sgSeq :: nat
  sgSession :: string
  sgID :: string
  sgBody :: body

record tables =
  collaboration_mailbox :: "mail_row list"
  mailboxSequence :: nat
  collaboration_messages :: "message_row list"
  messageSequence :: nat
  collaboration_readers :: "((string \<times> string) \<times> nat) list"
  collaboration_seen :: "(string \<times> string \<times> string) list"
  collaboration_retention :: "(string \<times> nat) list"
  collaboration_setups :: "(string \<times> string) list"

definition empty_tables :: tables where
  "empty_tables =
     \<lparr>collaboration_mailbox = [], mailboxSequence = 0, collaboration_messages = [], messageSequence = 0,
      collaboration_readers = [], collaboration_seen = [], collaboration_retention = [],
      collaboration_setups = []\<rparr>"

definition addressed :: "Identity \<Rightarrow> mail_row \<Rightarrow> bool" where
  "addressed i r \<longleftrightarrow> mrSession r = idSession i \<and> mrRecipient r = idMember i"

section \<open>Membership\<close>

definition readerInstance :: "Thread list \<Rightarrow> string \<Rightarrow> collab_error + string" where
  "readerInstance threads member =
     (case find (\<lambda>t. thHandle t = member) threads of
        Some t \<Rightarrow> Inr (thHandle t @ [CHR 0x00] @ thID t @ [CHR 0x00] @ thParticipantID t @ [CHR 0x00] @ thGeneration t)
      | None \<Rightarrow> Inl NotAttached)"

text \<open>
  \<open>auth\<close> is the error of \<open>Authenticate\<close> when the context carries a credential that is not
  accepted, and \<open>listed\<close> the backend's answer for the caller's Session.
\<close>

definition members :: "collab_error option \<Rightarrow> collab_error + Thread list \<Rightarrow> Identity \<Rightarrow> collab_error + Thread list" where
  "members auth listed i =
     (case auth of
        Some e \<Rightarrow> Inl e
      | None \<Rightarrow>
          (case listed of
             Inl e \<Rightarrow> Inl e
           | Inr threads \<Rightarrow> if list_ex (\<lambda>t. thHandle t = idMember i) threads then Inr threads else Inl NotAttached))"

section \<open>The shared log\<close>

definition retainedMessages :: nat where "retainedMessages = 4096"

definition markMessagesSeen :: "string \<Rightarrow> string \<Rightarrow> Message list \<Rightarrow> tables \<Rightarrow> tables" where
  "markMessagesSeen session inst messages t =
     t\<lparr>collaboration_seen :=
         fold (\<lambda>m seen. if list_ex (\<lambda>r. sgSession r = session \<and> sgID r = msID m) (collaboration_messages t)
                        then List.insert (session, inst, msID m) seen else seen)
           messages (collaboration_seen t)\<rparr>"

definition unmarkDelivery :: "collab_error option \<Rightarrow> Identity \<Rightarrow> string \<Rightarrow> Message list \<Rightarrow> tables \<Rightarrow> tables" where
  "unmarkDelivery db i inst messages t =
     (case db of
        Some _ \<Rightarrow> t
      | None \<Rightarrow>
          t\<lparr>collaboration_seen :=
              fold (\<lambda>m seen. filter (\<lambda>row. row \<noteq> (idSession i, inst, msID m)) seen) messages (collaboration_seen t)\<rparr>)"

text \<open>The rows of one Session in sequence order, and the first sequence number beyond retention.\<close>

definition session_messages :: "tables \<Rightarrow> string \<Rightarrow> message_row list" where
  "session_messages t session = sort_key sgSeq (filter (\<lambda>r. sgSession r = session) (collaboration_messages t))"

definition retention_cutoff :: "tables \<Rightarrow> string \<Rightarrow> nat option" where
  "retention_cutoff t session =
     (let rows = rev (session_messages t session)
      in if length rows > retainedMessages then Some (sgSeq (rows ! retainedMessages)) else None)"

text \<open>The rows of \<open>collaboration_seen\<close> whose message of the Session is at or below a position.\<close>

definition seen_up_to :: "tables \<Rightarrow> string \<Rightarrow> nat \<Rightarrow> string \<Rightarrow> bool" where
  "seen_up_to t session cutoff mid \<longleftrightarrow>
     list_ex (\<lambda>r. sgSession r = session \<and> sgSeq r \<le> cutoff \<and> sgID r = mid) (collaboration_messages t)"

definition appendSharedMessage :: "Identity \<Rightarrow> string \<Rightarrow> Message \<Rightarrow> body \<Rightarrow> tables \<Rightarrow> tables" where
  "appendSharedMessage i inst m bd t =
     (let seq = Suc (messageSequence t);
          t1 = t\<lparr>collaboration_messages := collaboration_messages t @
                   [\<lparr>sgSeq = seq, sgSession = idSession i, sgID = msID m, sgBody = bd\<rparr>],
                 messageSequence := seq\<rparr>;
          t2 = markMessagesSeen (idSession i) inst [m] t1
      in case retention_cutoff t2 (idSession i) of
           None \<Rightarrow> t2
         | Some cutoff \<Rightarrow>
             t2\<lparr>collaboration_retention := AList.update (idSession i) cutoff (collaboration_retention t2),
                collaboration_seen :=
                  filter (\<lambda>(s, n, mid). \<not> (s = idSession i \<and> seen_up_to t2 (idSession i) cutoff mid)) (collaboration_seen t2),
                collaboration_messages :=
                  filter (\<lambda>r. \<not> (sgSession r = idSession i \<and> sgSeq r \<le> cutoff)) (collaboration_messages t2)\<rparr>)"

section \<open>Closing a Session\<close>

definition delete_session :: "string \<Rightarrow> tables \<Rightarrow> tables" where
  "delete_session sid t =
     t\<lparr>collaboration_mailbox := filter (\<lambda>r. mrSession r \<noteq> sid) (collaboration_mailbox t),
       collaboration_messages := filter (\<lambda>r. sgSession r \<noteq> sid) (collaboration_messages t),
       collaboration_readers := filter (\<lambda>((s, n), c). s \<noteq> sid) (collaboration_readers t),
       collaboration_seen := filter (\<lambda>r. fst r \<noteq> sid) (collaboration_seen t),
       collaboration_retention := filter (\<lambda>r. fst r \<noteq> sid) (collaboration_retention t),
       collaboration_setups := filter (\<lambda>r. fst r \<noteq> sid) (collaboration_setups t)\<rparr>"

definition purgeClosedSession :: "collab_error option \<Rightarrow> string \<Rightarrow> tables \<Rightarrow> tables \<times> collab_error option" where
  "purgeClosedSession db sid t = (case db of Some e \<Rightarrow> (t, Some e) | None \<Rightarrow> (delete_session sid t, None))"

definition CleanupClosedSession ::
    "collab_error + Thread list \<Rightarrow> collab_error option \<Rightarrow> string \<Rightarrow> tables \<Rightarrow> tables \<times> collab_error option" where
  "CleanupClosedSession listed db sid t =
     (case listed of
        Inl e \<Rightarrow> if e = ErrSessionClosed then purgeClosedSession db sid t else (t, Some e)
      | Inr _ \<Rightarrow> (t, None))"

text \<open>
  The sweep: pages of at most 128 Session names in byte order, taken from all six tables,
  each page starting after the last name of the one before.  \<open>listed\<close> and \<open>db\<close> give the backend's
  answer and the error of the transaction for each Session.
\<close>

definition session_column :: "tables \<Rightarrow> string list" where
  "session_column t =
     sort (remdups (map mrSession (collaboration_mailbox t) @ map sgSession (collaboration_messages t) @
       map (fst \<circ> fst) (collaboration_readers t) @ map fst (collaboration_seen t) @
       map fst (collaboration_retention t) @ map fst (collaboration_setups t)))"

definition cleanup_all ::
    "(string \<Rightarrow> collab_error + Thread list) \<Rightarrow> (string \<Rightarrow> collab_error option) \<Rightarrow> string list \<Rightarrow> tables \<Rightarrow> tables" where
  "cleanup_all listed db ids t = fold (\<lambda>sid s. fst (CleanupClosedSession (listed sid) (db sid) sid s)) ids t"

lemma session_column_cleanup:
  "set (session_column (cleanup_all listed db ids t)) \<subseteq> set (session_column t)"
proof (induction ids arbitrary: t)
  case (Cons sid ids)
  have "set (session_column (fst (CleanupClosedSession (listed sid) (db sid) sid t))) \<subseteq> set (session_column t)"
    by (auto simp: CleanupClosedSession_def purgeClosedSession_def delete_session_def session_column_def
        split: sum.split option.split)
  with Cons show ?case by (fastforce simp: cleanup_all_def)
qed (simp add: cleanup_all_def)

function cleanupClosedSessions ::
    "(string \<Rightarrow> collab_error + Thread list) \<Rightarrow> (string \<Rightarrow> collab_error option) \<Rightarrow> string \<Rightarrow> tables \<Rightarrow> tables" where
  "cleanupClosedSessions listed db after t =
     (let ids = take 128 (filter (\<lambda>s. after < s) (session_column t))
      in if ids = [] then t else cleanupClosedSessions listed db (last ids) (cleanup_all listed db ids t))"
  by pat_completeness auto

termination
proof (relation "measure (\<lambda>(listed, db, after, t). card {s \<in> set (session_column t). after < s})", simp, clarsimp)
  fix listed db after t
  let ?ids = "take 128 (filter (\<lambda>s. after < s) (session_column t))"
  let ?t = "cleanup_all listed db ?ids t"
  assume "filter (\<lambda>s. after < s) (session_column t) \<noteq> []"
  then have "last ?ids \<in> set ?ids" by (intro last_in_set) simp
  then have l: "last ?ids \<in> set (session_column t)" "after < last ?ids" by (auto dest: in_set_takeD)
  have "{s \<in> set (session_column ?t). last ?ids < s} \<subset> {s \<in> set (session_column t). after < s}"
    using l session_column_cleanup [of listed db ?ids t] by (auto dest: less_trans)
  then show "card {s \<in> set (session_column ?t). last ?ids < s} < card {s \<in> set (session_column t). after < s}"
    by (intro psubset_card_mono) auto
qed

declare cleanupClosedSessions.simps [simp del]

section \<open>Sending\<close>

text \<open>
  \<open>fresh\<close> is the new message identity, \<open>canonical\<close> the test that a text is the canonical
  form of a UUID, \<open>listed\<close> and \<open>relisted\<close> the backend's answers before and after the
  transaction, \<open>db\<close> and \<open>purge_db\<close> the errors of the transaction and of a purge.
\<close>

definition compose_message ::
    "collab_error option \<Rightarrow> collab_error + Thread list \<Rightarrow> (string \<Rightarrow> bool) \<Rightarrow> string \<Rightarrow> Identity \<Rightarrow> string \<Rightarrow> string \<Rightarrow> string \<Rightarrow>
     collab_error + string \<times> Message" where
  "compose_message auth listed canonical fresh i dest content replyTo =
     (case members auth listed i of
        Inl e \<Rightarrow> Inl e
      | Inr threads \<Rightarrow>
          let to = TrimPrefix dest ''@'' in
          case readerInstance threads (idMember i) of
            Inl e \<Rightarrow> Inl e
          | Inr inst \<Rightarrow>
              if length content = 0 \<or> length content > 65536 then Inl BadTextLength
              else if replyTo \<noteq> [] \<and> \<not> canonical replyTo then Inl BadReplyTo
              else if \<not> list_ex (\<lambda>th. thHandle th = to) threads \<or> to = idMember i then Inl BadRecipient
              else
                let m = \<lparr>msID = fresh, msFrom = idMember i, msTo = to, msText = content, msReplyTo = replyTo\<rparr> in
                if length (Marshal m) + 2 > mailboxBatchBytes then Inl OverBudget else Inr (inst, m))"

definition commit_message :: "Identity \<Rightarrow> string \<Rightarrow> Message \<Rightarrow> tables \<Rightarrow> tables" where
  "commit_message i inst m t =
     (let t1 = appendSharedMessage i inst m (Encoded m) t;
          seq = Suc (mailboxSequence t1)
      in t1\<lparr>collaboration_mailbox := collaboration_mailbox t1 @
              [\<lparr>mrSeq = seq, mrSession = idSession i, mrRecipient = msTo m, mrBody = Encoded m\<rparr>],
            mailboxSequence := seq\<rparr>)"

definition Send ::
    "collab_error option \<Rightarrow> collab_error + Thread list \<Rightarrow> collab_error + Thread list \<Rightarrow> collab_error option \<Rightarrow> collab_error option \<Rightarrow>
     (string \<Rightarrow> bool) \<Rightarrow> string \<Rightarrow> Identity \<Rightarrow> string \<Rightarrow> string \<Rightarrow> string \<Rightarrow> tables \<Rightarrow> tables \<times> (collab_error + Message)" where
  "Send auth listed relisted db purge_db canonical fresh i dest content replyTo t =
     (case compose_message auth listed canonical fresh i dest content replyTo of
        Inl e \<Rightarrow> (t, Inl e)
      | Inr (inst, m) \<Rightarrow>
          (case db of
             Some e \<Rightarrow> (t, Inl e)
           | None \<Rightarrow>
               let t1 = commit_message i inst m t in
               if relisted = Inl ErrSessionClosed
               then (fst (purgeClosedSession purge_db (idSession i) t1), Inl ErrSessionClosed)
               else (t1, Inr m)))"

section \<open>Taking mail\<close>

fun take_loop :: "nat \<Rightarrow> Message list \<Rightarrow> nat \<Rightarrow> mail_row list \<Rightarrow> collab_error + Message list \<times> nat" where
  "take_loop encodedBytes out lastSeq [] = Inr (out, lastSeq)"
| "take_loop encodedBytes out lastSeq (r # rows) =
     (case Unmarshal (mrBody r) of
        None \<Rightarrow> Inl Undecodable
      | Some m \<Rightarrow>
          let nextBytes = encodedBytes + length (Marshal m) + (if out = [] then 0 else 1)
          in if nextBytes > mailboxBatchBytes
             then (if out = [] then Inl StoredOverBudget else Inr (out, lastSeq))
             else take_loop nextBytes (out @ [m]) (mrSeq r) rows)"

definition sql_limit :: "int \<Rightarrow> 'a list \<Rightarrow> 'a list" where
  "sql_limit n xs = (if n < 0 then xs else take (nat n) xs)"

definition mailbox_rows :: "tables \<Rightarrow> Identity \<Rightarrow> mail_row list" where
  "mailbox_rows t i = sort_key mrSeq (filter (addressed i) (collaboration_mailbox t))"

definition take_mail :: "collab_error option \<Rightarrow> Identity \<Rightarrow> int \<Rightarrow> string option \<Rightarrow> tables \<Rightarrow> tables \<times> (collab_error + Message list)" where
  "take_mail db i limit seenInstance t =
     (case db of
        Some e \<Rightarrow> (t, Inl e)
      | None \<Rightarrow>
          (case take_loop 2 [] 0 (sql_limit limit (mailbox_rows t i)) of
             Inl e \<Rightarrow> (t, Inl e)
           | Inr (out, lastSeq) \<Rightarrow>
               let t1 = (if out = [] then t
                         else t\<lparr>collaboration_mailbox :=
                                  filter (\<lambda>r. \<not> (addressed i r \<and> mrSeq r \<le> lastSeq)) (collaboration_mailbox t)\<rparr>);
                   t2 = (case seenInstance of None \<Rightarrow> t1 | Some inst \<Rightarrow> markMessagesSeen (idSession i) inst out t1)
               in (t2, Inr out)))"

definition Receive :: "collab_error option \<Rightarrow> collab_error + Thread list \<Rightarrow> collab_error option \<Rightarrow> Identity \<Rightarrow> tables \<Rightarrow> tables \<times> (collab_error + Message list)" where
  "Receive auth listed db i t =
     (case members auth listed i of
        Inl e \<Rightarrow> (t, Inl e)
      | Inr threads \<Rightarrow>
          (case readerInstance threads (idMember i) of
             Inl e \<Rightarrow> (t, Inl e)
           | Inr inst \<Rightarrow> take_mail db i 32 (Some inst) t))"

definition pendingRecipients :: "tables \<Rightarrow> Identity list" where
  "pendingRecipients t = remdups (map (\<lambda>r. \<lparr>idSession = mrSession r, idMember = mrRecipient r\<rparr>) (collaboration_mailbox t))"

definition claimRecipient :: "collab_error + Thread list \<Rightarrow> collab_error option \<Rightarrow> Identity \<Rightarrow> tables \<Rightarrow> tables \<times> (collab_error + Message list \<times> string)" where
  "claimRecipient listed db i t =
     (case listed of
        Inl e \<Rightarrow>
          if e = ErrSessionClosed
          then (case purgeClosedSession db (idSession i) t of
                  (t', Some e') \<Rightarrow> (t', Inl e')
                | (t', None) \<Rightarrow> (t', Inr ([], [])))
          else (t, Inl e)
      | Inr threads \<Rightarrow>
          if list_ex (\<lambda>th. thHandle th = idMember i \<and> thCanDeliver th) threads
          then case readerInstance threads (idMember i) of
                 Inl e \<Rightarrow> (t, Inl e)
               | Inr inst \<Rightarrow>
                   (case take_mail db i (-1) (Some inst) t of
                      (t', Inl e) \<Rightarrow> (t', Inl e)
                    | (t', Inr messages) \<Rightarrow> (t', Inr (messages, inst)))
          else (t, Inr ([], [])))"

text \<open>
  One delivery attempt run to its end: \<open>delivered\<close> is the answer of \<open>Deliver\<close>, an error text
  or \<open>None\<close>.  The batch handed to \<open>Deliver\<close> is the second component of the result.
\<close>

definition deliverRecipient ::
    "collab_error + Thread list \<Rightarrow> collab_error option \<Rightarrow> string option \<Rightarrow> collab_error option \<Rightarrow> Identity \<Rightarrow> tables \<Rightarrow>
     tables \<times> Message list \<times> collab_error option" where
  "deliverRecipient listed db delivered unmark_db i t =
     (case claimRecipient listed db i t of
        (t1, Inl e) \<Rightarrow> (t1, [], Some e)
      | (t1, Inr (messages, inst)) \<Rightarrow>
          if messages = [] then (t1, [], None)
          else case delivered of
                 Some e \<Rightarrow> (unmarkDelivery unmark_db i inst messages t1, messages, Some (DeliveryError (length messages) e))
               | None \<Rightarrow> (t1, messages, None))"

text \<open>The mail part of removing a participant; \<open>removed\<close> is the error of the backend's removal.\<close>

definition Remove_mail ::
    "collab_error option \<Rightarrow> collab_error + Thread list \<Rightarrow> collab_error option \<Rightarrow> collab_error option \<Rightarrow> Identity \<Rightarrow> string \<Rightarrow> tables \<Rightarrow> tables \<times> collab_error option" where
  "Remove_mail auth listed removed db i handle t =
     (if idMember i \<noteq> ''parent'' \<or> handle = ''parent'' then (t, Some NotController)
      else case members auth listed i of
             Inl e \<Rightarrow> (t, Some e)
           | Inr _ \<Rightarrow>
               (case removed of
                  Some e \<Rightarrow> (t, Some e)
                | None \<Rightarrow>
                    (case db of
                       Some e \<Rightarrow> (t, Some e)
                     | None \<Rightarrow>
                         (t\<lparr>collaboration_mailbox :=
                              filter (\<lambda>r. \<not> addressed \<lparr>idSession = idSession i, idMember = handle\<rparr> r) (collaboration_mailbox t)\<rparr>, None))))"

section \<open>Reading the shared log\<close>

record SharedMessage =
  shSequence :: nat
  shMessage :: Message

record MessagePage =
  pgMessages :: "SharedMessage list"
  pgCursor :: nat
  pgHasMore :: bool
  pgTruncatedBefore :: nat

fun read_loop :: "bool \<Rightarrow> nat \<Rightarrow> (message_row \<Rightarrow> bool) \<Rightarrow> nat \<Rightarrow> MessagePage \<Rightarrow> message_row list \<Rightarrow> collab_error + MessagePage" where
  "read_loop unread limit seen bytes page [] = Inr page"
| "read_loop unread limit seen bytes page (r # rows) =
     (if seen r \<and> unread then read_loop unread limit seen bytes (page\<lparr>pgCursor := sgSeq r\<rparr>) rows
      else if length (pgMessages page) \<ge> limit \<or> bytes + body_len (sgBody r) > mailboxBatchBytes
      then Inr (page\<lparr>pgHasMore := True\<rparr>)
      else case Unmarshal (sgBody r) of
             None \<Rightarrow> Inl Undecodable
           | Some m \<Rightarrow>
               read_loop unread limit seen (bytes + body_len (sgBody r) + 64)
                 (page\<lparr>pgMessages := pgMessages page @ [\<lparr>shSequence = sgSeq r, shMessage = m\<rparr>], pgCursor := sgSeq r\<rparr>) rows)"

text \<open>The position a read starts from and the retention gap it reports.\<close>

definition read_start :: "tables \<Rightarrow> string \<Rightarrow> string \<Rightarrow> nat option \<Rightarrow> nat \<times> nat" where
  "read_start t session inst after =
     (let cursor = (case after of
                      Some c \<Rightarrow> c
                    | None \<Rightarrow> (case map_of (collaboration_readers t) (session, inst) of Some c \<Rightarrow> c | None \<Rightarrow> 0));
          trimmed = (case map_of (collaboration_retention t) session of Some c \<Rightarrow> c | None \<Rightarrow> 0)
      in if cursor < trimmed then (trimmed, trimmed) else (cursor, 0))"

definition read_page :: "tables \<Rightarrow> string \<Rightarrow> string \<Rightarrow> nat option \<Rightarrow> nat \<Rightarrow> collab_error + MessagePage" where
  "read_page t session inst after limit =
     (case read_start t session inst after of
        (cursor, gap) \<Rightarrow>
          read_loop (after = None) limit (\<lambda>r. (session, inst, sgID r) \<in> set (collaboration_seen t)) 0
            \<lparr>pgMessages = [], pgCursor = cursor, pgHasMore = False, pgTruncatedBefore = gap\<rparr>
            (filter (\<lambda>r. sgSeq r > cursor) (session_messages t session)))"

definition commit_read :: "string \<Rightarrow> string \<Rightarrow> nat \<Rightarrow> tables \<Rightarrow> tables" where
  "commit_read session inst cursor t =
     t\<lparr>collaboration_readers := AList.update (session, inst) cursor (collaboration_readers t),
       collaboration_seen :=
         filter (\<lambda>(s, n, mid). \<not> (s = session \<and> n = inst \<and> seen_up_to t session cursor mid)) (collaboration_seen t)\<rparr>"

definition ReadMessages ::
    "collab_error option \<Rightarrow> collab_error + Thread list \<Rightarrow> collab_error option \<Rightarrow> collab_error + Thread list \<Rightarrow> collab_error option \<Rightarrow>
     Identity \<Rightarrow> nat option \<Rightarrow> int \<Rightarrow> tables \<Rightarrow> tables \<times> (collab_error + MessagePage)" where
  "ReadMessages auth listed auth' relisted db i after limit t =
     (let limit = (if limit = 0 then 32 else limit) in
      if limit < 1 \<or> limit > 128 then (t, Inl BadLimit)
      else case members auth listed i of
             Inl e \<Rightarrow> (t, Inl e)
           | Inr threads \<Rightarrow>
               (case readerInstance threads (idMember i) of
                  Inl e \<Rightarrow> (t, Inl e)
                | Inr inst \<Rightarrow>
                    (case read_page t (idSession i) inst after (nat limit) of
                       Inl e \<Rightarrow> (t, Inl e)
                     | Inr page \<Rightarrow>
                         (case members auth' relisted i of
                            Inl e \<Rightarrow> (t, Inl e)
                          | Inr current \<Rightarrow>
                              if readerInstance current (idMember i) \<noteq> Inr inst then (t, Inl ReaderReplaced)
                              else case db of
                                     Some e \<Rightarrow> (t, Inl e)
                                   | None \<Rightarrow>
                                       (if after = None then commit_read (idSession i) inst (pgCursor page) t else t, Inr page)))))"

end
