(* ===== verification/Collab_Mailbox.thy ===== *)
theory Collab_Mailbox
  imports Collab_Store
begin

text \<open>
  Correctness of the mailbox: every operation keeps the tables well formed, mail is taken in
  sending order and at most once, and what a member takes never depends on, or touches, the
  mail of another member or Session.  The contract is the locale \<open>fifo_mailbox\<close>; the service's
  operations interpret it.
\<close>

section \<open>The contract of a mailbox\<close>

text \<open>The concatenation of what each operation of a run contributes for a member.\<close>

fun log_of :: "('op \<Rightarrow> 't \<Rightarrow> 't) \<Rightarrow> ('op \<Rightarrow> 't \<Rightarrow> Identity \<Rightarrow> 'm list) \<Rightarrow> 'op list \<Rightarrow> 't \<Rightarrow> Identity \<Rightarrow> 'm list" where
  "log_of step f [] t i = []"
| "log_of step f (op # ops) t i = f op t i @ log_of step f ops (step op t) i"

fun ever :: "('op \<Rightarrow> 't \<Rightarrow> 't) \<Rightarrow> ('op \<Rightarrow> 't \<Rightarrow> Identity \<Rightarrow> bool) \<Rightarrow> 'op list \<Rightarrow> 't \<Rightarrow> Identity \<Rightarrow> bool" where
  "ever step p [] t i = False"
| "ever step p (op # ops) t i = (p op t i \<or> ever step p ops (step op t) i)"

text \<open>
  \<open>sent\<close> and \<open>taken\<close> say what an operation adds to and removes from the head of a member's mail,
  \<open>drops\<close> that it discards the member's mail.
\<close>

locale fifo_mailbox =
  fixes inv :: "'t \<Rightarrow> bool"
    and pending :: "Identity \<Rightarrow> 't \<Rightarrow> 'm list"
    and step :: "'op \<Rightarrow> 't \<Rightarrow> 't"
    and sent :: "'op \<Rightarrow> 't \<Rightarrow> Identity \<Rightarrow> 'm list"
    and taken :: "'op \<Rightarrow> 't \<Rightarrow> Identity \<Rightarrow> 'm list"
    and drops :: "'op \<Rightarrow> 't \<Rightarrow> Identity \<Rightarrow> bool"
  assumes inv_step: "inv t \<Longrightarrow> inv (step op t)"
    and flow: "inv t \<Longrightarrow> \<not> drops op t i \<Longrightarrow> pending i t @ sent op t i = taken op t i @ pending i (step op t)"
    and dropped: "inv t \<Longrightarrow> drops op t i \<Longrightarrow> pending i (step op t) = [] \<and> taken op t i = []"
begin

lemma run_inv: "inv t \<Longrightarrow> inv (run_ops step ops t)"
  by (induction ops arbitrary: t) (auto intro: inv_step)

lemma conservation:
  "inv t \<Longrightarrow> \<not> ever step drops ops t i \<Longrightarrow>
   pending i t @ log_of step sent ops t i = log_of step taken ops t i @ pending i (run_ops step ops t)"
proof (induction ops arbitrary: t)
  case (Cons op ops)
  have "pending i t @ log_of step sent (op # ops) t i = (pending i t @ sent op t i) @ log_of step sent ops (step op t) i" by simp
  also have "\<dots> = taken op t i @ (pending i (step op t) @ log_of step sent ops (step op t) i)"
    using flow [of t op i] Cons.prems by simp
  also have "\<dots> = taken op t i @ log_of step taken ops (step op t) i @ pending i (run_ops step ops (step op t))"
    using Cons.IH [OF inv_step] Cons.prems by simp
  finally show ?case by simp
qed simp

lemma at_most_once_in_order:
  "inv t \<Longrightarrow> subseq (log_of step taken ops t i @ pending i (run_ops step ops t)) (pending i t @ log_of step sent ops t i)"
proof (induction ops arbitrary: t)
  case (Cons op ops)
  note ih = Cons.IH [OF inv_step [OF Cons.prems], of op]
  show ?case
  proof (cases "drops op t i")
    case True
    then show ?thesis
      using ih dropped [OF Cons.prems True]
      by (auto intro: subseq_order.trans list_emb_append2 simp: list_emb_append2)
  next
    case False
    have e: "pending i t @ log_of step sent (op # ops) t i = taken op t i @ (pending i (step op t) @ log_of step sent ops (step op t) i)"
      using flow [OF Cons.prems False] by (metis log_of.simps(2) append.assoc)
    have "subseq (taken op t i @ (log_of step taken ops (step op t) i @ pending i (run_ops step ops (step op t))))
                 (taken op t i @ (pending i (step op t) @ log_of step sent ops (step op t) i))"
      using ih by (simp only: subseq_append')
    then show ?thesis unfolding e by simp
  qed
qed simp

end

section \<open>Well-formed tables\<close>

definition rows_ordered :: "('r \<Rightarrow> nat) \<Rightarrow> nat \<Rightarrow> 'r list \<Rightarrow> bool" where
  "rows_ordered key bound rows \<longleftrightarrow> sorted_wrt (<) (map key rows) \<and> (\<forall>r \<in> set rows. key r \<le> bound)"

definition mail_ok :: "tables \<Rightarrow> bool" where
  "mail_ok t \<longleftrightarrow>
     rows_ordered mrSeq (mailboxSequence t) (collaboration_mailbox t) \<and>
     (\<forall>r \<in> set (collaboration_mailbox t). \<exists>m. mrBody r = Encoded m \<and> length (Marshal m) + 2 \<le> mailboxBatchBytes)"

definition log_ok :: "tables \<Rightarrow> bool" where
  "log_ok t \<longleftrightarrow>
     rows_ordered sgSeq (messageSequence t) (collaboration_messages t) \<and>
     (\<forall>r \<in> set (collaboration_messages t). \<exists>m. sgBody r = Encoded m \<and> sgID r = msID m) \<and>
     (\<forall>s. length (filter (\<lambda>r. sgSession r = s) (collaboration_messages t)) \<le> retainedMessages) \<and>
     (\<forall>s c. map_of (collaboration_retention t) s = Some c \<longrightarrow> c \<le> messageSequence t \<and>
        (\<forall>r \<in> set (collaboration_messages t). sgSession r = s \<longrightarrow> c < sgSeq r))"

definition tables_ok :: "tables \<Rightarrow> bool" where
  "tables_ok t \<longleftrightarrow> mail_ok t \<and> log_ok t"

lemma rows_ordered_filter: "rows_ordered key bound rows \<Longrightarrow> rows_ordered key bound (filter P rows)"
  by (auto simp: rows_ordered_def sorted_wrt_map intro: sorted_wrt_filter)

lemma rows_ordered_snoc:
  "rows_ordered key bound rows \<Longrightarrow> bound < key r \<Longrightarrow> rows_ordered key (key r) (rows @ [r])"
  by (fastforce simp: rows_ordered_def sorted_wrt_append)

lemma rows_ordered_sort: "rows_ordered key bound rows \<Longrightarrow> sort_key key rows = rows"
  by (auto simp: rows_ordered_def intro!: sort_key_id_if_sorted strict_sorted_imp_sorted)

lemma mailbox_rows_ok: "tables_ok t \<Longrightarrow> mailbox_rows t i = filter (addressed i) (collaboration_mailbox t)"
  unfolding mailbox_rows_def tables_ok_def mail_ok_def by (blast intro: rows_ordered_sort rows_ordered_filter)

lemma session_messages_ok: "tables_ok t \<Longrightarrow> session_messages t s = filter (\<lambda>r. sgSession r = s) (collaboration_messages t)"
  unfolding session_messages_def tables_ok_def log_ok_def by (blast intro: rows_ordered_sort rows_ordered_filter)

fun body_message :: "body \<Rightarrow> Message" where
  "body_message (Encoded m) = m"
| "body_message (Malformed s) = \<lparr>msID = [], msFrom = [], msTo = [], msText = s, msReplyTo = []\<rparr>"

text \<open>The mail a member has not taken yet, in sending order.\<close>

definition pending_mail :: "Identity \<Rightarrow> tables \<Rightarrow> Message list" where
  "pending_mail i t = map (body_message \<circ> mrBody) (mailbox_rows t i)"

section \<open>The batch taken from a mailbox\<close>

lemma take_loop_prefix:
  "take_loop n out lastSeq rows = Inr (out', lastSeq') \<Longrightarrow>
   \<exists>k \<le> length rows. out' = out @ map (body_message \<circ> mrBody) (take k rows) \<and>
     lastSeq' = (if k = 0 then lastSeq else mrSeq (rows ! (k - 1)))"
proof (induction rows arbitrary: n out lastSeq)
  case (Cons r rows)
  obtain m where m: "mrBody r = Encoded m" using Cons.prems by (cases "mrBody r") auto
  let ?next = "n + length (Marshal m) + (if out = [] then 0 else 1)"
  show ?case
  proof (cases "?next > mailboxBatchBytes")
    case True
    then have "out' = out \<and> lastSeq' = lastSeq" using Cons.prems m by (simp add: Let_def split: if_splits)
    then show ?thesis by (intro exI [of _ 0]) simp
  next
    case False
    then have "take_loop ?next (out @ [m]) (mrSeq r) rows = Inr (out', lastSeq')" using Cons.prems m by (simp add: Let_def)
    from Cons.IH [OF this] obtain k where "k \<le> length rows" "out' = (out @ [m]) @ map (body_message \<circ> mrBody) (take k rows)"
      "lastSeq' = (if k = 0 then mrSeq r else mrSeq (rows ! (k - 1)))" by blast
    then show ?thesis by (intro exI [of _ "Suc k"]) (simp add: m nth_Cons')
  qed
qed simp

lemma take_loop_total:
  assumes "\<forall>r \<in> set rows. \<exists>m. mrBody r = Encoded m \<and> length (Marshal m) + 2 \<le> mailboxBatchBytes"
    and "out \<noteq> [] \<or> n = 2"
  shows "\<exists>out' lastSeq'. take_loop n out lastSeq rows = Inr (out', lastSeq') \<and> (rows \<noteq> [] \<longrightarrow> out' \<noteq> [])"
  using assms
proof (induction n out lastSeq rows rule: take_loop.induct)
  case (2 n out lastSeq r rows)
  then obtain m where m: "mrBody r = Encoded m" "length (Marshal m) + 2 \<le> mailboxBatchBytes" by auto
  let ?next = "n + length (Marshal m) + (if out = [] then 0 else 1)"
  show ?case
  proof (cases "?next > mailboxBatchBytes")
    case True
    then show ?thesis using m 2(3) by (auto simp: Let_def)
  next
    case False
    have "\<exists>out' lastSeq'. take_loop ?next (out @ [m]) (mrSeq r) rows = Inr (out', lastSeq') \<and> (rows \<noteq> [] \<longrightarrow> out' \<noteq> [])"
      using 2(1) [of m ?next] False m 2(2) by simp
    then obtain out' lastSeq' where t: "take_loop ?next (out @ [m]) (mrSeq r) rows = Inr (out', lastSeq')" by blast
    moreover from take_loop_prefix [OF t] have "out' \<noteq> []" by auto
    ultimately show ?thesis using False m by (auto simp: Let_def)
  qed
qed simp

lemma strict_prefix_cut:
  fixes key :: "'r \<Rightarrow> nat"
  assumes "sorted_wrt (<) (map key xs)" "k \<le> length xs" "0 < k"
  shows "filter (\<lambda>r. \<not> key r \<le> key (xs ! (k - 1))) xs = drop k xs"
proof -
  have "xs = take k xs @ drop k xs" by simp
  moreover have "\<forall>r \<in> set (take k xs). key r \<le> key (xs ! (k - 1))"
  proof
    fix r assume "r \<in> set (take k xs)"
    then obtain j where j: "j < k" "r = xs ! j" using assms(2) by (auto simp: in_set_conv_nth)
    show "key r \<le> key (xs ! (k - 1))"
    proof (cases "j = k - 1")
      case False
      then have "j < k - 1" using j by simp
      moreover have "k - 1 < length xs" using assms(2,3) by linarith
      ultimately show ?thesis using sorted_wrt_nth_less [OF assms(1), of j "k - 1"] j by simp
    qed (simp add: j)
  qed
  moreover have "\<forall>r \<in> set (drop k xs). key (xs ! (k - 1)) < key r"
  proof
    fix r assume "r \<in> set (drop k xs)"
    then obtain j where "j < length (drop k xs)" "r = drop k xs ! j" by (metis in_set_conv_nth)
    then have j: "k + j < length xs" "r = xs ! (k + j)" by auto
    then show "key (xs ! (k - 1)) < key r" using assms by (auto simp: sorted_wrt_iff_nth_less)
  qed
  ultimately show ?thesis
    by (subst \<open>xs = take k xs @ drop k xs\<close>, subst filter_append) (auto simp: filter_empty_conv filter_id_conv not_le)
qed

section \<open>Every operation keeps the tables well formed\<close>

text \<open>Operations on the other tables leave the mail alone.\<close>

lemma pending_mail_cong:
  "collaboration_mailbox t' = collaboration_mailbox t \<Longrightarrow> pending_mail i t' = pending_mail i t"
  by (simp add: pending_mail_def mailbox_rows_def)

lemma mark_tables [simp]:
  "collaboration_mailbox (markMessagesSeen s n ms t) = collaboration_mailbox t"
  "mailboxSequence (markMessagesSeen s n ms t) = mailboxSequence t"
  "collaboration_messages (markMessagesSeen s n ms t) = collaboration_messages t"
  "messageSequence (markMessagesSeen s n ms t) = messageSequence t"
  "collaboration_retention (markMessagesSeen s n ms t) = collaboration_retention t"
  "collaboration_readers (markMessagesSeen s n ms t) = collaboration_readers t"
  "tables_ok (markMessagesSeen s n ms t) = tables_ok t"
  "session_messages (markMessagesSeen s n ms t) q = session_messages t q"
  by (simp_all add: markMessagesSeen_def tables_ok_def mail_ok_def log_ok_def session_messages_def)

lemma append_mail [simp]:
  "collaboration_mailbox (appendSharedMessage i inst m bd t) = collaboration_mailbox t"
  "mailboxSequence (appendSharedMessage i inst m bd t) = mailboxSequence t"
  by (simp_all add: appendSharedMessage_def Let_def split: option.split)

lemma unmark_mail [simp]:
  "collaboration_mailbox (unmarkDelivery db i inst ms t) = collaboration_mailbox t"
  "tables_ok (unmarkDelivery db i inst ms t) = tables_ok t"
  by (simp_all add: unmarkDelivery_def tables_ok_def mail_ok_def log_ok_def split: option.split)

lemma commit_read_tables [simp]:
  "collaboration_mailbox (commit_read s inst c t) = collaboration_mailbox t"
  "collaboration_messages (commit_read s inst c t) = collaboration_messages t"
  "collaboration_retention (commit_read s inst c t) = collaboration_retention t"
  "tables_ok (commit_read s inst c t) = tables_ok t"
  by (simp_all add: commit_read_def tables_ok_def mail_ok_def log_ok_def)

lemma length_filter_conj: "length (filter (\<lambda>x. Q x \<and> P x) xs) \<le> length (filter P xs)"
  by (induction xs) auto

lemma map_of_filter_key: "map_of (filter (\<lambda>r. fst r \<noteq> k) xs) s = (if s = k then None else map_of xs s)"
  by (induction xs) auto

lemma delete_session_mail_ok: "mail_ok t \<Longrightarrow> mail_ok (delete_session sid t)"
  by (auto simp: mail_ok_def delete_session_def rows_ordered_filter)

lemma delete_session_log_ok: "log_ok t \<Longrightarrow> log_ok (delete_session sid t)"
  unfolding log_ok_def delete_session_def
  by (auto simp: rows_ordered_filter map_of_filter_key intro: order_trans [OF length_filter_conj] split: if_splits)

lemma purge_ok: "tables_ok t \<Longrightarrow> tables_ok (fst (purgeClosedSession db sid t))"
  by (auto simp: tables_ok_def purgeClosedSession_def delete_session_mail_ok delete_session_log_ok split: option.split)

lemma retention_trims:
  assumes "rows_ordered sgSeq n rows" "length rows > k"
  shows "filter (\<lambda>r. \<not> sgSeq r \<le> sgSeq (rev rows ! k)) rows = drop (length rows - k) rows"
proof -
  have "rev rows ! k = rows ! ((length rows - k) - 1)" using assms(2) by (simp add: rev_nth)
  then show ?thesis
    using assms strict_prefix_cut [of sgSeq rows "length rows - k"] by (simp add: rows_ordered_def)
qed

lemma append_log_ok:
  assumes "log_ok t"
  shows "log_ok (appendSharedMessage i inst m (Encoded m) t)"
proof -
  let ?s = "idSession i"
  let ?row = "\<lparr>sgSeq = Suc (messageSequence t), sgSession = ?s, sgID = msID m, sgBody = Encoded m\<rparr>"
  let ?t1 = "t\<lparr>collaboration_messages := collaboration_messages t @ [?row], messageSequence := Suc (messageSequence t)\<rparr>"
  let ?t2 = "markMessagesSeen ?s inst [m] ?t1"
  let ?rows = "filter (\<lambda>r. sgSession r = ?s) (collaboration_messages t @ [?row])"
  have ord: "rows_ordered sgSeq (Suc (messageSequence t)) (collaboration_messages t @ [?row])"
    using rows_ordered_snoc [of sgSeq "messageSequence t" "collaboration_messages t" ?row] assms by (simp add: log_ok_def)
  have rows: "session_messages ?t1 ?s = ?rows"
    using rows_ordered_sort [OF rows_ordered_filter [OF ord, of "\<lambda>r. sgSession r = ?s"]] by (simp add: session_messages_def)
  have enc: "\<forall>r \<in> set (collaboration_messages t @ [?row]). \<exists>m. sgBody r = Encoded m \<and> sgID r = msID m"
    using assms by (simp add: log_ok_def)
  have others: "length (filter (\<lambda>r. sgSession r = q) (collaboration_messages t @ [?row])) \<le> retainedMessages" if "q \<noteq> ?s" for q
    using assms that by (simp add: log_ok_def)
  have above: "c \<le> Suc (messageSequence t) \<and> (\<forall>r \<in> set (collaboration_messages t @ [?row]). sgSession r = q \<longrightarrow> c < sgSeq r)"
    if "map_of (collaboration_retention t) q = Some c" for q c
  proof -
    have "c \<le> messageSequence t" "\<forall>r \<in> set (collaboration_messages t). sgSession r = q \<longrightarrow> c < sgSeq r"
      using assms that unfolding log_ok_def by blast+
    then show ?thesis by simp
  qed
  show ?thesis
  proof (cases "length ?rows > retainedMessages")
    case False
    then have "appendSharedMessage i inst m (Encoded m) t = ?t2"
      by (simp add: appendSharedMessage_def Let_def retention_cutoff_def rows del: filter_append)
    moreover have "length (filter (\<lambda>r. sgSession r = q) (collaboration_messages t @ [?row])) \<le> retainedMessages" for q
      using others False by (cases "q = ?s") (auto simp del: filter_append)
    ultimately show ?thesis using ord enc above
      unfolding log_ok_def by (simp del: filter_append set_append)
  next
    case True
    let ?cut = "sgSeq (rev ?rows ! retainedMessages)"
    let ?keep = "\<lambda>r. \<not> (sgSession r = ?s \<and> sgSeq r \<le> ?cut)"
    let ?t3 = "appendSharedMessage i inst m (Encoded m) t"
    have msgs: "collaboration_messages ?t3 = filter ?keep (collaboration_messages t @ [?row])"
      and seq: "messageSequence ?t3 = Suc (messageSequence t)"
      and ret: "map_of (collaboration_retention ?t3) = (map_of (collaboration_retention t))(?s \<mapsto> ?cut)"
      using True by (simp_all add: appendSharedMessage_def Let_def retention_cutoff_def rows update_conv' del: filter_append)
    have "rev ?rows ! retainedMessages \<in> set ?rows"
      using True by (metis length_rev nth_mem set_rev)
    then have cut: "?cut \<le> Suc (messageSequence t)" using ord by (simp add: rows_ordered_def del: filter_append set_append)
    have "filter (\<lambda>r. sgSession r = ?s) (filter ?keep (collaboration_messages t @ [?row])) = filter (\<lambda>r. \<not> sgSeq r \<le> ?cut) ?rows"
      by (rule trans [OF filter_filter trans [OF _ filter_filter [symmetric]]]) (rule filter_cong, auto)
    also have "\<dots> = drop (length ?rows - retainedMessages) ?rows"
      using retention_trims [OF rows_ordered_filter [OF ord] True] .
    finally have own: "length (filter (\<lambda>r. sgSession r = ?s) (filter ?keep (collaboration_messages t @ [?row]))) \<le> retainedMessages"
      using True by (simp del: filter_append filter_filter)
    have other: "length (filter (\<lambda>r. sgSession r = q) (filter ?keep (collaboration_messages t @ [?row]))) \<le> retainedMessages"
      if "q \<noteq> ?s" for q
      using others [OF that] order_trans [OF length_filter_conj] by (simp del: filter_append)
    have "length (filter (\<lambda>r. sgSession r = q) (filter ?keep (collaboration_messages t @ [?row]))) \<le> retainedMessages" for q
      by (cases "q = ?s") (rule ssubst [where P = "\<lambda>q. length (filter (\<lambda>r. sgSession r = q) _) \<le> _"], assumption, rule own, rule other)
    moreover have "c \<le> Suc (messageSequence t) \<and> (\<forall>r \<in> set (filter ?keep (collaboration_messages t @ [?row])). sgSession r = q \<longrightarrow> c < sgSeq r)"
      if "((map_of (collaboration_retention t))(?s \<mapsto> ?cut)) q = Some c" for q c
    proof (cases "q = ?s")
      case True
      then show ?thesis using that cut by (simp add: not_le del: set_append filter_append)
    next
      case False
      then show ?thesis using above [of q c] that by (simp del: set_append filter_append)
    qed
    moreover have "\<forall>r \<in> set (filter ?keep (collaboration_messages t @ [?row])). \<exists>m. sgBody r = Encoded m \<and> sgID r = msID m"
      using enc by (simp only: set_filter) blast
    ultimately show ?thesis
      using rows_ordered_filter [OF ord, of ?keep] unfolding log_ok_def msgs seq ret by blast
  qed
qed

lemma commit_ok:
  assumes "tables_ok t" "length (Marshal m) + 2 \<le> mailboxBatchBytes"
  shows "tables_ok (commit_message i inst m t)"
proof -
  let ?row = "\<lparr>mrSeq = Suc (mailboxSequence t), mrSession = idSession i, mrRecipient = msTo m, mrBody = Encoded m\<rparr>"
  have "rows_ordered mrSeq (Suc (mailboxSequence t)) (collaboration_mailbox t @ [?row])"
    using rows_ordered_snoc [of mrSeq "mailboxSequence t" "collaboration_mailbox t" ?row] assms
    by (simp add: tables_ok_def mail_ok_def)
  moreover have "log_ok (appendSharedMessage i inst m (Encoded m) t)"
    using assms by (simp add: tables_ok_def append_log_ok)
  ultimately show ?thesis
    using assms by (auto simp: commit_message_def Let_def tables_ok_def mail_ok_def log_ok_def)
qed

lemma commit_pending:
  assumes "tables_ok t" "length (Marshal m) + 2 \<le> mailboxBatchBytes"
  shows "pending_mail j (commit_message i inst m t) =
         pending_mail j t @ (if j = \<lparr>idSession = idSession i, idMember = msTo m\<rparr> then [m] else [])"
  using mailbox_rows_ok [OF commit_ok [OF assms]] mailbox_rows_ok [OF assms(1)]
  by (cases j) (auto simp: pending_mail_def commit_message_def Let_def addressed_def)

text \<open>Taking a batch: a prefix of the member's own mail leaves the mailbox, nothing else moves.\<close>

lemma take_mail_cases:
  assumes "tables_ok t"
  obtains (failed) e where "take_mail db i n inst t = (t, Inl e)"
  | (taken) out t' where "take_mail db i n inst t = (t', Inr out)" "tables_ok t'" "pending_mail i t = out @ pending_mail i t'"
      "\<And>j. j \<noteq> i \<Longrightarrow> pending_mail j t' = pending_mail j t"
proof (cases db)
  case (Some e)
  then show ?thesis by (intro failed [of e]) (simp add: take_mail_def)
next
  case None
  let ?rows = "mailbox_rows t i"
  show ?thesis
  proof (cases "take_loop 2 [] 0 (sql_limit n ?rows)")
    case (Inl e)
    then show ?thesis using None by (intro failed [of e]) (simp add: take_mail_def)
  next
    case (Inr p)
    obtain out lastSeq where p: "p = (out, lastSeq)" by (cases p)
    obtain k where k: "k \<le> length (sql_limit n ?rows)" "out = map (body_message \<circ> mrBody) (take k (sql_limit n ?rows))"
      "lastSeq = (if k = 0 then 0 else mrSeq (sql_limit n ?rows ! (k - 1)))"
      using take_loop_prefix [of 2 "[]" 0 "sql_limit n ?rows" out lastSeq] Inr p by auto
    have kk: "k \<le> length ?rows" "take k (sql_limit n ?rows) = take k ?rows" "k \<noteq> 0 \<Longrightarrow> sql_limit n ?rows ! (k - 1) = ?rows ! (k - 1)"
      using k(1) by (auto simp: sql_limit_def split: if_splits)
    define t1 where "t1 = (if out = [] then t
      else t\<lparr>collaboration_mailbox := filter (\<lambda>r. \<not> (addressed i r \<and> mrSeq r \<le> lastSeq)) (collaboration_mailbox t)\<rparr>)"
    define t2 where "t2 = (case inst of None \<Rightarrow> t1 | Some n \<Rightarrow> markMessagesSeen (idSession i) n out t1)"
    have run: "take_mail db i n inst t = (t2, Inr out)"
      using None Inr p by (simp add: take_mail_def t1_def t2_def Let_def split: option.split)
    have ok1: "tables_ok t1"
      using assms by (auto simp: t1_def tables_ok_def mail_ok_def log_ok_def rows_ordered_filter)
    have ok2: "tables_ok t2" using ok1 by (simp add: t2_def split: option.split)
    have mail2: "pending_mail j t2 = pending_mail j t1" for j
      by (rule pending_mail_cong) (simp add: t2_def split: option.split)
    have rows1: "mailbox_rows t1 j = filter (addressed j) (collaboration_mailbox t1)" for j by (rule mailbox_rows_ok [OF ok1])
    have rows: "?rows = filter (addressed i) (collaboration_mailbox t)" by (rule mailbox_rows_ok [OF assms])
    have own: "mailbox_rows t1 i = drop k ?rows"
    proof (cases "k = 0")
      case True
      then show ?thesis using k kk by (simp add: t1_def)
    next
      case False
      then have "out \<noteq> []" using k kk by auto
      then have "mailbox_rows t1 i = filter (\<lambda>r. \<not> mrSeq r \<le> lastSeq) ?rows"
        unfolding rows1 rows by (auto simp: t1_def intro: filter_cong)
      also have "\<dots> = drop k ?rows"
      proof -
        have "sorted_wrt (<) (map mrSeq ?rows)"
          using assms rows_ordered_filter unfolding rows tables_ok_def mail_ok_def rows_ordered_def by blast
        then show ?thesis using strict_prefix_cut [of mrSeq ?rows k] kk k(3) False by simp
      qed
      finally show ?thesis .
    qed
    have "pending_mail i t = out @ pending_mail i t2"
      unfolding mail2 by (simp add: pending_mail_def own k(2) kk flip: map_append)
    moreover have "pending_mail j t2 = pending_mail j t" if "j \<noteq> i" for j
    proof -
      have "\<not> (addressed j r \<and> addressed i r)" for r using that by (cases i, cases j) (auto simp: addressed_def)
      then have "mailbox_rows t1 j = mailbox_rows t j"
        unfolding rows1 mailbox_rows_ok [OF assms] by (auto simp: t1_def intro: filter_cong)
      then show ?thesis unfolding mail2 by (simp add: pending_mail_def)
    qed
    ultimately show ?thesis using taken [OF run ok2] by blast
  qed
qed

section \<open>The service as a sequence of operations\<close>

text \<open>
  Each transaction is one step.  A delivery is two: the claim removes the batch from the
  mailbox, and after a failed dispatch the suppression rows are withdrawn; anything may run
  between the two.
\<close>

datatype mail_op =
    OpSend "collab_error option" "collab_error + Thread list" "collab_error + Thread list" "collab_error option"
      "collab_error option" "string \<Rightarrow> bool" string Identity string string string
  | OpReceive "collab_error option" "collab_error + Thread list" "collab_error option" Identity
  | OpClaim "collab_error + Thread list" "collab_error option" Identity
  | OpUnmark "collab_error option" Identity string "Message list"
  | OpRead "collab_error option" "collab_error + Thread list" "collab_error option" "collab_error + Thread list"
      "collab_error option" Identity "nat option" int
  | OpCleanup "collab_error + Thread list" "collab_error option" string
  | OpRemoveMember "collab_error option" "collab_error + Thread list" "collab_error option" "collab_error option" Identity string

fun mail_step :: "mail_op \<Rightarrow> tables \<Rightarrow> tables" where
  "mail_step (OpSend auth listed relisted db purge_db canonical fresh i dest content replyTo) t =
     fst (Send auth listed relisted db purge_db canonical fresh i dest content replyTo t)"
| "mail_step (OpReceive auth listed db i) t = fst (Receive auth listed db i t)"
| "mail_step (OpClaim listed db i) t = fst (claimRecipient listed db i t)"
| "mail_step (OpUnmark db i inst ms) t = unmarkDelivery db i inst ms t"
| "mail_step (OpRead auth listed auth' relisted db i after limit) t = fst (ReadMessages auth listed auth' relisted db i after limit t)"
| "mail_step (OpCleanup listed db sid) t = fst (CleanupClosedSession listed db sid t)"
| "mail_step (OpRemoveMember auth listed removed db i handle) t = fst (Remove_mail auth listed removed db i handle t)"

text \<open>What an operation sends to a member, hands out of a member's mailbox, or discards.\<close>

fun mail_sent :: "mail_op \<Rightarrow> tables \<Rightarrow> Identity \<Rightarrow> Message list" where
  "mail_sent (OpSend auth listed relisted db purge_db canonical fresh i dest content replyTo) t j =
     (case compose_message auth listed canonical fresh i dest content replyTo of
        Inr (inst, m) \<Rightarrow> if db = None \<and> j = \<lparr>idSession = idSession i, idMember = msTo m\<rparr> then [m] else []
      | Inl _ \<Rightarrow> [])"
| "mail_sent op t j = []"

fun mail_taken :: "mail_op \<Rightarrow> tables \<Rightarrow> Identity \<Rightarrow> Message list" where
  "mail_taken (OpReceive auth listed db i) t j =
     (case snd (Receive auth listed db i t) of Inr ms \<Rightarrow> if j = i then ms else [] | Inl _ \<Rightarrow> [])"
| "mail_taken (OpClaim listed db i) t j =
     (case snd (claimRecipient listed db i t) of Inr (ms, _) \<Rightarrow> if j = i then ms else [] | Inl _ \<Rightarrow> [])"
| "mail_taken op t j = []"

fun mail_drops :: "mail_op \<Rightarrow> tables \<Rightarrow> Identity \<Rightarrow> bool" where
  "mail_drops (OpSend auth listed relisted db purge_db canonical fresh i dest content replyTo) t j \<longleftrightarrow>
     (case compose_message auth listed canonical fresh i dest content replyTo of Inl _ \<Rightarrow> False | Inr _ \<Rightarrow> True) \<and>
     db = None \<and> relisted = Inl ErrSessionClosed \<and> purge_db = None \<and> idSession j = idSession i"
| "mail_drops (OpClaim listed db i) t j \<longleftrightarrow> listed = Inl ErrSessionClosed \<and> db = None \<and> idSession j = idSession i"
| "mail_drops (OpCleanup listed db sid) t j \<longleftrightarrow> listed = Inl ErrSessionClosed \<and> db = None \<and> idSession j = sid"
| "mail_drops (OpRemoveMember auth listed removed db i handle) t j \<longleftrightarrow>
     snd (Remove_mail auth listed removed db i handle t) = None \<and> j = \<lparr>idSession = idSession i, idMember = handle\<rparr>"
| "mail_drops op t j \<longleftrightarrow> False"

lemma compose_budget:
  "compose_message auth listed canonical fresh i dest content replyTo = Inr (inst, m) \<Longrightarrow> length (Marshal m) + 2 \<le> mailboxBatchBytes"
  by (auto simp: compose_message_def Let_def split: sum.splits if_splits)

lemma purge_pending:
  assumes "tables_ok t"
  shows "pending_mail j (fst (purgeClosedSession db sid t)) = (if db = None \<and> idSession j = sid then [] else pending_mail j t)"
proof -
  have "filter (addressed j) (filter (\<lambda>r. mrSession r \<noteq> sid) rows) = (if idSession j = sid then [] else filter (addressed j) rows)" for rows
    by (auto simp: addressed_def filter_empty_conv intro: filter_cong)
  then show ?thesis
    using mailbox_rows_ok [OF assms] mailbox_rows_ok [OF purge_ok [OF assms, of db sid]]
    by (auto simp: pending_mail_def purgeClosedSession_def delete_session_def split: option.splits)
qed

lemma remove_pending:
  assumes "tables_ok t" "Remove_mail auth listed removed db i handle t = (t', e)"
  shows "tables_ok t' \<and> pending_mail j t' = (if e = None \<and> j = \<lparr>idSession = idSession i, idMember = handle\<rparr> then [] else pending_mail j t)"
proof (cases "e = None")
  case True
  let ?j = "\<lparr>idSession = idSession i, idMember = handle\<rparr>"
  have t': "t' = t\<lparr>collaboration_mailbox := filter (\<lambda>r. \<not> addressed ?j r) (collaboration_mailbox t)\<rparr>"
    using assms(2) True by (auto simp: Remove_mail_def split: if_splits sum.splits option.splits)
  have ok: "tables_ok t'" using assms(1) by (auto simp: t' tables_ok_def mail_ok_def log_ok_def rows_ordered_filter)
  have "filter (addressed j) (filter (\<lambda>r. \<not> addressed ?j r) rows) = (if j = ?j then [] else filter (addressed j) rows)" for rows
    by (cases j) (auto simp: addressed_def filter_empty_conv intro: filter_cong)
  then have "pending_mail j t' = (if j = ?j then [] else pending_mail j t)"
    unfolding pending_mail_def mailbox_rows_ok [OF ok] mailbox_rows_ok [OF assms(1)] by (simp add: t')
  then show ?thesis using ok True by simp
next
  case False
  then have "t' = t" using assms(2) by (auto simp: Remove_mail_def split: if_splits sum.splits option.splits)
  then show ?thesis using False assms(1) by auto
qed

lemma send_effect:
  assumes "tables_ok t" and op_def: "op = OpSend auth listed relisted db purge_db canonical fresh i dest content replyTo"
  shows "tables_ok (mail_step op t) \<and>
         pending_mail j (mail_step op t) = (if mail_drops op t j then [] else pending_mail j t @ mail_sent op t j)"
proof (cases "compose_message auth listed canonical fresh i dest content replyTo")
  case (Inl e)
  then show ?thesis using assms(1) by (simp add: op_def Send_def)
next
  case (Inr p)
  obtain inst m where p: "p = (inst, m)" by (cases p)
  note b = compose_budget [OF Inr [unfolded p]]
  show ?thesis
    using assms(1) Inr p commit_ok [OF assms(1) b] commit_pending [OF assms(1) b] purge_ok [OF commit_ok [OF assms(1) b]]
      purge_pending [OF commit_ok [OF assms(1) b]]
    by (simp add: op_def Send_def Let_def split: option.split)
qed

lemma Receive_cases:
  "(\<exists>e. Receive auth listed db i t = (t, Inl e)) \<or> (\<exists>inst. Receive auth listed db i t = take_mail db i 32 (Some inst) t)"
  by (simp add: Receive_def split: sum.split) blast

lemma receive_effect:
  assumes "tables_ok t"
  shows "tables_ok (mail_step (OpReceive auth listed db i) t) \<and>
         pending_mail j t = mail_taken (OpReceive auth listed db i) t j @ pending_mail j (mail_step (OpReceive auth listed db i) t)"
  using Receive_cases [of auth listed db i t]
proof (elim disjE exE)
  fix inst
  assume "Receive auth listed db i t = take_mail db i 32 (Some inst) t"
  then show ?thesis using assms by (cases rule: take_mail_cases [OF assms, of db i 32 "Some inst"]) auto
qed (simp add: assms)

lemma claim_cases:
  "claimRecipient (Inr threads) db i t = (t, Inr ([], [])) \<or> (\<exists>e. claimRecipient (Inr threads) db i t = (t, Inl e)) \<or>
   (\<exists>inst. claimRecipient (Inr threads) db i t =
      (case take_mail db i (-1) (Some inst) t of (t', Inl e) \<Rightarrow> (t', Inl e) | (t', Inr ms) \<Rightarrow> (t', Inr (ms, inst))))"
  by (cases "readerInstance threads (idMember i)") (auto simp: claimRecipient_def)

lemma claim_effect:
  assumes "tables_ok t"
  shows "tables_ok (mail_step (OpClaim listed db i) t) \<and>
         (if mail_drops (OpClaim listed db i) t j
          then pending_mail j (mail_step (OpClaim listed db i) t) = [] \<and> mail_taken (OpClaim listed db i) t j = []
          else pending_mail j t = mail_taken (OpClaim listed db i) t j @ pending_mail j (mail_step (OpClaim listed db i) t))"
proof (cases listed)
  case (Inl e)
  then show ?thesis
    using assms purge_ok [OF assms, of db "idSession i"] purge_pending [OF assms, of j db "idSession i"]
    by (auto simp: claimRecipient_def purgeClosedSession_def split: prod.splits option.splits)
next
  case (Inr threads)
  show ?thesis
    using claim_cases [of threads db i t]
  proof (elim disjE exE)
    fix inst
    assume "claimRecipient (Inr threads) db i t =
      (case take_mail db i (-1) (Some inst) t of (t', Inl e) \<Rightarrow> (t', Inl e) | (t', Inr ms) \<Rightarrow> (t', Inr (ms, inst)))"
    then show ?thesis using assms Inr by (cases rule: take_mail_cases [OF assms, of db i "-1" "Some inst"]) auto
  qed (simp_all add: assms Inr)
qed

lemma read_effect:
  assumes "tables_ok t"
  shows "tables_ok (fst (ReadMessages auth listed auth' relisted db i after limit t)) \<and>
         pending_mail j (fst (ReadMessages auth listed auth' relisted db i after limit t)) = pending_mail j t"
proof -
  have "fst (ReadMessages auth listed auth' relisted db i after limit t) = t \<or>
    (\<exists>s n c. fst (ReadMessages auth listed auth' relisted db i after limit t) = commit_read s n c t)"
    by (auto simp: ReadMessages_def Let_def split: sum.split option.split)
  then show ?thesis using assms by (auto intro: pending_mail_cong)
qed

lemma cleanup_effect:
  assumes "tables_ok t"
  shows "tables_ok (mail_step (OpCleanup listed db sid) t) \<and>
         pending_mail j (mail_step (OpCleanup listed db sid) t) = (if mail_drops (OpCleanup listed db sid) t j then [] else pending_mail j t)"
  using assms purge_ok [OF assms, of db sid] purge_pending [OF assms, of j db sid]
  by (auto simp: CleanupClosedSession_def split: sum.split)

lemma step_effect:
  assumes "tables_ok t"
  shows "tables_ok (mail_step op t)"
    and "\<not> mail_drops op t j \<Longrightarrow> pending_mail j t @ mail_sent op t j = mail_taken op t j @ pending_mail j (mail_step op t)"
    and "mail_drops op t j \<Longrightarrow> pending_mail j (mail_step op t) = [] \<and> mail_taken op t j = []"
proof -
  have "tables_ok (mail_step op t) \<and>
    (if mail_drops op t j then pending_mail j (mail_step op t) = [] \<and> mail_taken op t j = []
     else pending_mail j t @ mail_sent op t j = mail_taken op t j @ pending_mail j (mail_step op t))"
  proof (cases op)
    case (OpSend auth listed relisted db purge_db canonical fresh i dest content replyTo)
    have "mail_taken op t j = []" using OpSend by simp
    then show ?thesis using send_effect [OF assms OpSend, of j] by simp
  next
    case (OpReceive auth listed db i)
    have "mail_sent op t j = []" "\<not> mail_drops op t j" using OpReceive by simp_all
    then show ?thesis using receive_effect [OF assms, of auth listed db i j] unfolding OpReceive by (simp only: append_Nil2 if_False)
  next
    case (OpClaim listed db i)
    have s: "mail_sent op t j = []" using OpClaim by simp
    show ?thesis unfolding s append_Nil2 unfolding OpClaim by (rule claim_effect [OF assms])
  next
    case (OpUnmark db i inst ms)
    then show ?thesis using assms by (simp add: pending_mail_cong [OF unmark_mail(1)])
  next
    case (OpRead auth listed auth' relisted db i after limit)
    then show ?thesis using read_effect [OF assms] by simp
  next
    case (OpCleanup listed db sid)
    have "mail_sent op t j = []" "mail_taken op t j = []" using OpCleanup by simp_all
    then show ?thesis using cleanup_effect [OF assms, of listed db sid j]
      unfolding OpCleanup by (auto split: if_splits)
  next
    case (OpRemoveMember auth listed removed db i handle)
    show ?thesis
      using remove_pending [OF assms surjective_pairing, of auth listed removed db i handle j] OpRemoveMember
      by (auto split: if_splits)
  qed
  then show "tables_ok (mail_step op t)"
    "\<not> mail_drops op t j \<Longrightarrow> pending_mail j t @ mail_sent op t j = mail_taken op t j @ pending_mail j (mail_step op t)"
    "mail_drops op t j \<Longrightarrow> pending_mail j (mail_step op t) = [] \<and> mail_taken op t j = []"
    by simp_all
qed

interpretation service: fifo_mailbox tables_ok pending_mail mail_step mail_sent mail_taken mail_drops
  by unfold_locales (fact step_effect)+

section \<open>Properties of the mail\<close>

lemma empty_tables_ok: "tables_ok empty_tables" "pending_mail i empty_tables = []"
  by (simp_all add: tables_ok_def mail_ok_def log_ok_def rows_ordered_def empty_tables_def pending_mail_def mailbox_rows_def)

text \<open>C8 (safety). Mail is handed out in sending order and at most once: over any interleaving of
  operations that starts with empty tables, what a member has taken followed by what is still
  pending is a subsequence of what was sent to it, and exactly that when its Session was not
  closed and it was not removed.\<close>

theorem mail_fifo_at_most_once:
  "subseq (log_of mail_step mail_taken ops empty_tables i @ pending_mail i (run_ops mail_step ops empty_tables))
          (log_of mail_step mail_sent ops empty_tables i) \<and>
   (ever mail_step mail_drops ops empty_tables i \<or>
    log_of mail_step mail_taken ops empty_tables i @ pending_mail i (run_ops mail_step ops empty_tables) =
      log_of mail_step mail_sent ops empty_tables i)"
  using service.at_most_once_in_order [OF empty_tables_ok(1), of ops i]
    service.conservation [OF empty_tables_ok(1), of ops i]
  by (cases "ever mail_step mail_drops ops empty_tables i") (simp_all add: empty_tables_ok(2))

lemma take_loop_bound: "take_loop n out lastSeq rows = Inr (out', lastSeq') \<Longrightarrow> length out' \<le> length out + length rows"
  using take_loop_prefix [of n out lastSeq rows out' lastSeq'] by auto

text \<open>C26 (liveness). A member that is attached always gets its mail: in every well-formed state a receive whose
  transaction succeeds returns the oldest pending messages, at least one when there is one and
  at most 32.\<close>

theorem receive_returns_mail:
  assumes "tables_ok t" and "members None (Inr threads) i = Inr threads"
  shows "\<exists>t' out. Receive None (Inr threads) None i t = (t', Inr out) \<and> pending_mail i t = out @ pending_mail i t' \<and>
           length out \<le> 32 \<and> (pending_mail i t \<noteq> [] \<longrightarrow> out \<noteq> [])"
proof -
  obtain inst where inst: "readerInstance threads (idMember i) = Inr inst"
  proof (cases "find (\<lambda>t. thHandle t = idMember i) threads")
    case None
    then show ?thesis using assms(2) by (auto simp: members_def find_None_iff list_ex_iff split: if_splits)
  next
    case (Some th)
    then show ?thesis using that by (simp add: readerInstance_def)
  qed
  let ?rows = "sql_limit 32 (mailbox_rows t i)"
  have len: "length ?rows \<le> 32" by (simp add: sql_limit_def)
  have "set ?rows \<subseteq> set (collaboration_mailbox t)"
    by (auto simp: sql_limit_def mailbox_rows_def dest: in_set_takeD)
  then have "\<forall>r \<in> set ?rows. \<exists>m. mrBody r = Encoded m \<and> length (Marshal m) + 2 \<le> mailboxBatchBytes"
    using assms(1) unfolding tables_ok_def mail_ok_def by blast
  from take_loop_total [OF this, of "[]" 2 0] obtain out lastSeq
    where run: "take_loop 2 [] 0 ?rows = Inr (out, lastSeq)" and ne: "?rows \<noteq> [] \<longrightarrow> out \<noteq> []" by auto
  have rcv: "Receive None (Inr threads) None i t = take_mail None i 32 (Some inst) t"
    using assms(2) inst by (simp add: Receive_def)
  have snd: "snd (take_mail None i 32 (Some inst) t) = Inr out" using run by (simp add: take_mail_def Let_def)
  have bound: "length out \<le> 32" "pending_mail i t \<noteq> [] \<longrightarrow> out \<noteq> []"
    using take_loop_bound [OF run] len ne by (auto simp: pending_mail_def sql_limit_def)
  from assms(1) show ?thesis
    by (cases rule: take_mail_cases [OF assms(1), of None i 32 "Some inst"]) (use rcv snd bound in auto)
qed

section \<open>Properties of the shared log\<close>

text \<open>C27 (invariant). In every reachable state each Session keeps at most 4096 shared messages, all of them
  after the position that the retention table reports as trimmed, in strictly increasing
  sequence order.\<close>

theorem shared_log_retention:
  "length (session_messages (run_ops mail_step ops empty_tables) s) \<le> 4096 \<and>
   sorted_wrt (<) (map sgSeq (session_messages (run_ops mail_step ops empty_tables) s)) \<and>
   (case map_of (collaboration_retention (run_ops mail_step ops empty_tables)) s of
      None \<Rightarrow> True
    | Some trimmed \<Rightarrow> list_all (\<lambda>r. trimmed < sgSeq r) (session_messages (run_ops mail_step ops empty_tables) s))"
proof -
  let ?t = "run_ops mail_step ops empty_tables"
  have ok: "tables_ok ?t" by (rule service.run_inv [OF empty_tables_ok(1)])
  have rows: "session_messages ?t s = filter (\<lambda>r. sgSession r = s) (collaboration_messages ?t)" by (rule session_messages_ok [OF ok])
  have log: "log_ok ?t" using ok by (simp add: tables_ok_def)
  have "sorted_wrt (<) (map sgSeq (session_messages ?t s))"
    using rows_ordered_filter log unfolding rows log_ok_def rows_ordered_def by blast
  moreover have "list_all (\<lambda>r. c < sgSeq r) (session_messages ?t s)" if "map_of (collaboration_retention ?t) s = Some c" for c
    using log that unfolding log_ok_def rows by (auto simp: list_all_iff)
  ultimately show ?thesis using log by (simp add: rows log_ok_def retainedMessages_def split: option.split)
qed

lemma read_loop_prefix:
  "read_loop unread limit seen bytes page rows = Inr page' \<Longrightarrow>
   \<exists>k \<le> length rows.
     pgMessages page' = pgMessages page @
       map (\<lambda>r. \<lparr>shSequence = sgSeq r, shMessage = body_message (sgBody r)\<rparr>) (filter (\<lambda>r. \<not> (seen r \<and> unread)) (take k rows)) \<and>
     pgCursor page' = (if k = 0 then pgCursor page else sgSeq (rows ! (k - 1))) \<and>
     length (pgMessages page') \<le> max limit (length (pgMessages page)) \<and>
     (pgHasMore page' \<or> k = length rows)"
proof (induction rows arbitrary: bytes page)
  case (Cons r rows)
  consider (skip) "seen r \<and> unread"
    | (stop) "\<not> (seen r \<and> unread)" "length (pgMessages page) \<ge> limit \<or> bytes + body_len (sgBody r) > mailboxBatchBytes"
    | (keep) "\<not> (seen r \<and> unread)" "\<not> (length (pgMessages page) \<ge> limit \<or> bytes + body_len (sgBody r) > mailboxBatchBytes)"
    by blast
  then show ?case
  proof cases
    case skip
    then have "read_loop unread limit seen bytes (page\<lparr>pgCursor := sgSeq r\<rparr>) rows = Inr page'" using Cons.prems by simp
    from Cons.IH [OF this] skip show ?thesis
      by (elim exE conjE) (rule_tac x = "Suc k" in exI, simp add: nth_Cons')
  next
    case stop
    then have "page' = page\<lparr>pgHasMore := True\<rparr>" using Cons.prems by auto
    then show ?thesis by (intro exI [of _ 0]) simp
  next
    case keep
    then obtain m where m: "sgBody r = Encoded m" using Cons.prems by (cases "sgBody r") auto
    then have "read_loop unread limit seen (bytes + body_len (sgBody r) + 64)
      (page\<lparr>pgMessages := pgMessages page @ [\<lparr>shSequence = sgSeq r, shMessage = m\<rparr>], pgCursor := sgSeq r\<rparr>) rows = Inr page'"
      using keep Cons.prems by (auto split: if_splits)
    from Cons.IH [OF this] keep m show ?thesis
      by (elim exE conjE) (rule_tac x = "Suc k" in exI, auto simp: nth_Cons')
  qed
qed auto

lemma strict_prefix_keep:
  fixes key :: "'r \<Rightarrow> nat"
  assumes "sorted_wrt (<) (map key xs)" "k \<le> length xs" "0 < k"
  shows "filter (\<lambda>r. key r \<le> key (xs ! (k - 1))) xs = take k xs"
proof -
  let ?p = "\<lambda>r. key r \<le> key (xs ! (k - 1))"
  have d: "drop k xs = filter (\<lambda>r. \<not> ?p r) xs" using strict_prefix_cut [OF assms] by simp
  have "filter ?p (drop k xs) = []" unfolding d by (simp add: filter_empty_conv)
  moreover have "filter ?p (take k xs) = take k xs"
  proof -
    have "length (filter (\<lambda>r. \<not> ?p r) (take k xs)) + length (filter (\<lambda>r. \<not> ?p r) (drop k xs)) = length (drop k xs)"
      using d by (metis append_take_drop_id filter_append length_append)
    moreover have "filter (\<lambda>r. \<not> ?p r) (drop k xs) = drop k xs" unfolding d by simp
    ultimately have "filter (\<lambda>r. \<not> ?p r) (take k xs) = []" by simp
    then show ?thesis by (auto simp: filter_empty_conv filter_id_conv)
  qed
  ultimately show ?thesis by (metis append_Nil2 append_take_drop_id filter_append)
qed

text \<open>A default read returns the next page: at most \<open>limit\<close> messages of the caller's Session in
  strictly increasing sequence order, none at or before the start position, and every
  retained message between the start and the committed cursor is in the page or was already
  delivered to this reader.  A page without the \<open>has_more\<close> mark reaches the end of the log.\<close>

theorem default_read_is_next_page:
  assumes "tables_ok t" and "ReadMessages auth listed auth' relisted db i None limit t = (t', Inr page)"
  shows "\<exists>inst start.
     start = fst (read_start t (idSession i) inst None) \<and>
     map_of (collaboration_readers t') (idSession i, inst) = Some (pgCursor page) \<and> start \<le> pgCursor page \<and>
     length (pgMessages page) \<le> 128 \<and>
     pgMessages page =
       map (\<lambda>r. \<lparr>shSequence = sgSeq r, shMessage = body_message (sgBody r)\<rparr>)
         (filter (\<lambda>r. start < sgSeq r \<and> sgSeq r \<le> pgCursor page \<and> (idSession i, inst, sgID r) \<notin> set (collaboration_seen t))
           (session_messages t (idSession i))) \<and>
     (pgHasMore page \<or> list_all (\<lambda>r. sgSeq r \<le> pgCursor page) (session_messages t (idSession i)))"
proof -
  let ?s = "idSession i"
  from assms(2) obtain inst n where inst: "read_page t ?s inst None n = Inr page" "n \<le> 128" "t' = commit_read ?s inst (pgCursor page) t"
    by (auto simp: ReadMessages_def Let_def split: if_splits sum.splits option.splits)
  obtain start gap where start: "read_start t ?s inst None = (start, gap)" by (cases "read_start t ?s inst None")
  let ?rows = "filter (\<lambda>r. start < sgSeq r) (session_messages t ?s)"
  let ?seen = "\<lambda>r. (?s, inst, sgID r) \<in> set (collaboration_seen t)"
  let ?view = "\<lambda>r. \<lparr>shSequence = sgSeq r, shMessage = body_message (sgBody r)\<rparr>"
  have "rows_ordered sgSeq (messageSequence t) ?rows"
    unfolding session_messages_ok [OF assms(1)] using assms(1) by (auto simp: tables_ok_def log_ok_def intro!: rows_ordered_filter)
  then have sorted: "sorted_wrt (<) (map sgSeq ?rows)" by (simp add: rows_ordered_def)
  have "read_loop True n ?seen 0 \<lparr>pgMessages = [], pgCursor = start, pgHasMore = False, pgTruncatedBefore = gap\<rparr> ?rows = Inr page"
    using inst(1) by (simp add: read_page_def start)
  from read_loop_prefix [OF this] obtain k where k: "k \<le> length ?rows"
    "pgMessages page = map ?view (filter (\<lambda>r. \<not> ?seen r) (take k ?rows))"
    "pgCursor page = (if k = 0 then start else sgSeq (?rows ! (k - 1)))" "length (pgMessages page) \<le> n" "pgHasMore page \<or> k = length ?rows"
    by (elim exE conjE) (simp add: that)
  have cut: "take k ?rows = filter (\<lambda>r. sgSeq r \<le> pgCursor page) ?rows \<and> start \<le> pgCursor page"
  proof (cases "k = 0")
    case True
    then show ?thesis using k(3) by (simp add: filter_empty_conv)
  next
    case False
    then have "?rows ! (k - 1) \<in> set ?rows" using k(1) by (intro nth_mem) simp
    then have "start \<le> sgSeq (?rows ! (k - 1))" by simp
    then show ?thesis using strict_prefix_keep [OF sorted k(1)] False k(3) by simp
  qed
  have "pgHasMore page \<or> list_all (\<lambda>r. sgSeq r \<le> pgCursor page) (session_messages t ?s)"
  proof (cases "pgHasMore page")
    case False
    then have "?rows = filter (\<lambda>r. sgSeq r \<le> pgCursor page) ?rows" using k(5) cut by simp
    then have "\<forall>r \<in> set ?rows. sgSeq r \<le> pgCursor page" by (metis (no_types, lifting) filter_id_conv)
    then show ?thesis using cut by (auto simp: list_all_iff not_less intro: order_trans dest: not_less [THEN iffD1])
  qed simp
  moreover have "pgMessages page = map ?view (filter (\<lambda>r. start < sgSeq r \<and> sgSeq r \<le> pgCursor page \<and> \<not> ?seen r) (session_messages t ?s))"
    unfolding k(2) cut [THEN conjunct1] by (simp add: conj_ac)
  ultimately show ?thesis
    using start cut k(4) inst(2) by (intro exI [of _ inst] exI [of _ start]) (simp add: inst(3) commit_read_def update_conv')
qed

section \<open>The sweep of closed Sessions\<close>

text \<open>The rows that the six tables hold for a Session.\<close>

definition session_rows :: "string \<Rightarrow> tables \<Rightarrow>
    mail_row list \<times> message_row list \<times> ((string \<times> string) \<times> nat) list \<times> (string \<times> string \<times> string) list \<times>
    (string \<times> nat) list \<times> (string \<times> string) list" where
  "session_rows sid t =
     (filter (\<lambda>r. mrSession r = sid) (collaboration_mailbox t), filter (\<lambda>r. sgSession r = sid) (collaboration_messages t),
      filter (\<lambda>((s, n), c). s = sid) (collaboration_readers t), filter (\<lambda>r. fst r = sid) (collaboration_seen t),
      filter (\<lambda>r. fst r = sid) (collaboration_retention t), filter (\<lambda>r. fst r = sid) (collaboration_setups t))"

abbreviation no_rows :: "mail_row list \<times> message_row list \<times> ((string \<times> string) \<times> nat) list \<times> (string \<times> string \<times> string) list \<times>
    (string \<times> nat) list \<times> (string \<times> string) list" where
  "no_rows \<equiv> ([], [], [], [], [], [])"

definition purgeable :: "(string \<Rightarrow> collab_error + Thread list) \<Rightarrow> (string \<Rightarrow> collab_error option) \<Rightarrow> string \<Rightarrow> bool" where
  "purgeable listed db sid \<longleftrightarrow> listed sid = Inl ErrSessionClosed \<and> db sid = None"

lemma key_absent: "filter (\<lambda>r. f r = k) xs = [] \<longleftrightarrow> k \<notin> set (map f xs)"
  by (induction xs) auto

lemma session_rows_empty: "session_rows sid t = no_rows \<longleftrightarrow> sid \<notin> set (session_column t)"
proof -
  have "filter (\<lambda>((s, n), c). s = sid) xs = filter (\<lambda>r. (fst \<circ> fst) r = sid) xs" for xs :: "((string \<times> string) \<times> nat) list"
    by (rule filter_cong) auto
  then show ?thesis
    unfolding session_rows_def session_column_def prod.inject by (simp only: key_absent set_sort set_remdups set_append Un_iff de_Morgan_disj)
qed

lemma delete_session_rows: "session_rows sid (delete_session q t) = (if q = sid then no_rows else session_rows sid t)"
  by (auto simp: session_rows_def delete_session_def filter_empty_conv intro!: filter_cong)

lemma cleanup_rows:
  "session_rows sid (fst (CleanupClosedSession (listed q) (db q) q t)) =
     (if q = sid \<and> purgeable listed db sid then no_rows else session_rows sid t)"
  by (auto simp: CleanupClosedSession_def purgeClosedSession_def purgeable_def delete_session_rows split: sum.split option.split)

lemma cleanup_all_rows:
  "session_rows sid (cleanup_all listed db ids t) =
     (if sid \<in> set ids \<and> purgeable listed db sid then no_rows else session_rows sid t)"
  unfolding cleanup_all_def by (induction ids arbitrary: t) (auto simp: cleanup_rows)

lemma page_below_rest:
  fixes xs :: "'a :: linorder list"
  assumes "sorted xs" "x \<in> set xs" "x \<notin> set (take n xs)" "take n xs \<noteq> []"
  shows "last (take n xs) < x"
proof -
  have "x \<in> set (drop n xs)" using assms(2,3) by (metis Un_iff append_take_drop_id set_append)
  moreover have "last (take n xs) \<in> set (take n xs)" using assms(4) by (rule last_in_set)
  moreover have "sorted (take n xs @ drop n xs)" using assms(1) by simp
  ultimately have "last (take n xs) \<le> x" unfolding sorted_append by blast
  moreover have "last (take n xs) \<noteq> x" using assms(3,4) last_in_set by metis
  ultimately show ?thesis by simp
qed

lemma sweep_rows:
  "session_rows sid (cleanupClosedSessions listed db after t) =
     (if after < sid \<and> purgeable listed db sid then no_rows else session_rows sid t)"
proof (induction listed db after t rule: cleanupClosedSessions.induct)
  case (1 listed db after t)
  let ?all = "filter (\<lambda>s. after < s) (session_column t)"
  let ?ids = "take 128 ?all"
  show ?case
  proof (cases "?ids = []")
    case True
    then have "\<not> (after < sid \<and> sid \<in> set (session_column t))" by (auto simp: filter_empty_conv)
    then show ?thesis using True session_rows_empty [of sid t] by (auto simp: cleanupClosedSessions.simps [of listed db after t])
  next
    case False
    let ?t = "cleanup_all listed db ?ids t"
    have step: "cleanupClosedSessions listed db after t = cleanupClosedSessions listed db (last ?ids) ?t"
      using False by (subst cleanupClosedSessions.simps) (simp only: Let_def if_False)
    have "last ?ids \<in> set ?ids" using False by (rule last_in_set)
    then have after: "after < last ?ids" by (auto dest: in_set_takeD)
    have srt: "sorted ?all" by (rule sorted_wrt_filter) (simp add: session_column_def)
    have beyond: "last ?ids < sid" if "after < sid" "sid \<in> set (session_column t)" "sid \<notin> set ?ids"
      using page_below_rest [OF srt _ that(3) False] that(1,2) by simp
    have in_ids: "after < sid" if "sid \<in> set ?ids" using that by (auto dest: in_set_takeD)
    show ?thesis
      unfolding step "1.IH" [OF refl False] cleanup_all_rows
      using beyond in_ids after session_rows_empty [of sid t] by (auto dest: less_trans)
  qed
qed

text \<open>The sweep ends and removes every row of exactly the Sessions that the backend reports as
  permanently closed; an active Session, or one whose state is unavailable, keeps all its rows.\<close>

theorem sweep_removes_exactly_closed:
  "session_rows sid (cleanupClosedSessions listed db [] t) =
     (if sid \<noteq> [] \<and> listed sid = Inl ErrSessionClosed \<and> db sid = None then ([], [], [], [], [], []) else session_rows sid t)"
  using sweep_rows [of sid listed db "[]" t] by (cases sid) (auto simp: purgeable_def)

section \<open>Concrete instances\<close>

lemma length_json_byte: "length (json_byte c) \<le> 6"
  by (simp add: json_byte_def)

lemma length_json_quote: "length (json_quote s) \<le> 6 * length s + 2"
proof -
  have "length (concat (map json_byte s)) \<le> 6 * length s"
    by (induction s) (use length_json_byte in \<open>auto simp: le_diff_conv intro: add_mono\<close>)
  then show ?thesis by (simp add: json_quote_def)
qed

lemma length_Marshal:
  "length (Marshal m) \<le> 6 * (length (msID m) + length (msFrom m) + length (msTo m) + length (msText m) + length (msReplyTo m)) + 200"
  using length_json_quote [of "msID m"] length_json_quote [of "msFrom m"] length_json_quote [of "msTo m"]
    length_json_quote [of "msText m"] length_json_quote [of "msReplyTo m"] length_json_quote [of "''id''"]
    length_json_quote [of "''from''"] length_json_quote [of "''to''"] length_json_quote [of "''message''"] length_json_quote [of "''reply_to''"]
  by (simp add: Marshal_def json_field_def)

lemma read_loop_total:
  "\<forall>r \<in> set rows. \<exists>m. sgBody r = Encoded m \<Longrightarrow> \<exists>page'. read_loop unread limit seen bytes page rows = Inr page'"
  by (induction rows arbitrary: bytes page) auto

lemma default_read_returns:
  assumes "tables_ok t" "members None (Inr threads) i = Inr threads" "readerInstance threads (idMember i) = Inr inst"
  shows "\<exists>t' page. ReadMessages None (Inr threads) None (Inr threads) None i None 0 t = (t', Inr page)"
proof -
  have "\<forall>r \<in> set (filter P (session_messages t s)). \<exists>m. sgBody r = Encoded m" for P s
    using assms(1) unfolding tables_ok_def log_ok_def session_messages_def by (auto simp del: filter_filter)
  then have "\<exists>page. read_page t (idSession i) inst None 32 = Inr page"
    unfolding read_page_def by (auto intro!: read_loop_total split: prod.split)
  then show ?thesis using assms by (auto simp: ReadMessages_def)
qed

text \<open>A Session with two members and one message in flight.\<close>

definition sample_threads :: "Thread list" where
  "sample_threads =
     [\<lparr>thParticipantID = ''p0'', thGeneration = ''1'', thID = ''c'', thSessionID = ''s'', thHandle = ''parent'', thState = ''running'', thCanDeliver = True\<rparr>,
      \<lparr>thParticipantID = ''p1'', thGeneration = ''1'', thID = ''t1'', thSessionID = ''s1'', thHandle = ''reviewer'', thState = ''running'', thCanDeliver = True\<rparr>]"

definition sample_op :: mail_op where
  "sample_op = OpSend None (Inr sample_threads) (Inr sample_threads) None None (\<lambda>_. False) ''m1''
     \<lparr>idSession = ''s'', idMember = ''parent''\<rparr> ''@reviewer'' ''hello'' []"

definition reviewer :: Identity where "reviewer = \<lparr>idSession = ''s'', idMember = ''reviewer''\<rparr>"

definition sample_tables :: tables where "sample_tables = mail_step sample_op empty_tables"

lemma sample_ok: "tables_ok sample_tables"
  unfolding sample_tables_def by (rule step_effect(1) [OF empty_tables_ok(1)])

lemma sample_members: "members None (Inr sample_threads) reviewer = Inr sample_threads"
  by (simp add: members_def sample_threads_def reviewer_def)

lemma sample_pending: "pending_mail reviewer sample_tables \<noteq> []"
proof -
  let ?m = "\<lparr>msID = ''m1'', msFrom = ''parent'', msTo = ''reviewer'', msText = ''hello'', msReplyTo = []\<rparr>"
  have "length (Marshal ?m) + 2 \<le> mailboxBatchBytes"
    using length_Marshal [of ?m] by (simp add: mailboxBatchBytes_def MaxResponseBytes_def)
  then have "mail_sent sample_op empty_tables reviewer = [?m]"
    by (simp add: sample_op_def reviewer_def compose_message_def sample_threads_def members_def readerInstance_def go_simps)
  moreover have "\<not> mail_drops sample_op empty_tables reviewer" by (simp add: sample_op_def)
  moreover have "mail_taken sample_op empty_tables reviewer = []" by (simp add: sample_op_def)
  ultimately show ?thesis
    using step_effect(2) [OF empty_tables_ok(1), of sample_op reviewer] unfolding sample_tables_def by auto
qed

lemma receive_returns_mail_witness:
  "\<exists>t' out. Receive None (Inr sample_threads) None reviewer sample_tables = (t', Inr out) \<and> out \<noteq> []"
  using receive_returns_mail [OF sample_ok sample_members] sample_pending by blast

lemma default_read_is_next_page_witness:
  "\<exists>t' page inst. ReadMessages None (Inr sample_threads) None (Inr sample_threads) None reviewer None 0 sample_tables = (t', Inr page) \<and>
     map_of (collaboration_readers t') (''s'', inst) = Some (pgCursor page)"
proof -
  have "\<exists>inst. readerInstance sample_threads (idMember reviewer) = Inr inst"
    by (simp add: readerInstance_def sample_threads_def reviewer_def)
  then obtain t' page where r: "ReadMessages None (Inr sample_threads) None (Inr sample_threads) None reviewer None 0 sample_tables = (t', Inr page)"
    using default_read_returns [OF sample_ok sample_members] by blast
  from default_read_is_next_page [OF sample_ok r] r show ?thesis by (auto simp: reviewer_def)
qed

end
