(* ===== verification/Collab_Credentials.thy ===== *)
theory Collab_Credentials
  imports Collab_Store
begin

text \<open>
  The bearer credentials of external participants, \<open>control/collaboration/credentials.go\<close>:
  preparing, binding, closing and revoking grants, and authenticating a token.

  A grant is an object that the Host keeps a pointer to after the service has dropped it from
  its table, so the state has the grant objects by token (\<open>grants\<close>) and, apart, the tokens that
  the \<open>credentials\<close> map still holds.  Tokens are fresh random values, arguments of \<open>Prepare\<close>.
  Times are integers in seconds; each operation gets the values that \<open>now\<close> returned.
  \<open>Authenticate\<close> polls the backend until the attachment deadline: its argument lists what each
  poll saw, and the end of the list is the deadline.
\<close>

section \<open>State\<close>

record Grant =
  grIdentity :: Identity
  grThreadID :: string
  grRemoteSession :: string
  grExpires :: int
  grActive :: bool
  grConfirmed :: bool
  grRevoked :: bool

record credential_state =
  grants :: "string \<rightharpoonup> Grant"
  credentials :: "string list"

definition no_credentials :: credential_state where
  "no_credentials = \<lparr>grants = Map.empty, credentials = []\<rparr>"

definition credentialLifetime :: int where "credentialLifetime = 24 * 3600"

definition live :: "int \<Rightarrow> Grant \<Rightarrow> bool" where
  "live now g \<longleftrightarrow> now < grExpires g \<and> \<not> grRevoked g"

definition registered :: "credential_state \<Rightarrow> string \<Rightarrow> Grant option" where
  "registered s token = (if token \<in> set (credentials s) then grants s token else None)"

section \<open>Operations\<close>

definition Prepare :: "int \<Rightarrow> string \<Rightarrow> Identity \<Rightarrow> string \<Rightarrow> credential_state \<Rightarrow> credential_state" where
  "Prepare now token identity threadID s =
     s\<lparr>credentials :=
         List.insert token
           (filter (\<lambda>k. case grants s k of Some g \<Rightarrow> live now g | None \<Rightarrow> False) (credentials s)),
       grants := (grants s)(token \<mapsto>
         \<lparr>grIdentity = identity, grThreadID = threadID, grRemoteSession = [], grExpires = now + 120,
          grActive = False, grConfirmed = False, grRevoked = False\<rparr>)\<rparr>"

datatype bind_error = GrantInvalid | GrantRebound

definition revoke_others :: "string \<Rightarrow> Grant \<Rightarrow> credential_state \<Rightarrow> credential_state" where
  "revoke_others token g s =
     s\<lparr>grants := (\<lambda>k. if k \<in> set (credentials s) \<and> k \<noteq> token
         then map_option (\<lambda>p. if grIdentity p = grIdentity g \<and> grThreadID p = grThreadID g then p\<lparr>grRevoked := True\<rparr> else p) (grants s k)
         else grants s k)\<rparr>"

text \<open>A token that no \<open>Prepare\<close> returned has no grant object to call the method on.\<close>

definition Bind :: "int \<Rightarrow> string \<Rightarrow> string \<Rightarrow> credential_state \<Rightarrow> credential_state \<times> bind_error option" where
  "Bind now token remoteSession s =
     (case grants s token of
        None \<Rightarrow> (s, Some GrantInvalid)
      | Some g \<Rightarrow>
          if grRevoked g \<or> \<not> now < grExpires g \<or> remoteSession = [] \<or> grThreadID g = [] then (s, Some GrantInvalid)
          else if grActive g
          then (if grRemoteSession g \<noteq> remoteSession then (s, Some GrantRebound) else (s, None))
          else
            let s1 = revoke_others token g s;
                g' = g\<lparr>grRemoteSession := remoteSession, grActive := True, grExpires := now + credentialLifetime\<rparr>
            in (s1\<lparr>grants := (grants s1)(token \<mapsto> g')\<rparr>, None))"

definition Grant_Close :: "string \<Rightarrow> credential_state \<Rightarrow> credential_state" where
  "Grant_Close token s =
     s\<lparr>grants := (grants s)(token := map_option (\<lambda>g. g\<lparr>grRevoked := True\<rparr>) (grants s token)),
       credentials := removeAll token (credentials s)\<rparr>"

definition Valid :: "int \<Rightarrow> string \<Rightarrow> credential_state \<Rightarrow> bool" where
  "Valid now token s = (case grants s token of Some g \<Rightarrow> grActive g \<and> \<not> grRevoked g \<and> now + 3600 < grExpires g | None \<Rightarrow> False)"

definition Revoke :: "Identity \<Rightarrow> credential_state \<Rightarrow> credential_state" where
  "Revoke identity s =
     (let hit = (\<lambda>k. case grants s k of Some g \<Rightarrow> grIdentity g = identity | None \<Rightarrow> False)
      in s\<lparr>grants := (\<lambda>k. if k \<in> set (credentials s) \<and> hit k then map_option (\<lambda>g. g\<lparr>grRevoked := True\<rparr>) (grants s k) else grants s k),
           credentials := filter (\<lambda>k. \<not> hit k) (credentials s)\<rparr>)"

text \<open>\<open>Service.Close\<close> revokes every registered grant and empties the table.\<close>

definition Service_Close :: "credential_state \<Rightarrow> credential_state" where
  "Service_Close s =
     s\<lparr>grants := (\<lambda>k. if k \<in> set (credentials s) then map_option (\<lambda>g. g\<lparr>grRevoked := True\<rparr>) (grants s k) else grants s k),
       credentials := []\<rparr>"

definition confirm :: "string \<Rightarrow> credential_state \<Rightarrow> credential_state" where
  "confirm token s = s\<lparr>grants := (grants s)(token := map_option (\<lambda>g. g\<lparr>grConfirmed := True\<rparr>) (grants s token))\<rparr>"

text \<open>The atomic operations on the table, each under the service lock.\<close>

datatype cred_op =
    OpPrepare int string Identity string
  | OpBindGrant int string string
  | OpGrantClose string
  | OpRevoke Identity
  | OpServiceClose
  | OpConfirm string

text \<open>A token is random, so preparing never returns one that was returned before.\<close>

fun cred_step :: "cred_op \<Rightarrow> credential_state \<Rightarrow> credential_state" where
  "cred_step (OpPrepare now token identity threadID) s =
     (if grants s token = None then Prepare now token identity threadID s else s)"
| "cred_step (OpBindGrant now token remote) s = fst (Bind now token remote s)"
| "cred_step (OpGrantClose token) s = Grant_Close token s"
| "cred_step (OpRevoke identity) s = Revoke identity s"
| "cred_step OpServiceClose s = Service_Close s"
| "cred_step (OpConfirm token) s = confirm token s"

definition cred_run :: "cred_op list \<Rightarrow> credential_state \<Rightarrow> credential_state" where
  "cred_run ops s = fold cred_step ops s"

section \<open>Authentication\<close>

text \<open>
  One poll: the clock when the grant is looked up, the operations of other callers that run
  while the backend lists the participants, the backend's answer, and the clock when a match
  is confirmed.
\<close>

record poll =
  plNow :: int
  plMeanwhile :: "cred_op list"
  plListed :: "collab_error + Thread list"
  plConfirm :: int

datatype auth_error = CredentialExpired | CredentialBackend collab_error | ParticipantDetached | AttachmentNotReady

definition matches :: "Grant \<Rightarrow> Thread \<Rightarrow> bool" where
  "matches g th \<longleftrightarrow> thHandle th = idMember (grIdentity g) \<and> thID th = grThreadID g \<and> thSessionID th = grRemoteSession g"

text \<open>The grant object that the poll looked up is read again after the backend answered.\<close>

definition still_valid :: "int \<Rightarrow> string \<Rightarrow> credential_state \<Rightarrow> bool" where
  "still_valid now token s = (case grants s token of Some g \<Rightarrow> live now g | None \<Rightarrow> False)"

fun Authenticate :: "string \<Rightarrow> poll list \<Rightarrow> credential_state \<Rightarrow> credential_state \<times> (auth_error + Identity \<times> int)" where
  "Authenticate token [] s = (s, Inl AttachmentNotReady)"
| "Authenticate token (p # polls) s =
     (case registered s token of
        None \<Rightarrow> (s, Inl CredentialExpired)
      | Some g \<Rightarrow>
          if \<not> grActive g \<or> \<not> live (plNow p) g then (s, Inl CredentialExpired)
          else
            let s1 = cred_run (plMeanwhile p) s in
            case plListed p of
              Inl e \<Rightarrow> (s1, Inl (CredentialBackend e))
            | Inr threads \<Rightarrow>
                if list_ex (matches g) threads \<and> still_valid (plConfirm p) token s1
                then (confirm token s1, Inr (grIdentity g, grExpires g))
                else if grConfirmed g \<or> list_ex (\<lambda>th. thHandle th = idMember (grIdentity g)) threads
                then (Grant_Close token s1, Inl ParticipantDetached)
                else Authenticate token polls s1)"

section \<open>Invariants\<close>

text \<open>Every registered token has its grant, and an activation belongs to at most one usable token.\<close>

definition usable :: "credential_state \<Rightarrow> string \<Rightarrow> Grant \<Rightarrow> bool" where
  "usable s token g \<longleftrightarrow> registered s token = Some g \<and> grActive g \<and> \<not> grRevoked g"

definition single_use :: "credential_state \<Rightarrow> bool" where
  "single_use s \<longleftrightarrow>
     (\<forall>k k' g g'. usable s k g \<and> usable s k' g' \<and> grIdentity g = grIdentity g' \<and> grThreadID g = grThreadID g' \<longrightarrow> k = k')"

lemma registered_mono:
  assumes "set (credentials s') \<subseteq> set (credentials s)"
    and "\<And>k g'. k \<in> set (credentials s') \<Longrightarrow> grants s' k = Some g' \<Longrightarrow>
          \<exists>g. grants s k = Some g \<and> grIdentity g' = grIdentity g \<and> grThreadID g' = grThreadID g \<and>
              (grActive g' \<longrightarrow> grActive g) \<and> (\<not> grRevoked g' \<longrightarrow> \<not> grRevoked g)"
    and "single_use s"
  shows "single_use s'"
proof -
  have origin: "\<exists>g. usable s k g \<and> grIdentity g' = grIdentity g \<and> grThreadID g' = grThreadID g" if "usable s' k g'" for k g'
    using that assms(1) assms(2) [of k g'] by (auto simp: usable_def registered_def split: if_splits)
  show ?thesis
    unfolding single_use_def
  proof (intro allI impI)
    fix k k' g g'
    assume "usable s' k g \<and> usable s' k' g' \<and> grIdentity g = grIdentity g' \<and> grThreadID g = grThreadID g'"
    with origin [of k g] origin [of k' g'] obtain h h' where "usable s k h" "usable s k' h'" "grIdentity h = grIdentity h'" "grThreadID h = grThreadID h'"
      by auto
    then show "k = k'" using assms(3) unfolding single_use_def by blast
  qed
qed

lemma revoked_neq: "\<not> grRevoked h \<Longrightarrow> z\<lparr>grRevoked := True\<rparr> \<noteq> h"
  by auto

lemma single_use_Bind: "single_use s \<Longrightarrow> single_use (fst (Bind now token remote s))"
proof -
  assume ok: "single_use s"
  show ?thesis
  proof (cases "fst (Bind now token remote s) = s")
    case False
    then obtain g where g: "grants s token = Some g" "fst (Bind now token remote s) =
        (revoke_others token g s)\<lparr>grants := (grants (revoke_others token g s))
           (token \<mapsto> g\<lparr>grRemoteSession := remote, grActive := True, grExpires := now + credentialLifetime\<rparr>)\<rparr>"
      by (auto simp: Bind_def Let_def split: option.splits if_splits)
    let ?s = "fst (Bind now token remote s)"
    have other: "\<exists>h. usable s k h \<and> grIdentity h = grIdentity h' \<and> grThreadID h = grThreadID h' \<and>
        \<not> (grIdentity h = grIdentity g \<and> grThreadID h = grThreadID g)" if "usable ?s k h'" "k \<noteq> token" for k h'
      using that unfolding g(2) by (auto simp: usable_def registered_def revoke_others_def revoked_neq split: if_splits)
    have own: "grIdentity h' = grIdentity g \<and> grThreadID h' = grThreadID g" if "usable ?s token h'" for h'
      using that unfolding g(2) by (auto simp: usable_def registered_def split: if_splits)
    show ?thesis
      unfolding single_use_def
    proof (intro allI impI)
      fix k k' h h'
      assume a: "usable ?s k h \<and> usable ?s k' h' \<and> grIdentity h = grIdentity h' \<and> grThreadID h = grThreadID h'"
      show "k = k'"
      proof (cases "k = token \<or> k' = token")
        case True
        then show ?thesis using a own other by metis
      next
        case False
        then show ?thesis using a other ok unfolding single_use_def by metis
      qed
    qed
  qed (simp add: ok)
qed

lemma single_use_step: "single_use s \<Longrightarrow> single_use (cred_step op s)"
proof (cases op)
  case (OpPrepare now token identity threadID)
  assume ok: "single_use s"
  show ?thesis
  proof (cases "grants s token")
    case None
    let ?s = "Prepare now token identity threadID s"
    have "usable s k g" if "usable ?s k g" for k g
      using that None by (auto simp: usable_def registered_def Prepare_def split: if_splits)
    then have "single_use ?s" using ok unfolding single_use_def by meson
    then show ?thesis using None OpPrepare by simp
  qed (use ok OpPrepare in simp)
next
  case (OpBindGrant now token remote)
  assume "single_use s"
  then show ?thesis using OpBindGrant single_use_Bind by simp
next
  case (OpGrantClose token)
  assume "single_use s"
  then show ?thesis unfolding OpGrantClose cred_step.simps
    by (rule registered_mono [rotated 2]) (auto simp: Grant_Close_def)
next
  case (OpRevoke identity)
  assume "single_use s"
  then show ?thesis unfolding OpRevoke cred_step.simps
    by (rule registered_mono [rotated 2]) (auto simp: Revoke_def Let_def split: if_splits)
next
  case OpServiceClose
  assume "single_use s"
  then show ?thesis unfolding OpServiceClose cred_step.simps
    by (rule registered_mono [rotated 2]) (auto simp: Service_Close_def)
next
  case (OpConfirm token)
  assume "single_use s"
  then show ?thesis unfolding OpConfirm cred_step.simps
    by (rule registered_mono [rotated 2]) (auto simp: confirm_def split: if_splits)
qed

lemma cred_run_simps [simp]: "cred_run [] s = s" "cred_run (op # ops) s = cred_run ops (cred_step op s)"
  by (simp_all add: cred_run_def)

lemma single_use_run: "single_use s \<Longrightarrow> single_use (cred_run ops s)"
  by (induction ops arbitrary: s) (simp_all add: single_use_step)

text \<open>What a grant is issued for never changes, and a dropped token never comes back.\<close>

definition issued_for :: "credential_state \<Rightarrow> string \<Rightarrow> Identity \<Rightarrow> string \<Rightarrow> bool" where
  "issued_for s token identity threadID \<longleftrightarrow>
     (case grants s token of Some g \<Rightarrow> grIdentity g = identity \<and> grThreadID g = threadID | None \<Rightarrow> False)"

lemma issued_step: "issued_for s token identity threadID \<Longrightarrow> issued_for (cred_step op s) token identity threadID"
  by (cases op)
    (auto simp: issued_for_def Prepare_def Bind_def Grant_Close_def Revoke_def Service_Close_def confirm_def revoke_others_def Let_def
      split: option.splits if_splits)

lemma issued_run: "issued_for s token identity threadID \<Longrightarrow> issued_for (cred_run ops s) token identity threadID"
  by (induction ops arbitrary: s) (simp_all add: issued_step)

lemma dropped_step:
  "issued_for s token identity threadID \<Longrightarrow> token \<notin> set (credentials s) \<Longrightarrow> token \<notin> set (credentials (cred_step op s))"
  by (cases op)
    (auto simp: issued_for_def Prepare_def Bind_def Grant_Close_def Revoke_def Service_Close_def confirm_def revoke_others_def Let_def
      split: option.splits if_splits)

lemma dropped_run:
  "issued_for s token identity threadID \<Longrightarrow> token \<notin> set (credentials s) \<Longrightarrow> token \<notin> set (credentials (cred_run ops s))"
  by (induction ops arbitrary: s) (simp_all add: issued_step dropped_step)

section \<open>Properties\<close>

text \<open>At every point of every interleaving at most one usable token exists for an activation:
  binding a new grant of a participant's thread revokes the earlier ones.\<close>

theorem one_token_per_activation:
  "\<not> (k \<noteq> k' \<and> usable (cred_run ops no_credentials) k g \<and> usable (cred_run ops no_credentials) k' g' \<and>
      grIdentity g = grIdentity g' \<and> grThreadID g = grThreadID g')"
proof -
  have "single_use no_credentials" by (simp add: single_use_def usable_def registered_def no_credentials_def)
  then have "single_use (cred_run ops no_credentials)" by (rule single_use_run)
  then show ?thesis unfolding single_use_def by blast
qed

text \<open>C19 (safety). Revocation is final: after the grants of a participant are revoked, no token issued to it
  before authenticates again, whatever operations follow.\<close>

theorem revoked_token_never_authenticates:
  assumes "issued_for s token identity threadID"
  shows "snd (Authenticate token (p # polls) (cred_run ops (Revoke identity s))) = Inl CredentialExpired"
proof -
  have "issued_for (Revoke identity s) token identity threadID" using issued_step [OF assms, of "OpRevoke identity"] by simp
  moreover have "token \<notin> set (credentials (Revoke identity s))"
    using assms by (auto simp: Revoke_def issued_for_def Let_def split: option.splits)
  ultimately have "token \<notin> set (credentials (cred_run ops (Revoke identity s)))" by (rule dropped_run)
  then show ?thesis by (simp add: registered_def)
qed

definition sample_identity :: Identity where "sample_identity = \<lparr>idSession = ''s'', idMember = ''reviewer''\<rparr>"

definition sample_credentials :: credential_state where
  "sample_credentials = cred_run [OpPrepare 0 ''tok'' sample_identity ''t1'', OpBindGrant 1 ''tok'' ''acp''] no_credentials"

definition sample_thread :: Thread where
  "sample_thread = \<lparr>thParticipantID = ''p1'', thGeneration = ''1'', thID = ''t1'', thSessionID = ''acp'', thHandle = ''reviewer'', thState = ''running'', thCanDeliver = True\<rparr>"

definition sample_poll :: poll where
  "sample_poll = \<lparr>plNow = 2, plMeanwhile = [], plListed = Inr [sample_thread], plConfirm = 3\<rparr>"

lemmas sample_cred_defs = sample_credentials_def sample_identity_def sample_poll_def sample_thread_def no_credentials_def
  Prepare_def Bind_def revoke_others_def credentialLifetime_def issued_for_def registered_def live_def matches_def still_valid_def

lemma revoked_token_never_authenticates_witness:
  "snd (Authenticate ''tok'' [sample_poll] sample_credentials) = Inr (sample_identity, 86401) \<and>
   snd (Authenticate ''tok'' [sample_poll] (cred_run [] (Revoke sample_identity sample_credentials))) = Inl CredentialExpired"
proof
  show "snd (Authenticate ''tok'' [sample_poll] sample_credentials) = Inr (sample_identity, 86401)"
    by (simp add: sample_cred_defs)
  have "issued_for sample_credentials ''tok'' sample_identity ''t1''" by (simp add: sample_cred_defs)
  then show "snd (Authenticate ''tok'' [sample_poll] (cred_run [] (Revoke sample_identity sample_credentials))) = Inl CredentialExpired"
    by (rule revoked_token_never_authenticates)
qed

text \<open>A token authenticates only as the participant it was issued for, before its deadline, and
  while the backend lists that participant on the thread of the grant.\<close>

theorem authenticated_is_attached:
  assumes "issued_for s token identity threadID" and "snd (Authenticate token polls s) = Inr (caller, expires)"
  shows "caller = identity \<and>
         list_ex (\<lambda>p. plNow p < expires \<and>
           (case plListed p of Inl _ \<Rightarrow> False
            | Inr threads \<Rightarrow> list_ex (\<lambda>th. thHandle th = idMember identity \<and> thID th = threadID) threads)) polls"
  using assms
proof (induction token polls s rule: Authenticate.induct)
  case (2 token p polls s)
  from 2(3) obtain g where g: "registered s token = Some g" "grActive g" "live (plNow p) g"
    by (auto split: option.splits if_splits)
  have id: "grIdentity g = identity" "grThreadID g = threadID"
    using g(1) 2(2) by (auto simp: registered_def issued_for_def split: if_splits option.splits)
  obtain threads where threads: "plListed p = Inr threads" using 2(3) g by (auto simp: Let_def split: sum.splits)
  let ?s1 = "cred_run (plMeanwhile p) s"
  show ?case
  proof (cases "list_ex (matches g) threads \<and> still_valid (plConfirm p) token ?s1")
    case True
    then have "caller = grIdentity g" "expires = grExpires g" using 2(3) g threads by (simp_all add: Let_def)
    then show ?thesis using True threads id g(3) by (auto simp: list_ex_iff matches_def live_def)
  next
    case False
    then have r: "\<not> (grConfirmed g \<or> list_ex (\<lambda>th. thHandle th = idMember (grIdentity g)) threads)"
        "snd (Authenticate token polls ?s1) = Inr (caller, expires)"
      using 2(3) g threads by (auto simp: Let_def split: if_splits)
    have "caller = identity \<and>
         list_ex (\<lambda>p. plNow p < expires \<and>
           (case plListed p of Inl _ \<Rightarrow> False
            | Inr threads \<Rightarrow> list_ex (\<lambda>th. thHandle th = idMember identity \<and> thID th = threadID) threads)) polls"
      using "2.IH" [OF g(1) _ refl threads False r(1) issued_run [OF 2(2)] r(2)] g by blast
    then show ?thesis by simp
  qed
qed simp

lemma authenticated_is_attached_witness:
  "snd (Authenticate ''tok'' [sample_poll] sample_credentials) = Inr (sample_identity, 86401) \<and> plNow sample_poll < 86401"
proof -
  have i: "issued_for sample_credentials ''tok'' sample_identity ''t1''" by (simp add: sample_cred_defs)
  have r: "snd (Authenticate ''tok'' [sample_poll] sample_credentials) = Inr (sample_identity, 86401)" by (simp add: sample_cred_defs)
  from authenticated_is_attached [OF i r] r show ?thesis by simp
qed

end
