(* ===== verification/Collab_User_Input.thy ===== *)
theory Collab_User_Input
  imports Collab_Store
begin

text \<open>
  The durable queue of user input to delegated children, \<open>control/collaboration/user_input.go\<close>:
  enqueueing, the pending inputs, delivery, receipts and the reconciliation at start-up.

  A delivery runs concurrently with everything else; it is split where it calls the backend,
  into the claim that marks the row as being sent and the settlement of the answer, and the
  \<open>active\<close> table of the runner admits one delivery per participant at a time.  The ledger is the list
  of rows, with the stored body as the input it decodes to; update times are not kept.
  Content parts are their text and an opaque rest.  The result of \<open>List\<close>, the answer of
  \<open>DeliverUserInput\<close> and the errors of statements are arguments.
\<close>

section \<open>Data\<close>

record UserInput =
  uiID :: string
  uiUserID :: string
  uiSessionID :: string
  uiParticipantID :: string
  uiTaskID :: string
  uiChildSessionID :: string
  uiGeneration :: string
  uiText :: string
  uiContentParts :: "(string \<times> json) list"

datatype input_state = Queued | Sending | Sent | Failed | Unknown

record UserInputStatus =
  stID :: string
  stState :: input_state
  stDetail :: string

record input_row =
  irSeq :: nat
  irID :: string
  irUser :: string
  irBody :: UserInput
  irState :: input_state
  irDetail :: string

text \<open>The columns \<open>session\<close> and \<open>participant\<close> are written from the same values as the body.\<close>

abbreviation row_key :: "input_row \<Rightarrow> string \<times> string" where
  "row_key r \<equiv> (uiSessionID (irBody r), uiParticipantID (irBody r))"

record ledger =
  lgRows :: "input_row list"
  lgSequence :: nat

datatype input_error =
    InputUnavailable
  | InvalidArgument
  | Conflict
  | UnknownOutcome
  | TooManyReceipts
  | InputBackend collab_error
  | InputStore string

section \<open>Enqueueing\<close>

definition find_row :: "ledger \<Rightarrow> string \<Rightarrow> input_row option" where
  "find_row l k = find (\<lambda>r. irID r = k) (lgRows l)"

text \<open>\<open>None\<close> when there is no row, otherwise the status of the row or the conflict.\<close>

definition existingUserInput ::
    "ledger \<Rightarrow> string \<Rightarrow> string \<Rightarrow> string \<Rightarrow> string \<Rightarrow> string \<Rightarrow> string \<Rightarrow> (string \<times> json) list \<Rightarrow> (input_error + UserInputStatus) option" where
  "existingUserInput l k user session participant task content parts =
     (case find_row l k of
        None \<Rightarrow> None
      | Some r \<Rightarrow>
          if irUser r \<noteq> user \<or> uiSessionID (irBody r) \<noteq> session \<or> uiParticipantID (irBody r) \<noteq> participant \<or>
             uiTaskID (irBody r) \<noteq> task \<or> uiText (irBody r) \<noteq> content \<or> uiContentParts (irBody r) \<noteq> parts
          then Some (Inl Conflict)
          else Some (Inr \<lparr>stID = k, stState = irState r, stDetail = irDetail r\<rparr>))"

definition insert_row :: "string \<Rightarrow> string \<Rightarrow> UserInput \<Rightarrow> ledger \<Rightarrow> ledger" where
  "insert_row k user input l =
     (if find_row l k \<noteq> None then l
      else l\<lparr>lgRows := lgRows l @ [\<lparr>irSeq = Suc (lgSequence l), irID = k, irUser = user, irBody = input\<lparr>uiUserID := []\<rparr>,
                                  irState = Queued, irDetail = []\<rparr>],
             lgSequence := Suc (lgSequence l)\<rparr>)"

definition EnqueueUserInput ::
    "bool \<Rightarrow> collab_error + Thread list \<Rightarrow> string option \<Rightarrow>
     string \<Rightarrow> string \<Rightarrow> string \<Rightarrow> string \<Rightarrow> string \<Rightarrow> string \<Rightarrow> (string \<times> json) list \<Rightarrow> ledger \<Rightarrow> ledger \<times> (input_error + UserInputStatus)" where
  "EnqueueUserInput supported listed db k user session participant task rawText parts l =
     (if \<not> supported then (l, Inl InputUnavailable)
      else
        let content = TrimSpace rawText;
            textBytes = sum_list (map (length \<circ> fst) parts)
        in if k = [] \<or> user = [] \<or> session = [] \<or> participant = [] \<or> task = [] \<or> (content = [] \<and> parts = []) \<or>
              max (length content) textBytes > 65536
           then (l, Inl InvalidArgument)
           else case existingUserInput l k user session participant task content parts of
                  Some res \<Rightarrow> (l, res)
                | None \<Rightarrow>
                    (case listed of
                       Inl e \<Rightarrow> (l, Inl (InputBackend e))
                     | Inr threads \<Rightarrow>
                         (case find (\<lambda>t. thID t = task \<and> thParticipantID t = participant) threads of
                            None \<Rightarrow> (l, Inl Conflict)
                          | Some target \<Rightarrow>
                              if thID target = [] \<or> thSessionID target = [] then (l, Inl Conflict)
                              else if thState target = ''unknown_outcome'' then (l, Inl UnknownOutcome)
                              else case db of
                                     Some e \<Rightarrow> (l, Inl (InputStore e))
                                   | None \<Rightarrow>
                                       let input = \<lparr>uiID = k, uiUserID = user, uiSessionID = session, uiParticipantID = participant,
                                             uiTaskID = task, uiChildSessionID = thSessionID target, uiGeneration = thGeneration target,
                                             uiText = content, uiContentParts = parts\<rparr>;
                                           l' = insert_row k user input l
                                       in (l', case existingUserInput l' k user session participant task content parts of
                                                 Some res \<Rightarrow> res
                                               | None \<Rightarrow> Inr \<lparr>stID = [], stState = Queued, stDetail = []\<rparr>))))"

definition UserInputStatuses :: "ledger \<Rightarrow> string \<Rightarrow> string \<Rightarrow> string list \<Rightarrow> input_error + UserInputStatus list" where
  "UserInputStatuses l user session ids =
     (if length ids > 64 then Inl TooManyReceipts
      else Inr (map (\<lambda>k. case find (\<lambda>r. irID r = k \<and> irUser r = user \<and> uiSessionID (irBody r) = session) (lgRows l) of
                           Some r \<Rightarrow> \<lparr>stID = k, stState = irState r, stDetail = irDetail r\<rparr>
                         | None \<Rightarrow> \<lparr>stID = k, stState = Unknown, stDetail = ''Input receipt is unavailable''\<rparr>) ids))"

section \<open>Delivery\<close>

definition set_state :: "string \<Rightarrow> input_state \<Rightarrow> string option \<Rightarrow> ledger \<Rightarrow> ledger" where
  "set_state k st detail l =
     l\<lparr>lgRows := map (\<lambda>r. if irID r = k then r\<lparr>irState := st, irDetail := (case detail of Some d \<Rightarrow> d | None \<Rightarrow> irDetail r)\<rparr> else r) (lgRows l)\<rparr>"

definition finishUserInput :: "string option \<Rightarrow> string \<Rightarrow> input_state \<Rightarrow> string \<Rightarrow> ledger \<Rightarrow> ledger" where
  "finishUserInput db k st detail l = (case db of Some _ \<Rightarrow> l | None \<Rightarrow> set_state k st (Some detail) l)"

definition prepareUserInputStore :: "ledger \<Rightarrow> ledger" where
  "prepareUserInputStore l =
     l\<lparr>lgRows := map (\<lambda>r. if irState r = Sending
         then r\<lparr>irState := Unknown, irDetail := ''Host restarted during delivery; input was not retried''\<rparr> else r) (lgRows l)\<rparr>"

text \<open>The oldest queued input of each participant, in sequence order.\<close>

definition pendingUserInputs :: "ledger \<Rightarrow> UserInput list" where
  "pendingUserInputs l =
     (let queued = filter (\<lambda>r. irState r = Queued) (lgRows l)
      in map (\<lambda>r. (irBody r)\<lparr>uiUserID := irUser r\<rparr>)
           (sort_key irSeq (filter (\<lambda>r. list_all (\<lambda>q. row_key q = row_key r \<longrightarrow> irSeq r \<le> irSeq q) queued) queued)))"

text \<open>The first part of a delivery: \<open>True\<close> when the backend is to be called.\<close>

definition claim_input :: "collab_error + Thread list \<Rightarrow> string option \<Rightarrow> UserInput \<Rightarrow> ledger \<Rightarrow> ledger \<times> bool" where
  "claim_input listed db input l =
     (case listed of
        Inl e \<Rightarrow> (if e = ErrSessionClosed then finishUserInput db (uiID input) Failed ''Session closed before delivery'' l else l, False)
      | Inr threads \<Rightarrow>
          (case find (\<lambda>t. thID t = uiTaskID input \<and> thParticipantID t = uiParticipantID input \<and>
                          thSessionID t = uiChildSessionID input \<and> thGeneration t = uiGeneration input) threads of
             None \<Rightarrow> (finishUserInput db (uiID input) Failed ''Participant detached before delivery'' l, False)
           | Some target \<Rightarrow>
               if thState target = ''unknown_outcome''
               then (finishUserInput db (uiID input) Unknown ''Participant execution is unresolved; input was not sent'' l, False)
               else if \<not> thCanDeliver target then (l, False)
               else case db of
                      Some _ \<Rightarrow> (l, False)
                    | None \<Rightarrow>
                        (case find_row l (uiID input) of
                           Some r \<Rightarrow> if irState r = Queued then (set_state (uiID input) Sending None l, True) else (l, False)
                         | None \<Rightarrow> (l, False))))"

datatype delivery = Accepted | ErrChildInputNotReady | Refused string | Uncertain

text \<open>\<open>Refused\<close> is an error whose code proves that nothing was admitted.\<close>

definition settle_input :: "delivery \<Rightarrow> string option \<Rightarrow> UserInput \<Rightarrow> ledger \<Rightarrow> ledger" where
  "settle_input answer db input l =
     (case answer of
        ErrChildInputNotReady \<Rightarrow> finishUserInput db (uiID input) Queued [] l
      | Accepted \<Rightarrow> finishUserInput db (uiID input) Sent [] l
      | Refused msg \<Rightarrow> finishUserInput db (uiID input) Failed msg l
      | Uncertain \<Rightarrow> finishUserInput db (uiID input) Unknown ''Delivery could not be confirmed; input was not retried'' l)"

definition deliverUserInput ::
    "collab_error + Thread list \<Rightarrow> string option \<Rightarrow> delivery \<Rightarrow> string option \<Rightarrow> UserInput \<Rightarrow> ledger \<Rightarrow> ledger" where
  "deliverUserInput listed db answer finish_db input l =
     (case claim_input listed db input l of
        (l', True) \<Rightarrow> settle_input answer finish_db input l'
      | (l', False) \<Rightarrow> l')"

section \<open>The runner\<close>

text \<open>
  The ledger, the deliveries under way, and for the statements below the identities whose
  delivery was started and the ones the backend answered with \<open>ErrChildInputNotReady\<close>.
\<close>

record input_runner =
  rnLedger :: ledger
  rnActive :: "UserInput list"
  rnStarted :: "string list"
  rnNotReady :: "string list"

definition idle_runner :: input_runner where
  "idle_runner = \<lparr>rnLedger = \<lparr>lgRows = [], lgSequence = 0\<rparr>, rnActive = [], rnStarted = [], rnNotReady = []\<rparr>"

abbreviation input_key :: "UserInput \<Rightarrow> string \<times> string" where
  "input_key input \<equiv> (uiSessionID input, uiParticipantID input)"

datatype input_op =
    OpEnqueue bool "collab_error + Thread list" "string option" string string string string string string "(string \<times> json) list"
  | OpDeliver UserInput "collab_error + Thread list" "string option"
  | OpSettle UserInput delivery "string option"
  | OpRestart

fun input_step :: "input_op \<Rightarrow> input_runner \<Rightarrow> input_runner" where
  "input_step (OpEnqueue supported listed db k user session participant task rawText parts) s =
     s\<lparr>rnLedger := fst (EnqueueUserInput supported listed db k user session participant task rawText parts (rnLedger s))\<rparr>"
| "input_step (OpDeliver input listed db) s =
     (if input \<in> set (pendingUserInputs (rnLedger s)) \<and> \<not> list_ex (\<lambda>a. input_key a = input_key input) (rnActive s)
      then case claim_input listed db input (rnLedger s) of
             (l, True) \<Rightarrow> s\<lparr>rnLedger := l, rnActive := input # rnActive s, rnStarted := uiID input # rnStarted s\<rparr>
           | (l, False) \<Rightarrow> s\<lparr>rnLedger := l\<rparr>
      else s)"
| "input_step (OpSettle input answer db) s =
     (if input \<in> set (rnActive s)
      then s\<lparr>rnLedger := settle_input answer db input (rnLedger s), rnActive := remove1 input (rnActive s),
             rnNotReady := (if answer = ErrChildInputNotReady then uiID input # rnNotReady s else rnNotReady s)\<rparr>
      else s)"
| "input_step OpRestart s = s\<lparr>rnLedger := prepareUserInputStore (rnLedger s), rnActive := []\<rparr>"

definition input_run :: "input_op list \<Rightarrow> input_runner \<Rightarrow> input_runner" where
  "input_run ops s = fold input_step ops s"

lemma input_run_simps [simp]:
  "input_run [] s = s" "input_run (op # ops) s = input_run ops (input_step op s)" "input_run (ops @ ops') s = input_run ops' (input_run ops s)"
  by (simp_all add: input_run_def)

section \<open>What the statements do to one row\<close>

definition state_of :: "ledger \<Rightarrow> string \<Rightarrow> input_state option" where
  "state_of l k = map_option irState (find_row l k)"

definition content_of :: "ledger \<Rightarrow> string \<Rightarrow> (string \<times> UserInput) option" where
  "content_of l k = map_option (\<lambda>r. (irUser r, irBody r)) (find_row l k)"

definition ledger_ok :: "ledger \<Rightarrow> bool" where
  "ledger_ok l \<longleftrightarrow> distinct (map irID (lgRows l)) \<and> (\<forall>r \<in> set (lgRows l). uiID (irBody r) = irID r)"

lemma find_map_same: "(\<And>x. P (f x) = P x) \<Longrightarrow> find P (map f xs) = map_option f (find P xs)"
  by (induction xs) auto

lemma find_append: "find P (xs @ ys) = (case find P xs of Some x \<Rightarrow> Some x | None \<Rightarrow> find P ys)"
  by (induction xs) auto

lemma find_row_set:
  "find_row (set_state k st d l) j =
     map_option (\<lambda>r. if irID r = k then r\<lparr>irState := st, irDetail := (case d of Some x \<Rightarrow> x | None \<Rightarrow> irDetail r)\<rparr> else r) (find_row l j)"
  unfolding find_row_def set_state_def by (simp add: find_map_same)

lemma find_row_key: "find_row l k = Some r \<Longrightarrow> irID r = k \<and> r \<in> set (lgRows l)"
  by (auto simp: find_row_def find_Some_iff)

lemma state_of_set [simp]: "state_of (set_state k st d l) j = (if j = k then map_option (\<lambda>_. st) (state_of l j) else state_of l j)"
  by (cases "find_row l j") (auto simp: state_of_def find_row_set dest: find_row_key)

lemma content_of_set [simp]: "content_of (set_state k st d l) j = content_of l j"
  by (cases "find_row l j") (auto simp: content_of_def find_row_set)

lemma ledger_ok_map:
  assumes "\<And>r. irID (f r) = irID r" "\<And>r. irBody (f r) = irBody r"
  shows "ledger_ok (l\<lparr>lgRows := map f (lgRows l)\<rparr>) = ledger_ok l"
  using assms by (simp add: ledger_ok_def comp_def)

lemma ledger_ok_set [simp]: "ledger_ok (set_state k st d l) = ledger_ok l"
  unfolding set_state_def by (rule ledger_ok_map) simp_all

lemma finish_row [simp]:
  "state_of (finishUserInput db k st d l) j = (if j = k \<and> db = None then map_option (\<lambda>_. st) (state_of l j) else state_of l j)"
  "content_of (finishUserInput db k st d l) j = content_of l j"
  "ledger_ok (finishUserInput db k st d l) = ledger_ok l"
  by (simp_all add: finishUserInput_def split: option.split)

lemma find_row_insert:
  "find_row (insert_row k user input l) j =
     (if j = k \<and> find_row l k = None
      then Some \<lparr>irSeq = Suc (lgSequence l), irID = k, irUser = user, irBody = input\<lparr>uiUserID := []\<rparr>, irState = Queued, irDetail = []\<rparr>
      else find_row l j)"
  by (auto simp: insert_row_def find_row_def find_append split: option.split)

lemma insert_row_ok: "ledger_ok l \<Longrightarrow> uiID input = k \<Longrightarrow> ledger_ok (insert_row k user input l)"
  by (auto simp: ledger_ok_def insert_row_def find_row_def find_None_iff)

lemma state_of_restart [simp]:
  "state_of (prepareUserInputStore l) j = map_option (\<lambda>st. if st = Sending then Unknown else st) (state_of l j)"
  "content_of (prepareUserInputStore l) j = content_of l j"
  by (simp_all add: state_of_def content_of_def prepareUserInputStore_def find_row_def find_map_same option.map_comp comp_def)
    (auto intro: option.map_cong0)

lemma ledger_ok_restart [simp]: "ledger_ok (prepareUserInputStore l) = ledger_ok l"
  unfolding prepareUserInputStore_def by (rule ledger_ok_map) simp_all

lemma find_row_present: "ledger_ok l \<Longrightarrow> r \<in> set (lgRows l) \<Longrightarrow> find_row l (irID r) = Some r"
proof -
  have "distinct (map irID rows) \<Longrightarrow> r \<in> set rows \<Longrightarrow> find (\<lambda>q. irID q = irID r) rows = Some r" for rows
    by (induction rows) auto
  then show "ledger_ok l \<Longrightarrow> r \<in> set (lgRows l) \<Longrightarrow> ?thesis" by (simp add: ledger_ok_def find_row_def)
qed

lemma pending_queued:
  assumes "ledger_ok l" "input \<in> set (pendingUserInputs l)"
  shows "state_of l (uiID input) = Some Queued"
proof -
  from assms(2) obtain r where r: "r \<in> set (lgRows l)" "irState r = Queued" "uiID input = uiID (irBody r)"
    by (auto simp: pendingUserInputs_def Let_def)
  then have "uiID input = irID r" using assms(1) by (simp add: ledger_ok_def)
  moreover have "find_row l (irID r) = Some r" using assms(1) r(1) by (rule find_row_present)
  ultimately show ?thesis using r(2) by (simp add: state_of_def)
qed

section \<open>The effect of an operation on one row\<close>

lemma enqueue_ledger:
  "fst (EnqueueUserInput supported listed db k user session participant task rawText parts l) = l \<or>
   (\<exists>input. uiID input = k \<and> fst (EnqueueUserInput supported listed db k user session participant task rawText parts l) = insert_row k user input l)"
proof -
  have "\<exists>input. uiID input = k \<and> insert_row k user \<lparr>uiID = k, uiUserID = user, uiSessionID = session, uiParticipantID = participant,
      uiTaskID = task, uiChildSessionID = c, uiGeneration = g, uiText = x, uiContentParts = parts\<rparr> l = insert_row k user input l" for c g x
    by (rule exI) auto
  then show ?thesis by (auto simp: EnqueueUserInput_def Let_def split: sum.split option.split)
qed

text \<open>The claim leaves the row queued, sends it, or closes it without a dispatch.\<close>

lemma claim_effect_row:
  assumes "claim_input listed db input l = (l', started)" "state_of l (uiID input) = Some Queued"
  shows "ledger_ok l' = ledger_ok l" "\<And>j. content_of l' j = content_of l j" "\<And>j. j \<noteq> uiID input \<Longrightarrow> state_of l' j = state_of l j"
    "if started then state_of l' (uiID input) = Some Sending else state_of l' (uiID input) \<in> {Some Queued, Some Failed, Some Unknown}"
proof -
  obtain r where r: "find_row l (uiID input) = Some r" "irState r = Queued" using assms(2) by (auto simp: state_of_def)
  have "ledger_ok l' = ledger_ok l \<and> (\<forall>j. content_of l' j = content_of l j) \<and> (\<forall>j. j \<noteq> uiID input \<longrightarrow> state_of l' j = state_of l j) \<and>
    (if started then state_of l' (uiID input) = Some Sending else state_of l' (uiID input) \<in> {Some Queued, Some Failed, Some Unknown})"
    using assms r by (auto simp: claim_input_def split: sum.splits option.splits if_splits)
  then show "ledger_ok l' = ledger_ok l" "\<And>j. content_of l' j = content_of l j" "\<And>j. j \<noteq> uiID input \<Longrightarrow> state_of l' j = state_of l j"
    "if started then state_of l' (uiID input) = Some Sending else state_of l' (uiID input) \<in> {Some Queued, Some Failed, Some Unknown}"
    by blast+
qed

lemma settle_effect_row [simp]:
  "ledger_ok (settle_input answer db input l) = ledger_ok l"
  "content_of (settle_input answer db input l) j = content_of l j"
  "j \<noteq> uiID input \<Longrightarrow> state_of (settle_input answer db input l) j = state_of l j"
  by (cases answer; simp add: settle_input_def)+

section \<open>The invariant of the runner\<close>

text \<open>How many more deliveries of a row may have been started than were answered as not ready.\<close>

definition allowance :: "ledger \<Rightarrow> string \<Rightarrow> nat" where
  "allowance l k = (if state_of l k \<in> {None, Some Queued} then 0 else 1)"

definition runner_ok :: "input_runner \<Rightarrow> bool" where
  "runner_ok s \<longleftrightarrow>
     ledger_ok (rnLedger s) \<and> distinct (map uiID (rnActive s)) \<and>
     (\<forall>a \<in> set (rnActive s). state_of (rnLedger s) (uiID a) = Some Sending) \<and>
     (\<forall>k. count_list (rnStarted s) k \<le> count_list (rnNotReady s) k + allowance (rnLedger s) k)"

lemma runner_ok_enqueue:
  assumes "runner_ok s"
  shows "runner_ok (input_step (OpEnqueue supported listed db k user session participant task rawText parts) s)"
  using enqueue_ledger [of supported listed db k user session participant task rawText parts "rnLedger s"]
proof
  assume "\<exists>input. uiID input = k \<and>
    fst (EnqueueUserInput supported listed db k user session participant task rawText parts (rnLedger s)) = insert_row k user input (rnLedger s)"
  then obtain input where i: "uiID input = k"
    "fst (EnqueueUserInput supported listed db k user session participant task rawText parts (rnLedger s)) = insert_row k user input (rnLedger s)" by blast
  have st: "state_of (insert_row k user input (rnLedger s)) j =
      (if j = k \<and> state_of (rnLedger s) k = None then Some Queued else state_of (rnLedger s) j)" for j
    by (simp add: state_of_def find_row_insert)
  then have "allowance (insert_row k user input (rnLedger s)) j = allowance (rnLedger s) j" for j by (simp add: allowance_def)
  then show ?thesis
    using assms i(1) by (auto simp: runner_ok_def i(2) st insert_row_ok)
qed (use assms in simp)

lemma runner_ok_begin:
  assumes "runner_ok s"
  shows "runner_ok (input_step (OpDeliver input listed db) s)"
proof (cases "input \<in> set (pendingUserInputs (rnLedger s)) \<and> \<not> list_ex (\<lambda>a. input_key a = input_key input) (rnActive s)")
  case True
  let ?k = "uiID input"
  have q: "state_of (rnLedger s) ?k = Some Queued" using assms True pending_queued by (auto simp: runner_ok_def)
  obtain l' started where c: "claim_input listed db input (rnLedger s) = (l', started)" by (cases "claim_input listed db input (rnLedger s)")
  note e = claim_effect_row [OF c q]
  have fresh: "?k \<notin> uiID ` set (rnActive s)" using assms q by (fastforce simp: runner_ok_def)
  have act: "\<forall>a \<in> set (rnActive s). state_of l' (uiID a) = Some Sending" using assms e(3) fresh unfolding runner_ok_def by (metis image_eqI)
  have al: "allowance l' j = allowance (rnLedger s) j" if "j \<noteq> ?k" for j using e(3) [OF that] by (simp add: allowance_def)
  have k0: "count_list (rnStarted s) ?k \<le> count_list (rnNotReady s) ?k" using assms q by (auto simp: runner_ok_def allowance_def dest: spec [of _ ?k])
  show ?thesis
  proof (cases started)
    case started: True
    have "allowance l' ?k = 1" using e(4) started by (simp add: allowance_def)
    then have "count_list (?k # rnStarted s) j \<le> count_list (rnNotReady s) j + allowance l' j" for j
      using k0 assms al by (cases "j = ?k") (auto simp: runner_ok_def)
    then show ?thesis using True c started assms act fresh e by (simp add: runner_ok_def)
  next
    case False
    have "count_list (rnStarted s) j \<le> count_list (rnNotReady s) j + allowance l' j" for j
      using k0 assms al by (cases "j = ?k") (auto simp: runner_ok_def)
    then show ?thesis using True c False assms act e by (simp add: runner_ok_def)
  qed
qed (use assms in auto)

lemma runner_ok_settle:
  assumes "runner_ok s"
  shows "runner_ok (input_step (OpSettle input answer db) s)"
proof (cases "input \<in> set (rnActive s)")
  case True
  let ?k = "uiID input" and ?l = "settle_input answer db input (rnLedger s)"
  have act: "\<forall>a \<in> set (remove1 input (rnActive s)). state_of ?l (uiID a) = Some Sending"
  proof
    fix a assume a: "a \<in> set (remove1 input (rnActive s))"
    then have "uiID a \<noteq> ?k"
      using assms True by (auto simp: runner_ok_def distinct_map inj_on_def dest: distinct_remove1)
    then show "state_of ?l (uiID a) = Some Sending" using assms a by (auto simp: runner_ok_def dest: in_set_remove1 [THEN iffD1] notin_set_remove1)
  qed
  have s: "state_of (rnLedger s) ?k = Some Sending" using assms True by (simp add: runner_ok_def)
  have "count_list (rnStarted s) j \<le> count_list (if answer = ErrChildInputNotReady then ?k # rnNotReady s else rnNotReady s) j + allowance ?l j" for j
  proof (cases "j = ?k")
    case True
    have "count_list (rnStarted s) ?k \<le> Suc (count_list (rnNotReady s) ?k)"
      using assms s by (auto simp: runner_ok_def allowance_def dest: spec [of _ ?k])
    moreover have "answer \<noteq> ErrChildInputNotReady \<Longrightarrow> allowance ?l ?k = 1"
      using s by (cases answer) (auto simp: allowance_def settle_input_def)
    ultimately show ?thesis using True by auto
  next
    case False
    then have "allowance ?l j = allowance (rnLedger s) j" by (simp add: allowance_def)
    then show ?thesis using False assms by (simp add: runner_ok_def)
  qed
  then show ?thesis using True assms act by (simp add: runner_ok_def distinct_map distinct_remove1 inj_on_def)
qed (use assms in simp)

lemma runner_ok_step: "runner_ok s \<Longrightarrow> runner_ok (input_step op s)"
proof (cases op)
  case OpRestart
  assume "runner_ok s"
  moreover have "allowance (prepareUserInputStore l) k = allowance l k" for l k
    by (cases "state_of l k") (auto simp: allowance_def)
  ultimately show ?thesis using OpRestart by (simp add: runner_ok_def)
qed (use runner_ok_enqueue runner_ok_begin runner_ok_settle in blast)+

lemma idle_runner_ok: "runner_ok idle_runner"
  by (simp add: runner_ok_def idle_runner_def ledger_ok_def)

lemma runner_ok_run: "runner_ok s \<Longrightarrow> runner_ok (input_run ops s)"
  by (induction ops arbitrary: s) (simp_all add: runner_ok_step)

text \<open>A settled row keeps its state and every row keeps its content.\<close>

lemma settled_step:
  assumes "runner_ok s" "state_of (rnLedger s) k = Some st" "st \<in> {Sent, Failed, Unknown}"
  shows "state_of (rnLedger (input_step op s)) k = Some st"
proof (cases op)
  case (OpEnqueue supported listed db k' user session participant task rawText parts)
  then show ?thesis
    using enqueue_ledger [of supported listed db k' user session participant task rawText parts "rnLedger s"] assms(2)
    by (auto simp: state_of_def find_row_insert)
next
  case (OpDeliver input listed db)
  show ?thesis
  proof (cases "input \<in> set (pendingUserInputs (rnLedger s)) \<and> \<not> list_ex (\<lambda>a. input_key a = input_key input) (rnActive s)")
    case True
    have q: "state_of (rnLedger s) (uiID input) = Some Queued" using assms(1) True pending_queued by (auto simp: runner_ok_def)
    obtain l' b where c: "claim_input listed db input (rnLedger s) = (l', b)" by (cases "claim_input listed db input (rnLedger s)")
    have "k \<noteq> uiID input" using q assms(2,3) by auto
    then have "state_of l' k = Some st" using claim_effect_row(3) [OF c q] assms(2) by simp
    then show ?thesis using OpDeliver True c by (cases b) simp_all
  qed (use OpDeliver assms(2) in auto)
next
  case (OpSettle input answer db)
  have "k \<noteq> uiID input" if "input \<in> set (rnActive s)" using assms that by (auto simp: runner_ok_def)
  then show ?thesis using OpSettle assms(2) by simp
next
  case OpRestart
  then show ?thesis using assms(2,3) by auto
qed

lemma content_step:
  assumes "runner_ok s" "content_of (rnLedger s) k = Some c"
  shows "content_of (rnLedger (input_step op s)) k = Some c"
proof (cases op)
  case (OpEnqueue supported listed db k' user session participant task rawText parts)
  then show ?thesis
    using enqueue_ledger [of supported listed db k' user session participant task rawText parts "rnLedger s"] assms(2)
    by (auto simp: content_of_def find_row_insert)
next
  case (OpDeliver input listed db)
  show ?thesis
  proof (cases "input \<in> set (pendingUserInputs (rnLedger s)) \<and> \<not> list_ex (\<lambda>a. input_key a = input_key input) (rnActive s)")
    case True
    have q: "state_of (rnLedger s) (uiID input) = Some Queued" using assms(1) True pending_queued by (auto simp: runner_ok_def)
    obtain l' b where c: "claim_input listed db input (rnLedger s) = (l', b)" by (cases "claim_input listed db input (rnLedger s)")
    have "content_of l' k = Some c" using claim_effect_row(2) [OF c q] assms(2) by simp
    then show ?thesis using OpDeliver True c by (cases b) simp_all
  qed (use OpDeliver assms(2) in auto)
qed (use assms(2) in simp_all)

lemma content_run: "runner_ok s \<Longrightarrow> content_of (rnLedger s) k = Some c \<Longrightarrow> content_of (rnLedger (input_run ops s)) k = Some c"
  by (induction ops arbitrary: s) (simp_all add: content_step runner_ok_step)

lemma settled_run:
  "runner_ok s \<Longrightarrow> state_of (rnLedger s) k = Some st \<Longrightarrow> st \<in> {Sent, Failed, Unknown} \<Longrightarrow>
   state_of (rnLedger (input_run ops s)) k = Some st"
  by (induction ops arbitrary: s) (simp_all add: settled_step runner_ok_step)

section \<open>Properties\<close>

text \<open>C11 (safety). A user input is handed to the execution owner at most once, except after an answer that
  proves that nothing was admitted: over every interleaving of enqueues, deliveries and Host
  restarts, the deliveries started for an input exceed those answered as not ready by at most
  one.\<close>

theorem user_input_dispatched_once:
  "count_list (rnStarted (input_run ops idle_runner)) k \<le> Suc (count_list (rnNotReady (input_run ops idle_runner)) k)"
proof -
  have "runner_ok (input_run ops idle_runner)" by (rule runner_ok_run [OF idle_runner_ok])
  then have "count_list (rnStarted (input_run ops idle_runner)) k \<le>
      count_list (rnNotReady (input_run ops idle_runner)) k + allowance (rnLedger (input_run ops idle_runner)) k" by (simp add: runner_ok_def)
  also have "allowance (rnLedger (input_run ops idle_runner)) k \<le> 1" by (simp add: allowance_def)
  finally show ?thesis by simp
qed

text \<open>C28 (safety). A receipt is final: once an input is sent, failed or unknown, it stays so whatever happens next,
  and in particular it is never delivered again.\<close>

theorem input_receipt_is_final:
  assumes "state_of (rnLedger (input_run ops idle_runner)) k = Some st" and "st \<in> {Sent, Failed, Unknown}"
  shows "state_of (rnLedger (input_run (ops @ later) idle_runner)) k = Some st"
  using settled_run [OF runner_ok_run [OF idle_runner_ok] assms] by simp

definition child_thread :: Thread where
  "child_thread = \<lparr>thParticipantID = ''p1'', thGeneration = ''1'', thID = ''t1'', thSessionID = ''child'', thHandle = ''reviewer'', thState = ''running'', thCanDeliver = True\<rparr>"

definition child_input :: UserInput where
  "child_input = \<lparr>uiID = ''op1'', uiUserID = ''u'', uiSessionID = ''s'', uiParticipantID = ''p1'', uiTaskID = ''t1'',
     uiChildSessionID = ''child'', uiGeneration = ''1'', uiText = ''go'', uiContentParts = []\<rparr>"

definition child_ops :: "input_op list" where
  "child_ops = [OpEnqueue True (Inr [child_thread]) None ''op1'' ''u'' ''s'' ''p1'' ''t1'' '' go '' [],
     OpDeliver child_input (Inr [child_thread]) None, OpSettle child_input Accepted None]"

lemmas child_defs = child_ops_def child_input_def child_thread_def idle_runner_def EnqueueUserInput_def existingUserInput_def find_row_def
  insert_row_def pendingUserInputs_def claim_input_def settle_input_def finishUserInput_def set_state_def state_of_def go_simps

lemma input_receipt_is_final_witness:
  "state_of (rnLedger (input_run (child_ops @ [OpRestart]) idle_runner)) ''op1'' = Some Sent"
proof -
  have "state_of (rnLedger (input_run child_ops idle_runner)) ''op1'' = Some Sent" by (simp add: child_defs)
  then show ?thesis by (rule input_receipt_is_final) simp
qed

text \<open>Enqueueing is idempotent: after an input was admitted, the same request returns the current
  receipt of that input and adds nothing, however the runner has moved on meanwhile and
  whatever the backend says now.\<close>

theorem enqueue_idempotent:
  assumes "runner_ok s"
    and "EnqueueUserInput True listed db k user session participant task rawText parts (rnLedger s) = (l, Inr receipt)"
    and "later = rnLedger (input_run ops (s\<lparr>rnLedger := l\<rparr>))"
  shows "\<exists>st detail. state_of later k = Some st \<and>
           EnqueueUserInput True listed' db' k user session participant task rawText parts later =
             (later, Inr \<lparr>stID = k, stState = st, stDetail = detail\<rparr>)"
proof -
  have guards: "\<not> (k = [] \<or> user = [] \<or> session = [] \<or> participant = [] \<or> task = [] \<or> (TrimSpace rawText = [] \<and> parts = []) \<or>
      max (length (TrimSpace rawText)) (sum_list (map (length \<circ> fst) parts)) > 65536)"
    using assms(2) by (auto simp: EnqueueUserInput_def Let_def split: if_splits)
  have fits: "\<exists>b. content_of l k = Some (user, b) \<and> uiSessionID b = session \<and> uiParticipantID b = participant \<and> uiTaskID b = task \<and>
      uiText b = TrimSpace rawText \<and> uiContentParts b = parts"
    using assms(2) guards
    by (auto simp: EnqueueUserInput_def Let_def existingUserInput_def content_of_def find_row_insert split: if_splits option.splits sum.splits)
  then obtain b where b: "content_of l k = Some (user, b)" "uiSessionID b = session" "uiParticipantID b = participant" "uiTaskID b = task"
      "uiText b = TrimSpace rawText" "uiContentParts b = parts" by blast
  have "runner_ok (s\<lparr>rnLedger := l\<rparr>)"
    using runner_ok_enqueue [OF assms(1), of True listed db k user session participant task rawText parts] assms(2) by simp
  then have "content_of later k = Some (user, b)" using content_run b(1) assms(3) by simp
  then obtain r where "find_row later k = Some r" "irUser r = user" "irBody r = b" by (auto simp: content_of_def)
  then have "existingUserInput later k user session participant task (TrimSpace rawText) parts =
      Some (Inr \<lparr>stID = k, stState = irState r, stDetail = irDetail r\<rparr>)" "state_of later k = Some (irState r)"
    using b by (simp_all add: existingUserInput_def state_of_def)
  then show ?thesis using guards by (simp add: EnqueueUserInput_def Let_def del: de_Morgan_disj)
qed

lemma enqueue_idempotent_witness:
  "\<exists>st detail l. EnqueueUserInput True (Inl ErrSessionClosed) None ''op1'' ''u'' ''s'' ''p1'' ''t1'' '' go '' [] l =
     (l, Inr \<lparr>stID = ''op1'', stState = st, stDetail = detail\<rparr>)"
proof -
  obtain l receipt where "EnqueueUserInput True (Inr [child_thread]) None ''op1'' ''u'' ''s'' ''p1'' ''t1'' '' go '' [] (rnLedger idle_runner) = (l, Inr receipt)"
    by (simp add: child_defs)
  from enqueue_idempotent [OF idle_runner_ok this refl, where ops = "[]"] show ?thesis by blast
qed

end
