(* ===== verification/Operation_Ledger.thy ===== *)
theory Operation_Ledger
  imports Go_Prelude
begin

text \<open>
  The idempotency ledger of Control commands, \<open>control/appserver/operation_store.go\<close> and
  \<open>operation_store_retention.go\<close>: operation records, their validation and retention, and the
  in-memory store with its bounded sweep.

  A time is a number of nanoseconds since the zero value of \<open>time.Time\<close>, so \<open>IsZero\<close> is \<open>= 0\<close>;
  a duration is an integer.  Each operation runs under the store mutex and gets the value of
  its clock.  A cancelled context is an argument, and the sweep gets, for each iteration,
  whether the context was cancelled or the time limit reached.  The list elements of the
  sweep order are identified by their keys, which are distinct.  Nested receipt values
  (resource, configuration, grant, target) are opaque.
\<close>

section \<open>Records\<close>

type_synonym time = int
type_synonym duration = int

datatype Outcome = OutcomeAccepted | OutcomeCommitted | OutcomeConflicted | OutcomeRejected | OutcomeUnknown | OutcomeOther string

fun Outcome_Valid :: "Outcome \<Rightarrow> bool" where
  "Outcome_Valid (OutcomeOther s) = False"
| "Outcome_Valid outcome = True"

record OperationIntent =
  oiPrincipalID :: string
  oiOperationID :: string
  oiAction :: string
  oiSessionID :: string
  oiTarget :: string
  oiDigest :: string
  oiCreatedAt :: time

record CommandResult =
  crInputStatus :: string
  crOperationID :: string
  crOutcome :: Outcome
  crSessionID :: string
  crRevision :: nat
  crTarget :: json
  crParticipantID :: string
  crResource :: "json option"
  crConfiguration :: "json option"
  crSessionResource :: "json option"
  crBackgroundGrant :: "json option"
  crDetail :: string
  crErrorCode :: string
  crErrorKind :: string

record OperationRecord =
  orVersion :: int
  orRetainForever :: bool
  orIntent :: OperationIntent
  orResult :: "CommandResult option"
  orTerminalRetentionNanoseconds :: int
  orRetainUntil :: time
  orUpdatedAt :: time

definition operationRecordSchemaVersion :: int where "operationRecordSchemaVersion = 2"

datatype ledger_error =
    ErrOperationConflict
  | OutcomeRequired
  | UnsupportedVersion
  | InvalidIdentity
  | InvalidTimestamps
  | InvalidRetention
  | InvalidResult
  | InvalidPermanent
  | LegacyRetention
  | NoRetentionSnapshot
  | InconsistentRetention
  | IndeterminateDeadline
  | RetentionUnavailable
  | NegativeRetention
  | ContextError string

definition operationKey :: "string \<Rightarrow> string \<Rightarrow> string" where
  "operationKey principalID operationID = TrimSpace principalID @ [CHR 0x00] @ TrimSpace operationID"

definition intent_key :: "OperationIntent \<Rightarrow> string" where
  "intent_key i = operationKey (oiPrincipalID i) (oiOperationID i)"

definition sameOperationIntent :: "OperationIntent \<Rightarrow> OperationIntent \<Rightarrow> bool" where
  "sameOperationIntent l r \<longleftrightarrow>
     TrimSpace (oiPrincipalID l) = TrimSpace (oiPrincipalID r) \<and> TrimSpace (oiOperationID l) = TrimSpace (oiOperationID r) \<and>
     oiAction l = oiAction r \<and> TrimSpace (oiSessionID l) = TrimSpace (oiSessionID r) \<and>
     TrimSpace (oiTarget l) = TrimSpace (oiTarget r) \<and> oiDigest l = oiDigest r"

text \<open>Field by field, nested values by their content.\<close>

definition sameCommandResult :: "CommandResult \<Rightarrow> CommandResult \<Rightarrow> bool" where
  "sameCommandResult l r \<longleftrightarrow>
     crBackgroundGrant l = crBackgroundGrant r \<and> crSessionResource l = crSessionResource r \<and>
     crConfiguration l = crConfiguration r \<and>
     l\<lparr>crBackgroundGrant := None, crSessionResource := None, crConfiguration := None, crResource := None\<rparr> =
       r\<lparr>crBackgroundGrant := None, crSessionResource := None, crConfiguration := None, crResource := None\<rparr> \<and>
     crResource l = crResource r"

section \<open>Retention\<close>

fun terminalOperationOutcome :: "Outcome \<Rightarrow> bool" where
  "terminalOperationOutcome OutcomeCommitted = True"
| "terminalOperationOutcome OutcomeConflicted = True"
| "terminalOperationOutcome OutcomeRejected = True"
| "terminalOperationOutcome _ = False"

definition operationRecordHasReclaimableTerminalOutcome :: "OperationRecord \<Rightarrow> bool" where
  "operationRecordHasReclaimableTerminalOutcome r \<longleftrightarrow>
     (case orResult r of
        None \<Rightarrow> False
      | Some result \<Rightarrow>
          \<not> orRetainForever r \<and> terminalOperationOutcome (crOutcome result) \<and>
          (orVersion r \<noteq> 0 \<or> crOutcome result \<noteq> OutcomeRejected))"

definition operationRecordRetentionDeadline :: "OperationRecord \<Rightarrow> duration \<Rightarrow> ledger_error + time" where
  "operationRecordRetentionDeadline r fallback =
     (if orRetainUntil r \<noteq> 0 then Inr (orRetainUntil r)
      else
        let retention = (if orTerminalRetentionNanoseconds r \<le> 0 then fallback else orTerminalRetentionNanoseconds r)
        in if retention \<le> 0 then Inl RetentionUnavailable else Inr (orUpdatedAt r + retention))"

definition validateOperationRecord :: "OperationRecord \<Rightarrow> ledger_error option" where
  "validateOperationRecord r =
     (if orVersion r \<noteq> 0 \<and> orVersion r \<noteq> 1 \<and> orVersion r \<noteq> operationRecordSchemaVersion then Some UnsupportedVersion
      else if TrimSpace (oiPrincipalID (orIntent r)) = [] \<or> TrimSpace (oiOperationID (orIntent r)) = [] \<or>
              TrimSpace (oiAction (orIntent r)) = [] \<or> TrimSpace (oiDigest (orIntent r)) = [] then Some InvalidIdentity
      else if oiCreatedAt (orIntent r) = 0 \<or> orUpdatedAt r = 0 \<or> orUpdatedAt r < oiCreatedAt (orIntent r) then Some InvalidTimestamps
      else if orTerminalRetentionNanoseconds r < 0 then Some InvalidRetention
      else if (case orResult r of
                 None \<Rightarrow> False
               | Some result \<Rightarrow>
                   TrimSpace (crOperationID result) \<noteq> TrimSpace (oiOperationID (orIntent r)) \<or> \<not> Outcome_Valid (crOutcome result))
      then Some InvalidResult
      else if orRetainForever r
      then (if orVersion r \<noteq> operationRecordSchemaVersion \<or> orTerminalRetentionNanoseconds r \<noteq> 0 \<or> orRetainUntil r \<noteq> 0
            then Some InvalidPermanent else None)
      else if orVersion r = 0
      then (if orTerminalRetentionNanoseconds r \<noteq> 0 \<or> orRetainUntil r \<noteq> 0 then Some LegacyRetention else None)
      else if orTerminalRetentionNanoseconds r \<le> 0 then Some NoRetentionSnapshot
      else if operationRecordHasReclaimableTerminalOutcome r
      then (if orRetainUntil r = 0 \<or> orRetainUntil r \<noteq> orUpdatedAt r + orTerminalRetentionNanoseconds r
            then Some InconsistentRetention else None)
      else if orRetainUntil r \<noteq> 0 then Some IndeterminateDeadline
      else None)"

datatype operationRecordDisposition = RetainedTerminal | ExpiredTerminal | Indeterminate

definition classifyOperationRecord :: "OperationRecord \<Rightarrow> time \<Rightarrow> duration \<Rightarrow> ledger_error + operationRecordDisposition" where
  "classifyOperationRecord r now fallback =
     (case validateOperationRecord r of
        Some e \<Rightarrow> Inl e
      | None \<Rightarrow>
          if \<not> operationRecordHasReclaimableTerminalOutcome r then Inr Indeterminate
          else case operationRecordRetentionDeadline r fallback of
                 Inl e \<Rightarrow> Inl e
               | Inr deadline \<Rightarrow> Inr (if now < deadline then RetainedTerminal else ExpiredTerminal))"

definition materializeTerminalRetention :: "OperationRecord \<Rightarrow> duration \<Rightarrow> ledger_error + OperationRecord \<times> bool" where
  "materializeTerminalRetention r fallback =
     (if orVersion r \<noteq> 0 \<or> \<not> operationRecordHasReclaimableTerminalOutcome r then Inr (r, False)
      else case operationRecordRetentionDeadline r fallback of
             Inl e \<Rightarrow> Inl e
           | Inr deadline \<Rightarrow>
               Inr (r\<lparr>orTerminalRetentionNanoseconds := (if orTerminalRetentionNanoseconds r \<le> 0 then fallback else orTerminalRetentionNanoseconds r),
                      orVersion := operationRecordSchemaVersion, orRetainUntil := deadline\<rparr>, True))"

definition monotonicOperationTime :: "time \<Rightarrow> time list \<Rightarrow> time" where
  "monotonicOperationTime now prior = fold (\<lambda>candidate t. if t < candidate then candidate else t) prior now"

record OperationRetentionConfig =
  rcTerminalRetention :: duration
  rcSweepInterval :: duration
  rcSweepBatchSize :: int
  rcSweepDeleteLimit :: int
  rcSweepTimeLimit :: duration

definition normalizeOperationRetentionConfig :: "OperationRetentionConfig \<Rightarrow> ledger_error + OperationRetentionConfig" where
  "normalizeOperationRetentionConfig c =
     (if rcTerminalRetention c < 0 \<or> rcSweepInterval c < 0 \<or> rcSweepBatchSize c < 0 \<or> rcSweepDeleteLimit c < 0 \<or> rcSweepTimeLimit c < 0
      then Inl NegativeRetention
      else Inr \<lparr>rcTerminalRetention = (if rcTerminalRetention c = 0 then 30 * 24 * 3600 * 10 ^ 9 else rcTerminalRetention c),
                rcSweepInterval = (if rcSweepInterval c = 0 then 3600 * 10 ^ 9 else rcSweepInterval c),
                rcSweepBatchSize = (if rcSweepBatchSize c = 0 then 256 else rcSweepBatchSize c),
                rcSweepDeleteLimit = (if rcSweepDeleteLimit c = 0 then 128 else rcSweepDeleteLimit c),
                rcSweepTimeLimit = (if rcSweepTimeLimit c = 0 then 100 * 10 ^ 6 else rcSweepTimeLimit c)\<rparr>)"

section \<open>The in-memory store\<close>

record MemoryOperationStore =
  msRecords :: "string \<rightharpoonup> OperationRecord"
  msOrder :: "string list"
  msSweepCursor :: "string option"
  msNextSweep :: time
  msRetention :: OperationRetentionConfig

definition NewMemoryOperationStoreWithConfig :: "OperationRetentionConfig \<Rightarrow> ledger_error + MemoryOperationStore" where
  "NewMemoryOperationStoreWithConfig config =
     (case normalizeOperationRetentionConfig config of
        Inl e \<Rightarrow> Inl e
      | Inr retention \<Rightarrow> Inr \<lparr>msRecords = Map.empty, msOrder = [], msSweepCursor = None, msNextSweep = 0, msRetention = retention\<rparr>)"

text \<open>The element after a key in the order, and the elements from the cursor on.\<close>

fun next_key :: "string \<Rightarrow> string list \<Rightarrow> string option" where
  "next_key k [] = None"
| "next_key k (x # xs) = (if x = k then (case xs of [] \<Rightarrow> None | y # _ \<Rightarrow> Some y) else next_key k xs)"

definition first_key :: "string list \<Rightarrow> string option" where
  "first_key xs = (case xs of [] \<Rightarrow> None | x # _ \<Rightarrow> Some x)"

definition from_cursor :: "string option \<Rightarrow> string list \<Rightarrow> string list" where
  "from_cursor cursor order = (case cursor of None \<Rightarrow> order | Some k \<Rightarrow> dropWhile (\<lambda>x. x \<noteq> k) order)"

definition removeRecordLocked :: "string \<Rightarrow> MemoryOperationStore \<Rightarrow> MemoryOperationStore" where
  "removeRecordLocked key s =
     (let s1 = s\<lparr>msRecords := (msRecords s)(key := None)\<rparr>
      in if key \<in> set (msOrder s)
         then s1\<lparr>msSweepCursor := (if msSweepCursor s = Some key then next_key key (msOrder s) else msSweepCursor s),
                 msOrder := remove1 key (msOrder s)\<rparr>
         else s1)"

record OperationSweepResult =
  swScanned :: int
  swRemovedTerminal :: int
  swRetainedTerminal :: int
  swRetainedIndeterminate :: int
  swCorrupt :: int
  swMore :: bool

definition no_sweep :: OperationSweepResult where
  "no_sweep = \<lparr>swScanned = 0, swRemovedTerminal = 0, swRetainedTerminal = 0, swRetainedIndeterminate = 0, swCorrupt = 0, swMore = False\<rparr>"

text \<open>What stops the sweep before an iteration: \<open>cancelled\<close> and \<open>late\<close> by iteration number.\<close>

record sweep_env =
  seCancelled :: "nat \<Rightarrow> ledger_error option"
  seLate :: "nat \<Rightarrow> bool"

fun sweep_loop ::
    "sweep_env \<Rightarrow> time \<Rightarrow> nat \<Rightarrow> string list \<Rightarrow> OperationSweepResult \<Rightarrow> MemoryOperationStore \<Rightarrow>
     MemoryOperationStore \<times> OperationSweepResult \<times> ledger_error option" where
  "sweep_loop env now n [] result s = (s\<lparr>msSweepCursor := None\<rparr>, result\<lparr>swMore := False\<rparr>, None)"
| "sweep_loop env now n (key # rest) result s =
     (if \<not> (swScanned result < rcSweepBatchSize (msRetention s) \<and> swRemovedTerminal result < rcSweepDeleteLimit (msRetention s))
      then (s\<lparr>msSweepCursor := Some key\<rparr>, result\<lparr>swMore := True\<rparr>, None)
      else case seCancelled env n of
        Some e \<Rightarrow> (s\<lparr>msSweepCursor := Some key\<rparr>, result\<lparr>swMore := True\<rparr>, Some e)
      | None \<Rightarrow>
          if swScanned result > 0 \<and> seLate env n then (s\<lparr>msSweepCursor := Some key\<rparr>, result\<lparr>swMore := True\<rparr>, None)
          else
            let s1 = s\<lparr>msSweepCursor := first_key rest\<rparr> in
            case msRecords s1 key of
              None \<Rightarrow> sweep_loop env now (Suc n) rest result s1
            | Some record \<Rightarrow>
                let result1 = result\<lparr>swScanned := swScanned result + 1\<rparr> in
                case classifyOperationRecord record now (rcTerminalRetention (msRetention s1)) of
                  Inl _ \<Rightarrow> sweep_loop env now (Suc n) rest (result1\<lparr>swCorrupt := swCorrupt result1 + 1\<rparr>) s1
                | Inr ExpiredTerminal \<Rightarrow>
                    sweep_loop env now (Suc n) rest (result1\<lparr>swRemovedTerminal := swRemovedTerminal result1 + 1\<rparr>) (removeRecordLocked key s1)
                | Inr RetainedTerminal \<Rightarrow>
                    sweep_loop env now (Suc n) rest (result1\<lparr>swRetainedTerminal := swRetainedTerminal result1 + 1\<rparr>) s1
                | Inr Indeterminate \<Rightarrow>
                    sweep_loop env now (Suc n) rest (result1\<lparr>swRetainedIndeterminate := swRetainedIndeterminate result1 + 1\<rparr>) s1)"

definition sweepLocked :: "sweep_env \<Rightarrow> time \<Rightarrow> MemoryOperationStore \<Rightarrow> MemoryOperationStore \<times> OperationSweepResult \<times> ledger_error option" where
  "sweepLocked env now s = sweep_loop env now 0 (from_cursor (msSweepCursor s) (msOrder s)) no_sweep s"

definition schedule_sweep :: "time \<Rightarrow> MemoryOperationStore \<times> OperationSweepResult \<times> ledger_error option \<Rightarrow> MemoryOperationStore" where
  "schedule_sweep now outcome =
     (case outcome of (s, result, e) \<Rightarrow>
        s\<lparr>msNextSweep := (if e = None \<and> swMore result then now else now + rcSweepInterval (msRetention s))\<rparr>)"

definition Memory_Sweep ::
    "ledger_error option \<Rightarrow> sweep_env \<Rightarrow> time \<Rightarrow> MemoryOperationStore \<Rightarrow> MemoryOperationStore \<times> (ledger_error + OperationSweepResult)" where
  "Memory_Sweep ctx env now s =
     (case ctx of
        Some e \<Rightarrow> (s, Inl e)
      | None \<Rightarrow>
          (schedule_sweep now (sweepLocked env now s),
           case sweepLocked env now s of (_, result, Some e) \<Rightarrow> Inl e | (_, result, None) \<Rightarrow> Inr result))"

definition maybeSweepLocked :: "sweep_env \<Rightarrow> time \<Rightarrow> MemoryOperationStore \<Rightarrow> MemoryOperationStore" where
  "maybeSweepLocked env now s =
     (if msNextSweep s \<noteq> 0 \<and> now < msNextSweep s then s else schedule_sweep now (sweepLocked env now s))"

definition lookupOperationRecord :: "OperationRecord \<Rightarrow> OperationIntent \<Rightarrow> time \<Rightarrow> duration \<Rightarrow> ledger_error + OperationRecord option" where
  "lookupOperationRecord record intent now retention =
     (case classifyOperationRecord record now retention of
        Inl e \<Rightarrow> Inl e
      | Inr ExpiredTerminal \<Rightarrow> Inr None
      | Inr _ \<Rightarrow> if sameOperationIntent (orIntent record) intent then Inr (Some record) else Inl ErrOperationConflict)"

definition Memory_Lookup :: "ledger_error option \<Rightarrow> time \<Rightarrow> OperationIntent \<Rightarrow> MemoryOperationStore \<Rightarrow> ledger_error + OperationRecord option" where
  "Memory_Lookup ctx now intent s =
     (case ctx of
        Some e \<Rightarrow> Inl e
      | None \<Rightarrow>
          (case msRecords s (intent_key intent) of
             None \<Rightarrow> Inr None
           | Some record \<Rightarrow> lookupOperationRecord record intent now (rcTerminalRetention (msRetention s))))"

definition retainedOperation :: "OperationRecord \<Rightarrow> time \<Rightarrow> duration \<Rightarrow> ledger_error + OperationRecord option" where
  "retainedOperation record now retention =
     (case classifyOperationRecord record now retention of
        Inl e \<Rightarrow> Inl e
      | Inr ExpiredTerminal \<Rightarrow> Inr None
      | Inr _ \<Rightarrow> Inr (Some record))"

definition Memory_Read :: "ledger_error option \<Rightarrow> time \<Rightarrow> string \<Rightarrow> string \<Rightarrow> MemoryOperationStore \<Rightarrow> ledger_error + OperationRecord option" where
  "Memory_Read ctx now principalID k s =
     (case ctx of
        Some e \<Rightarrow> Inl e
      | None \<Rightarrow>
          (case msRecords s (operationKey principalID k) of
             None \<Rightarrow> Inr None
           | Some record \<Rightarrow> retainedOperation record now (rcTerminalRetention (msRetention s))))"

text \<open>The record of a new admission.\<close>

definition fresh_record :: "time \<Rightarrow> duration \<Rightarrow> OperationIntent \<Rightarrow> OperationRecord" where
  "fresh_record now retention intent =
     \<lparr>orVersion = operationRecordSchemaVersion, orRetainForever = False, orIntent = intent\<lparr>oiCreatedAt := now\<rparr>, orResult = None,
      orTerminalRetentionNanoseconds = retention, orRetainUntil = 0, orUpdatedAt = now\<rparr>"

definition insert_record :: "string \<Rightarrow> OperationRecord \<Rightarrow> MemoryOperationStore \<Rightarrow> MemoryOperationStore" where
  "insert_record key record s = s\<lparr>msRecords := (msRecords s)(key \<mapsto> record), msOrder := msOrder s @ [key]\<rparr>"

definition Memory_Begin ::
    "ledger_error option \<Rightarrow> ledger_error option \<Rightarrow> sweep_env \<Rightarrow> time \<Rightarrow> OperationIntent \<Rightarrow> MemoryOperationStore \<Rightarrow>
     MemoryOperationStore \<times> (ledger_error + OperationRecord \<times> bool)" where
  "Memory_Begin ctx ctx' env now intent s =
     (case ctx of
        Some e \<Rightarrow> (s, Inl e)
      | None \<Rightarrow>
          let s1 = maybeSweepLocked env now s in
          case ctx' of
            Some e \<Rightarrow> (s1, Inl e)
          | None \<Rightarrow>
              let key = intent_key intent;
                  record = fresh_record now (rcTerminalRetention (msRetention s1)) intent
              in case msRecords s1 key of
                   None \<Rightarrow> (insert_record key record s1, Inr (record, True))
                 | Some old \<Rightarrow>
                     (case classifyOperationRecord old now (rcTerminalRetention (msRetention s1)) of
                        Inl e \<Rightarrow> (s1, Inl e)
                      | Inr ExpiredTerminal \<Rightarrow> (insert_record key record (removeRecordLocked key s1), Inr (record, True))
                      | Inr _ \<Rightarrow>
                          if sameOperationIntent (orIntent old) intent then (s1, Inr (old, False))
                          else (s1, Inl ErrOperationConflict)))"

text \<open>The record after its result is stored.\<close>

definition completed_record :: "time \<Rightarrow> duration \<Rightarrow> CommandResult \<Rightarrow> OperationRecord \<Rightarrow> OperationRecord" where
  "completed_record now retention result record =
     (let keep = (if \<not> orRetainForever record \<and> orTerminalRetentionNanoseconds record \<le> 0 then retention
                  else orTerminalRetentionNanoseconds record);
          updated = monotonicOperationTime now [orUpdatedAt record, oiCreatedAt (orIntent record)]
      in record\<lparr>orResult := Some result, orVersion := operationRecordSchemaVersion, orTerminalRetentionNanoseconds := keep,
                orUpdatedAt := updated,
                orRetainUntil := (if \<not> orRetainForever record \<and> terminalOperationOutcome (crOutcome result) then updated + keep else 0)\<rparr>)"

definition Memory_Complete ::
    "ledger_error option \<Rightarrow> time \<Rightarrow> OperationIntent \<Rightarrow> CommandResult \<Rightarrow> MemoryOperationStore \<Rightarrow>
     MemoryOperationStore \<times> (ledger_error + OperationRecord)" where
  "Memory_Complete ctx now intent result s =
     (case ctx of
        Some e \<Rightarrow> (s, Inl e)
      | None \<Rightarrow>
          if TrimSpace (crOperationID result) \<noteq> TrimSpace (oiOperationID intent) then (s, Inl ErrOperationConflict)
          else if \<not> Outcome_Valid (crOutcome result) then (s, Inl OutcomeRequired)
          else case msRecords s (intent_key intent) of
                 None \<Rightarrow> (s, Inl ErrOperationConflict)
               | Some record \<Rightarrow>
                   if \<not> sameOperationIntent (orIntent record) intent then (s, Inl ErrOperationConflict)
                   else case orResult record of
                          Some stored \<Rightarrow>
                            if sameCommandResult stored result then (s, Inr record) else (s, Inl ErrOperationConflict)
                        | None \<Rightarrow>
                            let record' = completed_record now (rcTerminalRetention (msRetention s)) result record
                            in (s\<lparr>msRecords := (msRecords s)(intent_key intent \<mapsto> record')\<rparr>, Inr record'))"

end
