(* ===== verification/Operation_Memory.thy ===== *)
theory Operation_Memory
  imports Operation_Ledger
begin

text \<open>
  What the operation ledger promises, stated once: the life of one record is the relation
  \<open>evolves\<close>, a store whose operations move every record by it is an \<open>operation_store\<close>, and the
  guarantees that commands rely on are proved there.  The in-memory store interprets it.
\<close>

section \<open>The life of a record\<close>

definition expired :: "time \<Rightarrow> duration \<Rightarrow> OperationRecord \<Rightarrow> bool" where
  "expired now retention r \<longleftrightarrow> classifyOperationRecord r now retention = Inr ExpiredTerminal"

text \<open>The flag says whether the step admits new work under the key.\<close>

inductive evolves :: "time \<Rightarrow> duration \<Rightarrow> bool \<Rightarrow> OperationRecord option \<Rightarrow> OperationRecord option \<Rightarrow> bool" where
  keep: "evolves now retention False r r"
| admit: "orResult r = None \<Longrightarrow> evolves now retention True None (Some r)"
| readmit: "expired now retention r \<Longrightarrow> orResult r' = None \<Longrightarrow> evolves now retention True (Some r) (Some r')"
| settle: "orResult r = None \<Longrightarrow> orResult r' = Some result \<Longrightarrow> orIntent r' = orIntent r \<Longrightarrow>
    evolves now retention False (Some r) (Some r')"
| reclaim: "expired now retention r \<Longrightarrow> evolves now retention False (Some r) None"

inductive_cases evolves_TrueE: "evolves now retention True r r'"
inductive_cases evolves_SomeE: "evolves now retention b (Some r) r'"

lemma expired_terminal: "expired now retention r \<Longrightarrow> \<exists>result. orResult r = Some result \<and> terminalOperationOutcome (crOutcome result)"
  by (auto simp: expired_def classifyOperationRecord_def operationRecordHasReclaimableTerminalOutcome_def split: option.splits if_splits)

section \<open>The contract of a store\<close>

text \<open>The number of admissions of a key in a run, and that its record never expires there.\<close>

fun admissions :: "('op \<Rightarrow> 's \<Rightarrow> 's) \<Rightarrow> ('op \<Rightarrow> 's \<Rightarrow> string \<Rightarrow> bool) \<Rightarrow> 'op list \<Rightarrow> 's \<Rightarrow> string \<Rightarrow> nat" where
  "admissions step admits [] s k = 0"
| "admissions step admits (op # ops) s k = (if admits op s k then 1 else 0) + admissions step admits ops (step op s) k"

fun never :: "('op \<Rightarrow> 's \<Rightarrow> 's) \<Rightarrow> ('op \<Rightarrow> 's \<Rightarrow> bool) \<Rightarrow> 'op list \<Rightarrow> 's \<Rightarrow> bool" where
  "never step p [] s = True"
| "never step p (op # ops) s \<longleftrightarrow> \<not> p op s \<and> never step p ops (step op s)"

definition lapses ::
    "('s \<Rightarrow> string \<Rightarrow> OperationRecord option) \<Rightarrow> ('s \<Rightarrow> duration) \<Rightarrow> ('op \<Rightarrow> time) \<Rightarrow> string \<Rightarrow> 'op \<Rightarrow> 's \<Rightarrow> bool" where
  "lapses stored retention time_of k op s \<longleftrightarrow>
     (case stored s k of None \<Rightarrow> False | Some r \<Rightarrow> expired (time_of op) (retention s) r)"

locale operation_store =
  fixes inv :: "'s \<Rightarrow> bool"
    and stored :: "'s \<Rightarrow> string \<Rightarrow> OperationRecord option"
    and retention :: "'s \<Rightarrow> duration"
    and step :: "'op \<Rightarrow> 's \<Rightarrow> 's"
    and time_of :: "'op \<Rightarrow> time"
    and admits :: "'op \<Rightarrow> 's \<Rightarrow> string \<Rightarrow> bool"
  assumes inv_step: "inv s \<Longrightarrow> inv (step op s)"
    and retention_step: "inv s \<Longrightarrow> retention (step op s) = retention s"
    and evolution: "inv s \<Longrightarrow> evolves (time_of op) (retention s) (admits op s k) (stored s k) (stored (step op s) k)"
begin

lemma run_inv: "inv s \<Longrightarrow> inv (run_ops step ops s)"
  by (induction ops arbitrary: s) (simp_all add: inv_step)

lemma retention_run: "inv s \<Longrightarrow> retention (run_ops step ops s) = retention s"
  by (induction ops arbitrary: s) (simp_all add: inv_step retention_step)

lemma no_readmission: "inv s \<Longrightarrow> never step (lapses stored retention time_of k) ops s \<Longrightarrow> stored s k = Some r \<Longrightarrow> admissions step admits ops s k = 0"
proof (induction ops arbitrary: s r)
  case (Cons op ops)
  have e: "evolves (time_of op) (retention s) (admits op s k) (Some r) (stored (step op s) k)"
    using evolution [OF Cons.prems(1), of op k] Cons.prems(3) by simp
  then have "\<not> admits op s k \<and> (\<exists>r'. stored (step op s) k = Some r')"
    using Cons.prems(2,3) by (elim evolves_SomeE) (auto simp: lapses_def)
  then show ?case using Cons inv_step by auto
qed simp

lemma at_most_one_admission: "inv s \<Longrightarrow> never step (lapses stored retention time_of k) ops s \<Longrightarrow> admissions step admits ops s k \<le> 1"
proof (induction ops arbitrary: s)
  case (Cons op ops)
  show ?case
  proof (cases "admits op s k")
    case True
    then have "evolves (time_of op) (retention s) True (stored s k) (stored (step op s) k)"
      using evolution [OF Cons.prems(1), of op k] by simp
    then obtain r where "stored (step op s) k = Some r" by (elim evolves_TrueE) auto
    then show ?thesis using Cons.prems no_readmission inv_step by auto
  qed (use Cons inv_step in \<open>auto simp: lapses_def\<close>)
qed simp

lemma receipt_kept:
  "inv s \<Longrightarrow> never step (lapses stored retention time_of k) ops s \<Longrightarrow> stored s k = Some r \<Longrightarrow> orResult r = Some result \<Longrightarrow> stored (run_ops step ops s) k = Some r"
proof (induction ops arbitrary: s)
  case (Cons op ops)
  have "evolves (time_of op) (retention s) (admits op s k) (Some r) (stored (step op s) k)"
    using evolution [OF Cons.prems(1), of op k] Cons.prems(3) by simp
  then have "stored (step op s) k = Some r" using Cons.prems by (elim evolves_SomeE) (auto simp: lapses_def)
  then show ?case using Cons inv_step by auto
qed simp

lemma intent_kept:
  "inv s \<Longrightarrow> never step (lapses stored retention time_of k) ops s \<Longrightarrow> stored s k = Some r \<Longrightarrow> \<exists>r'. stored (run_ops step ops s) k = Some r' \<and> orIntent r' = orIntent r"
proof (induction ops arbitrary: s r)
  case (Cons op ops)
  have "evolves (time_of op) (retention s) (admits op s k) (Some r) (stored (step op s) k)"
    using evolution [OF Cons.prems(1), of op k] Cons.prems(3) by simp
  then obtain r1 where "stored (step op s) k = Some r1" "orIntent r1 = orIntent r"
    using Cons.prems by (elim evolves_SomeE) (auto simp: lapses_def)
  then show ?case using Cons inv_step by fastforce
qed simp

end

section \<open>The in-memory store\<close>

definition memory_store_ok :: "MemoryOperationStore \<Rightarrow> bool" where
  "memory_store_ok s \<longleftrightarrow> distinct (msOrder s) \<and> set (msOrder s) = dom (msRecords s) \<and> 0 < rcTerminalRetention (msRetention s)"

lemma remove_ok:
  "memory_store_ok s \<Longrightarrow> memory_store_ok (removeRecordLocked key s)"
  by (auto simp: memory_store_ok_def removeRecordLocked_def Let_def split: if_splits)

lemma remove_fields [simp]:
  "msRecords (removeRecordLocked key s) = (msRecords s)(key := None)"
  "msRetention (removeRecordLocked key s) = msRetention s"
  by (simp_all add: removeRecordLocked_def Let_def)

text \<open>A sweep only reclaims.\<close>

definition reclaimed :: "time \<Rightarrow> MemoryOperationStore \<Rightarrow> MemoryOperationStore \<Rightarrow> bool" where
  "reclaimed now s s' \<longleftrightarrow>
     msRetention s' = msRetention s \<and>
     (\<forall>k. msRecords s' k = msRecords s k \<or>
        msRecords s' k = None \<and> (\<exists>r. msRecords s k = Some r \<and> expired now (rcTerminalRetention (msRetention s)) r))"

lemma reclaimed_refl: "reclaimed now s s"
  by (simp add: reclaimed_def)

lemma reclaimed_trans: "reclaimed now s s1 \<Longrightarrow> reclaimed now s1 s2 \<Longrightarrow> reclaimed now s s2"
  unfolding reclaimed_def by metis

lemma cursor_irrelevant [simp]:
  "memory_store_ok (s\<lparr>msSweepCursor := c\<rparr>) = memory_store_ok s" "reclaimed now s (s\<lparr>msSweepCursor := c\<rparr>)"
  "memory_store_ok (s\<lparr>msNextSweep := t\<rparr>) = memory_store_ok s" "reclaimed now s (s\<lparr>msNextSweep := t\<rparr>)"
  by (simp_all add: memory_store_ok_def reclaimed_def)

lemma sweep_loop_effect:
  "memory_store_ok s \<Longrightarrow> sweep_loop env now n keys result s = (s', out) \<Longrightarrow> memory_store_ok s' \<and> reclaimed now s s'"
proof (induction keys arbitrary: n result s)
  case (Cons key rest)
  let ?s1 = "s\<lparr>msSweepCursor := first_key rest\<rparr>"
  have next_ok: "memory_store_ok s' \<and> reclaimed now s s'" if "sweep_loop env now (Suc n) rest res ?s1 = (s', out)" for res
    using Cons.IH [OF _ that] Cons.prems(1) reclaimed_trans [OF cursor_irrelevant(2) [of now s "first_key rest"], of s'] by simp
  have removed: "memory_store_ok s' \<and> reclaimed now s s'"
    if "sweep_loop env now (Suc n) rest res (removeRecordLocked key ?s1) = (s', out)" "msRecords s key = Some r"
      "classifyOperationRecord r now (rcTerminalRetention (msRetention s)) = Inr ExpiredTerminal" for res r
  proof -
    have "reclaimed now s (removeRecordLocked key ?s1)" using that by (auto simp: reclaimed_def expired_def)
    moreover have "memory_store_ok (removeRecordLocked key ?s1)" using Cons.prems(1) by (simp add: remove_ok)
    ultimately show ?thesis using Cons.IH [OF _ that(1)] reclaimed_trans by blast
  qed
  show ?case
    using Cons.prems next_ok removed
    by (auto simp: Let_def split: if_splits option.splits sum.splits operationRecordDisposition.splits)
qed auto

lemma maybe_sweep_effect: "memory_store_ok s \<Longrightarrow> memory_store_ok (maybeSweepLocked env now s) \<and> reclaimed now s (maybeSweepLocked env now s)"
  using sweep_loop_effect [of s env now 0 "from_cursor (msSweepCursor s) (msOrder s)" no_sweep] reclaimed_refl
  by (cases "sweepLocked env now s")
    (auto simp: maybeSweepLocked_def schedule_sweep_def sweepLocked_def intro: reclaimed_trans)

datatype memory_op =
    OpBegin "ledger_error option" "ledger_error option" sweep_env time OperationIntent
  | OpComplete "ledger_error option" time OperationIntent CommandResult
  | OpSweep "ledger_error option" sweep_env time

fun memory_step :: "memory_op \<Rightarrow> MemoryOperationStore \<Rightarrow> MemoryOperationStore" where
  "memory_step (OpBegin ctx ctx' env now intent) s = fst (Memory_Begin ctx ctx' env now intent s)"
| "memory_step (OpComplete ctx now intent result) s = fst (Memory_Complete ctx now intent result s)"
| "memory_step (OpSweep ctx env now) s = fst (Memory_Sweep ctx env now s)"

fun memory_time :: "memory_op \<Rightarrow> time" where
  "memory_time (OpBegin ctx ctx' env now intent) = now"
| "memory_time (OpComplete ctx now intent result) = now"
| "memory_time (OpSweep ctx env now) = now"

fun memory_admits :: "memory_op \<Rightarrow> MemoryOperationStore \<Rightarrow> string \<Rightarrow> bool" where
  "memory_admits (OpBegin ctx ctx' env now intent) s k \<longleftrightarrow>
     k = intent_key intent \<and> (case snd (Memory_Begin ctx ctx' env now intent s) of Inr (r, created) \<Rightarrow> created | Inl _ \<Rightarrow> False)"
| "memory_admits op s k \<longleftrightarrow> False"

abbreviation memory_retention :: "MemoryOperationStore \<Rightarrow> duration" where
  "memory_retention s \<equiv> rcTerminalRetention (msRetention s)"

lemma insert_ok: "memory_store_ok s \<Longrightarrow> msRecords s key = None \<Longrightarrow> memory_store_ok (insert_record key r s)"
  by (auto simp: memory_store_ok_def insert_record_def)

lemma insert_fields [simp]:
  "msRecords (insert_record key r s) = (msRecords s)(key \<mapsto> r)" "msRetention (insert_record key r s) = msRetention s"
  by (simp_all add: insert_record_def)

lemma reclaimed_evolves: "reclaimed now s s' \<Longrightarrow> evolves now (memory_retention s) False (msRecords s k) (msRecords s' k)"
  unfolding reclaimed_def by (metis evolves.keep evolves.reclaim)

lemma fresh_result [simp]: "orResult (fresh_record now retention intent) = None"
  by (simp add: fresh_record_def)

text \<open>The cases of an admission, after the opportunistic sweep.\<close>

lemma begin_cases:
  obtains (kept) s1 r where "Memory_Begin ctx ctx' env now intent s = (s1, r)" "s1 = s \<or> s1 = maybeSweepLocked env now s"
      "case r of Inr (_, created) \<Rightarrow> \<not> created | Inl _ \<Rightarrow> True"
  | (fresh) r where "msRecords (maybeSweepLocked env now s) (intent_key intent) = None" "orResult r = None"
      "Memory_Begin ctx ctx' env now intent s = (insert_record (intent_key intent) r (maybeSweepLocked env now s), Inr (r, True))"
  | (again) r old where "msRecords (maybeSweepLocked env now s) (intent_key intent) = Some old" "orResult r = None"
      "expired now (memory_retention (maybeSweepLocked env now s)) old"
      "Memory_Begin ctx ctx' env now intent s =
         (insert_record (intent_key intent) r (removeRecordLocked (intent_key intent) (maybeSweepLocked env now s)), Inr (r, True))"
proof (cases "ctx = None \<and> ctx' = None")
  case False
  then show ?thesis
    by (intro kept [of "fst (Memory_Begin ctx ctx' env now intent s)" "snd (Memory_Begin ctx ctx' env now intent s)"])
      (auto simp: Memory_Begin_def Let_def split: option.split)
next
  case True
  let ?s1 = "maybeSweepLocked env now s"
  let ?r = "fresh_record now (memory_retention ?s1) intent"
  show ?thesis
  proof (cases "msRecords ?s1 (intent_key intent)")
    case None
    then show ?thesis using True by (intro fresh [of ?r]) (simp_all add: Memory_Begin_def Let_def)
  next
    case (Some old)
    show ?thesis
    proof (cases "expired now (memory_retention ?s1) old")
      case expired: True
      then show ?thesis using True Some by (intro again [of old ?r]) (simp_all add: Memory_Begin_def Let_def expired_def)
    next
      case False
      then show ?thesis using True Some
        by (intro kept [of "fst (Memory_Begin ctx ctx' env now intent s)" "snd (Memory_Begin ctx ctx' env now intent s)"])
          (auto simp: Memory_Begin_def Let_def expired_def split: sum.split operationRecordDisposition.split)
    qed
  qed
qed

lemma begin_effect:
  assumes "memory_store_ok s"
  shows "memory_store_ok (memory_step (OpBegin ctx ctx' env now intent) s)"
    "msRetention (memory_step (OpBegin ctx ctx' env now intent) s) = msRetention s"
    "evolves now (memory_retention s) (memory_admits (OpBegin ctx ctx' env now intent) s k)
       (msRecords s k) (msRecords (memory_step (OpBegin ctx ctx' env now intent) s) k)"
proof -
  let ?s1 = "maybeSweepLocked env now s" and ?key = "intent_key intent"
  have s1: "memory_store_ok ?s1" "reclaimed now s ?s1" using maybe_sweep_effect [OF assms] by auto
  then have ret: "msRetention ?s1 = msRetention s" by (simp add: reclaimed_def)
  have "memory_store_ok (memory_step (OpBegin ctx ctx' env now intent) s) \<and> msRetention (memory_step (OpBegin ctx ctx' env now intent) s) = msRetention s \<and>
    evolves now (memory_retention s) (memory_admits (OpBegin ctx ctx' env now intent) s k)
       (msRecords s k) (msRecords (memory_step (OpBegin ctx ctx' env now intent) s) k)"
  proof (cases rule: begin_cases [of ctx ctx' env now intent s])
    case (kept s2 r)
    then have "reclaimed now s s2" "memory_store_ok s2" using s1 assms reclaimed_refl by auto
    moreover have no: "memory_admits (OpBegin ctx ctx' env now intent) s k = False" using kept by (auto split: sum.splits prod.splits)
    ultimately show ?thesis using kept(1) reclaimed_evolves [of now s s2 k] unfolding no by (simp add: reclaimed_def)
  next
    case (fresh r)
    have "evolves now (memory_retention s) True (msRecords s ?key) (Some r)"
      using fresh(1,2) s1(2) unfolding reclaimed_def by (metis evolves.admit evolves.readmit)
    then show ?thesis
      using fresh s1 insert_ok [OF s1(1) fresh(1)] reclaimed_evolves [OF s1(2), of k] by (simp add: ret)
  next
    case (again r old)
    have "msRecords s ?key = Some old" using again(1) s1(2) unfolding reclaimed_def by (metis option.distinct(1))
    then have "evolves now (memory_retention s) True (msRecords s ?key) (Some r)" using again(2,3) by (simp add: ret evolves.readmit)
    then show ?thesis
      using again s1 insert_ok [OF remove_ok [OF s1(1)], of ?key ?key r] reclaimed_evolves [OF s1(2), of k] by (simp add: ret)
  qed
  then show "memory_store_ok (memory_step (OpBegin ctx ctx' env now intent) s)"
    "msRetention (memory_step (OpBegin ctx ctx' env now intent) s) = msRetention s"
    "evolves now (memory_retention s) (memory_admits (OpBegin ctx ctx' env now intent) s k)
       (msRecords s k) (msRecords (memory_step (OpBegin ctx ctx' env now intent) s) k)" by blast+
qed

lemma complete_effect:
  assumes "memory_store_ok s"
  shows "memory_store_ok (fst (Memory_Complete ctx now intent result s))"
    "msRetention (fst (Memory_Complete ctx now intent result s)) = msRetention s"
    "evolves now (memory_retention s) False (msRecords s k) (msRecords (fst (Memory_Complete ctx now intent result s)) k)"
proof -
  let ?s = "fst (Memory_Complete ctx now intent result s)"
  have "?s = s \<or> (\<exists>r. msRecords s (intent_key intent) = Some r \<and> orResult r = None \<and>
      ?s = s\<lparr>msRecords := (msRecords s)(intent_key intent \<mapsto> completed_record now (memory_retention s) result r)\<rparr>)"
    by (auto simp: Memory_Complete_def Let_def split: option.split)
  then consider "?s = s" | r where "msRecords s (intent_key intent) = Some r" "orResult r = None"
      "?s = s\<lparr>msRecords := (msRecords s)(intent_key intent \<mapsto> completed_record now (memory_retention s) result r)\<rparr>"
    by blast
  then have "memory_store_ok ?s \<and> msRetention ?s = msRetention s \<and> evolves now (memory_retention s) False (msRecords s k) (msRecords ?s k)"
  proof cases
    case 1
    then show ?thesis using assms by (simp add: evolves.keep)
  next
    case (2 r)
    have "evolves now (memory_retention s) False (Some r) (Some (completed_record now (memory_retention s) result r))"
      using 2(2) by (intro evolves.settle [of _ _ result]) (simp_all add: completed_record_def Let_def)
    then show ?thesis using assms 2 by (auto simp: memory_store_ok_def evolves.keep)
  qed
  then show "memory_store_ok ?s" "msRetention ?s = msRetention s" "evolves now (memory_retention s) False (msRecords s k) (msRecords ?s k)" by blast+
qed

lemma sweep_effect:
  assumes "memory_store_ok s"
  shows "memory_store_ok (fst (Memory_Sweep ctx env now s)) \<and> reclaimed now s (fst (Memory_Sweep ctx env now s))"
  using sweep_loop_effect [of s env now 0 "from_cursor (msSweepCursor s) (msOrder s)" no_sweep] reclaimed_refl assms
  by (cases "sweepLocked env now s")
    (auto simp: Memory_Sweep_def schedule_sweep_def sweepLocked_def split: option.split intro: reclaimed_trans)

interpretation memory_store: operation_store memory_store_ok msRecords memory_retention memory_step memory_time memory_admits
proof
  fix s op k
  assume ok: "memory_store_ok s"
  show "memory_store_ok (memory_step op s)"
    using ok begin_effect(1) complete_effect(1) sweep_effect by (cases op) auto
  show "memory_retention (memory_step op s) = memory_retention s"
    using ok begin_effect(2) complete_effect(2) sweep_effect by (cases op) (auto simp: reclaimed_def)
  show "evolves (memory_time op) (memory_retention s) (memory_admits op s k) (msRecords s k) (msRecords (memory_step op s) k)"
    using ok begin_effect(3) complete_effect(3) sweep_effect reclaimed_evolves by (cases op) auto
qed

section \<open>Properties\<close>

abbreviation memory_lapses :: "string \<Rightarrow> memory_op \<Rightarrow> MemoryOperationStore \<Rightarrow> bool" where
  "memory_lapses \<equiv> lapses msRecords memory_retention memory_time"

lemma new_store_ok: "NewMemoryOperationStoreWithConfig config = Inr s \<Longrightarrow> memory_store_ok s"
  by (auto simp: NewMemoryOperationStoreWithConfig_def normalizeOperationRetentionConfig_def memory_store_ok_def split: sum.splits if_splits)

text \<open>C10 (refinement). Every operation of the in-memory ledger, on every branch, moves the record of every key by the
  abstract record machine: it is kept, admitted when absent or expired, settled once, or
  reclaimed after its deadline.\<close>

theorem memory_store_refines_machine:
  assumes "NewMemoryOperationStoreWithConfig config = Inr s0" and "s = run_ops memory_step ops s0"
  shows "evolves (memory_time op) (memory_retention s0) (memory_admits op s k) (msRecords s k) (msRecords (memory_step op s) k)"
  using memory_store.evolution [OF memory_store.run_inv [OF new_store_ok [OF assms(1)]]]
    memory_store.retention_run [OF new_store_ok [OF assms(1)]] assms(2) by metis

text \<open>C13 (safety). Work is admitted at most once under an operation identity as long as its receipt has not
  passed its retention deadline, whatever other commands, completions and sweeps run.\<close>

theorem operation_admitted_once:
  assumes "NewMemoryOperationStoreWithConfig config = Inr s0" and "never memory_step (memory_lapses k) ops s0"
  shows "admissions memory_step memory_admits ops s0 k \<le> 1"
  using memory_store.at_most_one_admission [OF new_store_ok [OF assms(1)] assms(2)] .

text \<open>A record with a deadline expires exactly there.\<close>

lemma expired_deadline: "expired now retention r \<Longrightarrow> orRetainUntil r \<noteq> 0 \<Longrightarrow> orRetainUntil r \<le> now"
  by (auto simp: expired_def classifyOperationRecord_def operationRecordRetentionDeadline_def split: option.splits if_splits)

lemma never_before_deadline:
  assumes "memory_store_ok s" "msRecords s k = Some r" "orResult r = Some result" "orRetainUntil r \<noteq> 0" "list_all (\<lambda>op. memory_time op < orRetainUntil r) ops"
  shows "never memory_step (memory_lapses k) ops s"
  using assms
proof (induction ops arbitrary: s)
  case (Cons op ops)
  have n: "\<not> memory_lapses k op s" using Cons.prems expired_deadline by (fastforce simp: lapses_def)
  then have "msRecords (memory_step op s) k = Some r"
    using memory_store.receipt_kept [where ops = "[op]" and s = s and k = k and r = r and result = result] Cons.prems by simp
  then show ?case using n Cons memory_store.inv_step by simp
qed simp

text \<open>C29 (safety). The replay guarantee: after a command completed with a proven terminal outcome, looking its
  intent up returns exactly that receipt at every time before its retention deadline,
  whatever has run in between.\<close>

theorem receipt_replayed_until_deadline:
  assumes "memory_store_ok s" and "Memory_Complete None now intent result s = (s1, Inr r)" and "validateOperationRecord r = None"
    and "orRetainUntil r \<noteq> 0" and "list_all (\<lambda>op. memory_time op < orRetainUntil r) ops" and "later < orRetainUntil r"
  shows "Memory_Lookup None later intent (run_ops memory_step ops s1) = Inr (Some r) \<and>
         (\<exists>stored. orResult r = Some stored \<and> sameCommandResult stored result)"
proof -
  have r: "msRecords s1 (intent_key intent) = Some r" "sameOperationIntent (orIntent r) intent"
      "\<exists>stored. orResult r = Some stored \<and> sameCommandResult stored result"
    using assms(2) by (auto simp: Memory_Complete_def Let_def completed_record_def sameCommandResult_def split: if_splits option.splits)
  then obtain stored where st: "orResult r = Some stored" by blast
  have ok: "memory_store_ok s1" using complete_effect(1) [OF assms(1), of None now intent result] assms(2) by simp
  have "msRecords (run_ops memory_step ops s1) (intent_key intent) = Some r"
    using memory_store.receipt_kept [OF ok never_before_deadline [OF ok r(1) st assms(4,5)] r(1) st] .
  moreover have "\<not> expired later (memory_retention (run_ops memory_step ops s1)) r"
    using expired_deadline assms(4,6) by fastforce
  ultimately show ?thesis
    using r(2,3) assms(3,4)
    by (auto simp: Memory_Lookup_def lookupOperationRecord_def expired_def classifyOperationRecord_def operationRecordRetentionDeadline_def
        split: sum.splits if_splits)
qed

text \<open>A record without a proven terminal outcome (intent only, accepted or unknown) is never reclaimed
  and never readmitted, at any time and by any operation.\<close>

theorem indeterminate_never_reclaimed:
  assumes "memory_store_ok s" and "msRecords s k = Some r"
    and "case orResult r of None \<Rightarrow> True | Some result \<Rightarrow> \<not> terminalOperationOutcome (crOutcome result)"
  shows "\<exists>r'. msRecords (memory_step op s) k = Some r' \<and> orIntent r' = orIntent r \<and> \<not> memory_admits op s k \<and>
           (orResult r' = orResult r \<or> orResult r = None)"
proof -
  have "\<not> expired (memory_time op) (memory_retention s) r" using expired_terminal [of _ _ r] assms(3) by fastforce
  then show ?thesis
    using memory_store.evolution [OF assms(1), of op k] unfolding assms(2) by (elim evolves_SomeE) auto
qed

section \<open>Concrete instances\<close>

definition sample_config :: OperationRetentionConfig where
  "sample_config = \<lparr>rcTerminalRetention = 100, rcSweepInterval = 10, rcSweepBatchSize = 4, rcSweepDeleteLimit = 2, rcSweepTimeLimit = 5\<rparr>"

definition sample_memory :: MemoryOperationStore where
  "sample_memory = \<lparr>msRecords = Map.empty, msOrder = [], msSweepCursor = None, msNextSweep = 0, msRetention = sample_config\<rparr>"

definition sample_env :: sweep_env where "sample_env = \<lparr>seCancelled = (\<lambda>_. None), seLate = (\<lambda>_. False)\<rparr>"

definition sample_intent :: OperationIntent where
  "sample_intent = \<lparr>oiPrincipalID = ''p'', oiOperationID = ''op'', oiAction = ''prompt'', oiSessionID = ''s'', oiTarget = ''s'', oiDigest = ''d'', oiCreatedAt = 0\<rparr>"

definition sample_result :: CommandResult where
  "sample_result = \<lparr>crInputStatus = [], crOperationID = ''op'', crOutcome = OutcomeCommitted, crSessionID = ''s'', crRevision = 1, crTarget = JNull,
     crParticipantID = [], crResource = None, crConfiguration = None, crSessionResource = None, crBackgroundGrant = None, crDetail = [],
     crErrorCode = [], crErrorKind = []\<rparr>"

definition sample_begun :: MemoryOperationStore where
  "sample_begun = run_ops memory_step [OpBegin None None sample_env 7 sample_intent] sample_memory"

lemma sample_new: "NewMemoryOperationStoreWithConfig sample_config = Inr sample_memory"
  by (simp add: NewMemoryOperationStoreWithConfig_def normalizeOperationRetentionConfig_def sample_config_def sample_memory_def)

lemma sample_begun_ok: "memory_store_ok sample_begun"
  unfolding sample_begun_def by (rule memory_store.run_inv [OF new_store_ok [OF sample_new]])

lemmas sample_ledger_defs = sample_config_def sample_memory_def sample_env_def sample_intent_def sample_result_def sample_begun_def
  Memory_Begin_def maybeSweepLocked_def schedule_sweep_def sweepLocked_def from_cursor_def no_sweep_def insert_record_def fresh_record_def
  intent_key_def operationKey_def Let_def go_simps

lemma memory_store_refines_machine_witness:
  "evolves 7 100 (memory_admits (OpBegin None None sample_env 7 sample_intent) sample_memory (intent_key sample_intent))
     (msRecords sample_memory (intent_key sample_intent)) (msRecords (memory_step (OpBegin None None sample_env 7 sample_intent) sample_memory) (intent_key sample_intent))"
  using memory_store_refines_machine [OF sample_new, of sample_memory "[]" "OpBegin None None sample_env 7 sample_intent" "intent_key sample_intent"]
  by (simp add: sample_memory_def sample_config_def)

lemma operation_admitted_once_witness:
  "admissions memory_step memory_admits [OpBegin None None sample_env 7 sample_intent] sample_memory (intent_key sample_intent) \<le> 1"
proof -
  have "never memory_step (memory_lapses (intent_key sample_intent)) [OpBegin None None sample_env 7 sample_intent] sample_memory"
    by (simp add: lapses_def sample_memory_def)
  then show ?thesis by (rule operation_admitted_once [OF sample_new])
qed

lemma receipt_replayed_until_deadline_witness:
  "\<exists>s1 r. Memory_Complete None 9 sample_intent sample_result sample_begun = (s1, Inr r) \<and>
     Memory_Lookup None 50 sample_intent (run_ops memory_step [OpSweep None sample_env 20] s1) = Inr (Some r)"
proof -
  let ?old = "fresh_record 7 100 sample_intent"
  let ?r = "completed_record 9 100 sample_result ?old"
  have old: "msRecords sample_begun (intent_key sample_intent) = Some ?old" "memory_retention sample_begun = 100"
    by (simp_all add: sample_ledger_defs)
  have c: "\<exists>s1. Memory_Complete None 9 sample_intent sample_result sample_begun = (s1, Inr ?r)"
    using old by (simp add: Memory_Complete_def Let_def sameOperationIntent_def fresh_record_def sample_intent_def sample_result_def)
  have r: "orRetainUntil ?r = 109" "validateOperationRecord ?r = None"
    by (simp_all add: completed_record_def Let_def monotonicOperationTime_def fresh_record_def sample_intent_def sample_result_def
        validateOperationRecord_def operationRecordSchemaVersion_def operationRecordHasReclaimableTerminalOutcome_def go_simps)
  from c obtain s1 where c1: "Memory_Complete None 9 sample_intent sample_result sample_begun = (s1, Inr ?r)" by blast
  show ?thesis
    using receipt_replayed_until_deadline [OF sample_begun_ok c1 r(2), of "[OpSweep None sample_env 20]" 50] r(1) c1 by auto
qed

lemma indeterminate_never_reclaimed_witness:
  "\<exists>r. msRecords (memory_step (OpSweep None sample_env 1000000) sample_begun) (intent_key sample_intent) = Some r"
proof -
  obtain r where "msRecords sample_begun (intent_key sample_intent) = Some r" "orResult r = None"
    by (simp add: sample_ledger_defs)
  then show ?thesis
    using indeterminate_never_reclaimed [OF sample_begun_ok, of "intent_key sample_intent" r "OpSweep None sample_env 1000000"] by auto
qed

end
