(* ===== verification/Command_Service.thy ===== *)
theory Command_Service
  imports Operation_Memory
begin

text \<open>
  The execution of a Control command, \<open>control/appserver/command_service.go\<close> with
  \<open>command_intent.go\<close>: validation, authorization, admission through the operation ledger, replay
  of a stored receipt, recovery of an abandoned intent, dispatch to the backend and completion.

  \<open>execute\<close> takes the two ledger operations it calls as arguments, as the code takes an
  \<open>OperationStore\<close>; here they are the in-memory store's.  What the authorizer, the request
  validation, the digest, the recovery backend and the backend answer for the call is part of
  the call.  An error is its code, its kind, its text and the outcome an \<open>OutcomeError\<close> in its
  chain carries.  Logging is not modelled.
\<close>

section \<open>Errors and failures\<close>

record command_error =
  ceCode :: string
  ceKind :: string
  ceText :: string
  ceOutcome :: "Outcome option"

definition publicCommandDetail :: "command_error \<Rightarrow> Outcome \<Rightarrow> string" where
  "publicCommandDetail e outcome =
     (if ceCode e \<in> {''invalid_argument'', ''unsupported''} then TrimSpace (ceText e)
      else if ceCode e = ''unauthenticated'' then ''authentication required''
      else if ceCode e = ''permission_denied'' then ''permission denied''
      else if ceCode e \<in> {''already_exists'', ''conflict'', ''failed_precondition''} then ''conflict''
      else if ceCode e = ''unknown_outcome'' then ''effect outcome cannot be proven''
      else case outcome of
             OutcomeUnknown \<Rightarrow> ''effect outcome cannot be proven''
           | OutcomeConflicted \<Rightarrow> ''conflict''
           | OutcomeRejected \<Rightarrow> ''command rejected''
           | _ \<Rightarrow> [])"

definition blank_result :: CommandResult where
  "blank_result = \<lparr>crInputStatus = [], crOperationID = [], crOutcome = OutcomeOther [], crSessionID = [], crRevision = 0, crTarget = JNull,
     crParticipantID = [], crResource = None, crConfiguration = None, crSessionResource = None, crBackgroundGrant = None, crDetail = [],
     crErrorCode = [], crErrorKind = []\<rparr>"

definition commandFailure :: "string \<Rightarrow> string \<Rightarrow> Outcome \<Rightarrow> string \<Rightarrow> command_error \<Rightarrow> CommandResult" where
  "commandFailure operationID sessionID outcome detail e =
     blank_result\<lparr>crOperationID := operationID, crSessionID := sessionID, crOutcome := outcome, crDetail := TrimSpace detail,
       crErrorCode := (if ceCode e = ''unknown'' \<and> outcome = OutcomeUnknown then ''unknown_outcome'' else ceCode e),
       crErrorKind := ceKind e\<rparr>"

definition resultForBackendError :: "CommandResult \<Rightarrow> command_error \<Rightarrow> CommandResult" where
  "resultForBackendError result e =
     (let outcome = (case ceOutcome e of Some o' \<Rightarrow> if Outcome_Valid o' then o' else OutcomeUnknown | None \<Rightarrow> OutcomeUnknown)
      in result\<lparr>crOutcome := outcome, crDetail := publicCommandDetail e outcome,
           crErrorCode := (if ceCode e = ''unknown'' \<and> outcome = OutcomeUnknown then ''unknown_outcome'' else ceCode e),
           crErrorKind := ceKind e\<rparr>)"

definition wrap_error :: "string \<Rightarrow> string \<Rightarrow> command_error \<Rightarrow> command_error" where
  "wrap_error code message e = e\<lparr>ceCode := code, ceText := message\<rparr>"

definition new_error :: "string \<Rightarrow> string \<Rightarrow> command_error" where
  "new_error code message = \<lparr>ceCode = code, ceKind = [], ceText = message, ceOutcome = None\<rparr>"

definition internalCommandError :: "string \<Rightarrow> command_error \<Rightarrow> command_error" where
  "internalCommandError message e = (if ceCode e \<noteq> ''unknown'' then e else wrap_error ''internal'' message e)"

text \<open>The errors of the ledger as the service sees them.\<close>

definition store_error :: "ledger_error \<Rightarrow> command_error" where
  "store_error e =
     (case e of
        ErrOperationConflict \<Rightarrow> \<lparr>ceCode = ''conflict'', ceKind = ''operation_conflict'', ceText = ''controlclient: operation id is bound to another request'', ceOutcome = None\<rparr>
      | ContextError code \<Rightarrow> new_error code []
      | _ \<Rightarrow> new_error ''unknown'' [])"

section \<open>A command and its execution\<close>

record command_call =
  clPrincipalID :: string
  clAction :: string
  clOperationID :: string
  clSessionID :: string
  clTarget :: string
  clDigest :: "command_error + string"
  clInvalid :: "command_error option"
  clUnauthorized :: "command_error option"
  clRecoverable :: bool
  clLease :: "command_error option"
  clRecovered :: "command_error + CommandResult \<times> bool"
  clTransaction :: "command_error option"
  clBackend :: "CommandResult \<times> command_error option"

definition commandOperationIntent :: "command_call \<Rightarrow> command_error + OperationIntent" where
  "commandOperationIntent c =
     (case clDigest c of
        Inl e \<Rightarrow> Inl e
      | Inr digest \<Rightarrow>
          Inr \<lparr>oiPrincipalID = TrimSpace (clPrincipalID c), oiOperationID = TrimSpace (clOperationID c), oiAction = clAction c,
               oiSessionID = TrimSpace (clSessionID c), oiTarget = TrimSpace (clTarget c), oiDigest = digest, oiCreatedAt = 0\<rparr>)"

definition transaction_actions :: "string list" where
  "transaction_actions = [''session.configure'', ''session.resource.create'', ''session.background-grant.create'', ''session.background-grant.revoke'']"

text \<open>The result with the identities the service fills in.\<close>

definition stamp_result :: "string \<Rightarrow> string \<Rightarrow> CommandResult \<Rightarrow> CommandResult" where
  "stamp_result operationID sessionID result =
     result\<lparr>crOperationID := operationID, crSessionID := (if crSessionID result = [] then sessionID else crSessionID result)\<rparr>"

definition valid_outcome :: "CommandResult \<Rightarrow> CommandResult" where
  "valid_outcome result = (if Outcome_Valid (crOutcome result) then result else result\<lparr>crOutcome := OutcomeCommitted\<rparr>)"

record 's command_outcome =
  coStore :: 's
  coResult :: CommandResult
  coError :: "command_error option"
  coDispatched :: bool

definition rejected :: "'s \<Rightarrow> string \<Rightarrow> string \<Rightarrow> Outcome \<Rightarrow> command_error \<Rightarrow> 's command_outcome" where
  "rejected s operationID sessionID outcome e =
     \<lparr>coStore = s, coResult = commandFailure operationID sessionID outcome (publicCommandDetail e outcome) e, coError = Some e, coDispatched = False\<rparr>"

text \<open>An intent that exists already: its receipt, what recovery proves, or an unknown outcome.\<close>

definition replay ::
    "(OperationIntent \<Rightarrow> CommandResult \<Rightarrow> 's \<Rightarrow> 's \<times> (ledger_error + OperationRecord)) \<Rightarrow>
     command_call \<Rightarrow> OperationIntent \<Rightarrow> OperationRecord \<Rightarrow> 's \<Rightarrow> 's command_outcome" where
  "replay complete c intent record s =
     (let operationID = TrimSpace (clOperationID c); sessionID = TrimSpace (clSessionID c);
          e = new_error ''unknown_outcome'' ''operation intent exists without a provable result'';
          unproven = \<lparr>coStore = s, coResult = commandFailure operationID sessionID OutcomeUnknown (ceText e) e, coError = None, coDispatched = False\<rparr>
      in case orResult record of
           Some result \<Rightarrow> \<lparr>coStore = s, coResult = result, coError = None, coDispatched = False\<rparr>
         | None \<Rightarrow>
             if \<not> clRecoverable c then unproven
             else case clRecovered c of
                    Inl e' \<Rightarrow> rejected s operationID sessionID OutcomeUnknown (wrap_error ''unknown_outcome'' ''controlclient: recover operation result'' e')
                  | Inr (result, proven) \<Rightarrow>
                      if \<not> proven then unproven
                      else
                        let result' = valid_outcome (stamp_result operationID sessionID result) in
                        case complete intent result' s of
                          (s', Inl e') \<Rightarrow>
                            rejected s' operationID (crSessionID result') OutcomeUnknown
                              (internalCommandError ''controlclient: complete recovered operation'' (store_error e'))
                        | (s', Inr _) \<Rightarrow> \<lparr>coStore = s', coResult = result', coError = None, coDispatched = False\<rparr>)"

text \<open>A new intent: dispatch to the backend and store the receipt.\<close>

definition dispatch ::
    "(OperationIntent \<Rightarrow> CommandResult \<Rightarrow> 's \<Rightarrow> 's \<times> (ledger_error + OperationRecord)) \<Rightarrow>
     command_call \<Rightarrow> OperationIntent \<Rightarrow> 's \<Rightarrow> 's command_outcome" where
  "dispatch complete c intent s =
     (let operationID = TrimSpace (clOperationID c); sessionID = TrimSpace (clSessionID c) in
      case (if clAction c \<in> set transaction_actions then clTransaction c else None) of
        Some e \<Rightarrow>
          \<lparr>coStore = s, coResult = commandFailure operationID sessionID OutcomeUnknown (ceText e) e, coError = Some e, coDispatched = False\<rparr>
      | None \<Rightarrow>
          let result = stamp_result operationID sessionID (fst (clBackend c));
              result' = (case snd (clBackend c) of Some e \<Rightarrow> resultForBackendError result e | None \<Rightarrow> valid_outcome result)
          in case complete intent result' s of
               (s', Inl e) \<Rightarrow>
                 let coded = internalCommandError ''controlclient: complete operation'' (store_error e);
                     failed = commandFailure operationID (crSessionID result') OutcomeUnknown (publicCommandDetail coded OutcomeUnknown) coded
                 in \<lparr>coStore = s',
                     coResult = failed\<lparr>crTarget := crTarget result', crParticipantID := crParticipantID result',
                                      crResource := crResource result', crRevision := crRevision result'\<rparr>,
                     coError = Some coded, coDispatched = True\<rparr>
             | (s', Inr _) \<Rightarrow> \<lparr>coStore = s', coResult = result', coError = snd (clBackend c), coDispatched = True\<rparr>)"

definition execute ::
    "(OperationIntent \<Rightarrow> 's \<Rightarrow> 's \<times> (ledger_error + OperationRecord \<times> bool)) \<Rightarrow>
     (OperationIntent \<Rightarrow> CommandResult \<Rightarrow> 's \<Rightarrow> 's \<times> (ledger_error + OperationRecord)) \<Rightarrow>
     command_call \<Rightarrow> 's \<Rightarrow> 's command_outcome" where
  "execute begin_op complete c s =
     (let operationID = TrimSpace (clOperationID c); sessionID = TrimSpace (clSessionID c);
          invalid = (\<lambda>e. wrap_error ''invalid_argument'' (ceText e) e)
      in if operationID = []
         then rejected s operationID sessionID OutcomeRejected (new_error ''invalid_argument'' ''controlclient: operation_id is required'')
         else case clInvalid c of
           Some e \<Rightarrow> rejected s operationID sessionID OutcomeRejected (invalid e)
         | None \<Rightarrow>
             (case clUnauthorized c of
                Some e \<Rightarrow> rejected s operationID sessionID OutcomeRejected e
              | None \<Rightarrow>
                  (case commandOperationIntent c of
                     Inl e \<Rightarrow> rejected s operationID sessionID OutcomeRejected (invalid e)
                   | Inr intent \<Rightarrow>
                       (case (if clRecoverable c then clLease c else None) of
                          Some e \<Rightarrow> rejected s operationID sessionID OutcomeUnknown
                                      (wrap_error ''unknown_outcome'' ''controlclient: acquire operation execution gate'' e)
                        | None \<Rightarrow>
                            (case begin_op intent s of
                               (s1, Inl e) \<Rightarrow>
                                 if e = ErrOperationConflict then rejected s1 operationID sessionID OutcomeConflicted (store_error e)
                                 else rejected s1 operationID sessionID OutcomeUnknown
                                        (wrap_error ''unknown_outcome'' ''controlclient: begin operation'' (store_error e))
                             | (s1, Inr (record, created)) \<Rightarrow>
                                 if created then dispatch complete c intent s1 else replay complete c intent record s1)))))"

section \<open>Dispatch needs authority and admission\<close>

lemma rejected_not_dispatched [simp]: "\<not> coDispatched (rejected s a b out e)"
  by (simp add: rejected_def)

lemma replay_not_dispatched [simp]: "\<not> coDispatched (replay complete c intent q s)"
  by (auto simp: replay_def Let_def rejected_def split: option.split sum.split prod.split)

lemma execute_dispatched:
  assumes "coDispatched (execute begin_op complete c s)"
  shows "TrimSpace (clOperationID c) \<noteq> [] \<and> clInvalid c = None \<and> clUnauthorized c = None \<and>
     (\<exists>intent s1 record. commandOperationIntent c = Inr intent \<and> begin_op intent s = (s1, Inr (record, True)) \<and>
        execute begin_op complete c s = dispatch complete c intent s1)"
proof -
  from assms have op: "TrimSpace (clOperationID c) \<noteq> []" by (auto simp: execute_def)
  with assms have inv: "clInvalid c = None" by (auto simp: execute_def Let_def split: option.splits)
  with assms op have auth: "clUnauthorized c = None" by (auto simp: execute_def Let_def split: option.splits)
  from assms op inv auth obtain intent where i: "commandOperationIntent c = Inr intent"
    by (auto simp: execute_def Let_def split: sum.splits)
  from assms op inv auth i have lease: "(if clRecoverable c then clLease c else None) = None"
    by (auto simp: execute_def Let_def split: option.splits if_splits)
  have ex: "execute begin_op complete c s =
    (case begin_op intent s of
       (s1, Inl e) \<Rightarrow>
         if e = ErrOperationConflict then rejected s1 (TrimSpace (clOperationID c)) (TrimSpace (clSessionID c)) OutcomeConflicted (store_error e)
         else rejected s1 (TrimSpace (clOperationID c)) (TrimSpace (clSessionID c)) OutcomeUnknown
                (wrap_error ''unknown_outcome'' ''controlclient: begin operation'' (store_error e))
     | (s1, Inr (record, created)) \<Rightarrow> if created then dispatch complete c intent s1 else replay complete c intent record s1)"
    using op inv auth i lease by (simp add: execute_def Let_def)
  then show ?thesis using assms op inv auth i by (auto split: prod.splits sum.splits if_splits)
qed

text \<open>C5 (safety). The backend is called only for a request that is well formed, authorized and newly admitted by
  the ledger under its operation identity.\<close>

theorem dispatch_requires_admission:
  assumes "coDispatched (execute begin_op complete c s)"
  shows "clInvalid c = None \<and> clUnauthorized c = None \<and>
         (case commandOperationIntent c of
            Inl _ \<Rightarrow> False
          | Inr intent \<Rightarrow> (case snd (begin_op intent s) of Inr (record, created) \<Rightarrow> created | Inl _ \<Rightarrow> False))"
  using execute_dispatched [OF assms] by auto

section \<open>A retried command\<close>

lemma backend_error_valid: "Outcome_Valid (crOutcome (resultForBackendError result e))"
  by (simp add: resultForBackendError_def Let_def split: option.split)

lemma valid_outcome_valid: "Outcome_Valid (crOutcome (valid_outcome result))"
  by (simp add: valid_outcome_def)

lemma intent_fields:
  assumes "commandOperationIntent c = Inr intent"
  shows "TrimSpace (oiOperationID intent) = TrimSpace (clOperationID c)" "oiOperationID intent = TrimSpace (clOperationID c)"
    "oiPrincipalID intent = TrimSpace (clPrincipalID c)" "oiAction intent = clAction c"
  using assms by (auto simp: commandOperationIntent_def split: sum.splits)

text \<open>A fresh record takes any receipt of its operation.\<close>

lemma complete_fresh:
  assumes "msRecords s (intent_key intent) = Some record" "orResult record = None" "sameOperationIntent (orIntent record) intent"
    "TrimSpace (crOperationID result) = TrimSpace (oiOperationID intent)" "Outcome_Valid (crOutcome result)"
  shows "\<exists>s' r. Memory_Complete None now intent result s = (s', Inr r) \<and> msRecords s' (intent_key intent) = Some r \<and> orResult r = Some result \<and>
    r = completed_record now (memory_retention s) result record"
  using assms by (auto simp: Memory_Complete_def Let_def completed_record_def)

lemma begin_fresh:
  assumes "Memory_Begin ctx ctx' env now intent s = (s1, Inr (record, True))"
  shows "msRecords s1 (intent_key intent) = Some record \<and> record = fresh_record now (memory_retention s1) intent"
proof -
  have "msRetention s1 = msRetention (maybeSweepLocked env now s)"
    using assms by (auto simp: Memory_Begin_def Let_def split: option.splits sum.splits operationRecordDisposition.splits if_splits)
  then show ?thesis
    using assms by (auto simp: Memory_Begin_def Let_def split: option.splits sum.splits operationRecordDisposition.splits if_splits)
qed

lemma completed_valid:
  assumes "TrimSpace (oiPrincipalID intent) \<noteq> []" "TrimSpace (oiOperationID intent) \<noteq> []" "TrimSpace (oiAction intent) \<noteq> []"
    "TrimSpace (oiDigest intent) \<noteq> []" "0 < now" "0 < now'" "0 < retention"
    "TrimSpace (crOperationID result) = TrimSpace (oiOperationID intent)" "Outcome_Valid (crOutcome result)"
  shows "validateOperationRecord (completed_record now' retention' result (fresh_record now retention intent)) = None"
  using assms
  by (simp add: validateOperationRecord_def completed_record_def fresh_record_def Let_def operationRecordSchemaVersion_def
      monotonicOperationTime_def operationRecordHasReclaimableTerminalOutcome_def)

lemma dispatch_stores_result:
  assumes "commandOperationIntent c = Inr intent" "msRecords s (intent_key intent) = Some record" "orResult record = None"
    "sameOperationIntent (orIntent record) intent" "coDispatched (dispatch (Memory_Complete None now) c intent s)"
  shows "\<exists>r. msRecords (coStore (dispatch (Memory_Complete None now) c intent s)) (intent_key intent) = Some r \<and>
     orResult r = Some (coResult (dispatch (Memory_Complete None now) c intent s)) \<and>
     r = completed_record now (memory_retention s) (coResult (dispatch (Memory_Complete None now) c intent s)) record \<and>
     TrimSpace (crOperationID (coResult (dispatch (Memory_Complete None now) c intent s))) = TrimSpace (oiOperationID intent) \<and>
     Outcome_Valid (crOutcome (coResult (dispatch (Memory_Complete None now) c intent s)))"
proof -
  let ?op = "TrimSpace (clOperationID c)" and ?sess = "TrimSpace (clSessionID c)"
  let ?res = "case snd (clBackend c) of Some e \<Rightarrow> resultForBackendError (stamp_result ?op ?sess (fst (clBackend c))) e
    | None \<Rightarrow> valid_outcome (stamp_result ?op ?sess (fst (clBackend c)))"
  have valid: "Outcome_Valid (crOutcome ?res)" by (simp add: backend_error_valid valid_outcome_valid split: option.split)
  have idn: "TrimSpace (crOperationID ?res) = TrimSpace (oiOperationID intent)"
    using intent_fields [OF assms(1)]
    by (simp add: resultForBackendError_def valid_outcome_def stamp_result_def Let_def split: option.split)
  obtain s' r where c: "Memory_Complete None now intent ?res s = (s', Inr r)" "msRecords s' (intent_key intent) = Some r"
      "orResult r = Some ?res" "r = completed_record now (memory_retention s) ?res record"
    using complete_fresh [OF assms(2,3,4) idn valid] by blast
  have none: "(if clAction c \<in> set transaction_actions then clTransaction c else None) = None"
    using assms(5) by (auto simp: dispatch_def Let_def split: option.splits)
  have "dispatch (Memory_Complete None now) c intent s = \<lparr>coStore = s', coResult = ?res, coError = snd (clBackend c), coDispatched = True\<rparr>"
    unfolding dispatch_def Let_def none by (simp add: c(1))
  then show ?thesis using c idn valid by simp
qed

lemma same_intent_refl: "sameOperationIntent (i\<lparr>oiCreatedAt := t\<rparr>) i"
  by (simp add: sameOperationIntent_def)

lemma begin_replays:
  assumes "memory_store_ok s" "msRecords s (intent_key intent) = Some r" "validateOperationRecord r = None"
    "\<not> expired now (memory_retention s) r" "sameOperationIntent (orIntent r) intent" "orResult r = Some result" "orRetainUntil r = 0 \<longrightarrow> \<not> terminalOperationOutcome (crOutcome result)"
  shows "\<exists>s1. Memory_Begin None None env now intent s = (s1, Inr (r, False))"
proof -
  let ?s1 = "maybeSweepLocked env now s"
  have "reclaimed now s ?s1" using maybe_sweep_effect [OF assms(1)] by blast
  then have rec: "msRecords ?s1 (intent_key intent) = Some r" and ret: "msRetention ?s1 = msRetention s"
    using assms(2,4) by (auto simp: reclaimed_def dest: spec [of _ "intent_key intent"])
  have "classifyOperationRecord r now (memory_retention s) \<in> {Inr RetainedTerminal, Inr Indeterminate}"
    using assms(3,4,6,7)
    by (auto simp: expired_def classifyOperationRecord_def operationRecordRetentionDeadline_def operationRecordHasReclaimableTerminalOutcome_def
        split: if_splits)
  then show ?thesis using rec ret assms(5) by (auto simp: Memory_Begin_def Let_def)
qed

lemma dispatch_ok: "memory_store_ok s \<Longrightarrow> memory_store_ok (coStore (dispatch (Memory_Complete None now) c intent s))"
proof -
  assume ok: "memory_store_ok s"
  have ce: "memory_store_ok s'" if "Memory_Complete None now intent result s = (s', out)" for result s' out
    using complete_effect(1) [OF ok, of None now intent result] that by simp
  show ?thesis by (auto simp: dispatch_def Let_def ok split: option.split prod.split sum.split dest: ce)
qed

lemma never_append: "never step p (ops @ [op]) s \<longleftrightarrow> never step p ops s \<and> \<not> p op (run_ops step ops s)"
  by (induction ops arbitrary: s) simp_all

text \<open>C30 (functional). A command that ran is not run again: after a dispatched command was completed, a retry of the
  same request before its receipt lapses calls no backend and returns the very receipt of the
  first execution, whatever other operations the ledger served in between.\<close>

theorem retried_command_returns_receipt:
  assumes "memory_store_ok s" and "first = execute (Memory_Begin None None env now) (Memory_Complete None done_at) c s"
    and "coDispatched first" and "0 < now" and "0 < done_at"
    and "commandOperationIntent c = Inr intent" and "oiPrincipalID intent \<noteq> []" and "TrimSpace (oiAction intent) \<noteq> []" and "TrimSpace (oiDigest intent) \<noteq> []"
    and "never memory_step (memory_lapses (intent_key intent)) (ops @ [OpBegin None None env' later intent]) (coStore first)"
    and "commandOperationIntent c' = Inr intent" and "clInvalid c' = None" and "clUnauthorized c' = None" and "clLease c' = None"
    and "second = execute (Memory_Begin None None env' later) complete c' (run_ops memory_step ops (coStore first))"
  shows "\<not> coDispatched second \<and> coResult second = coResult first \<and> coError second = None"
proof -
  note e = execute_dispatched [OF assms(3) [unfolded assms(2)]]
  have op: "TrimSpace (clOperationID c) \<noteq> []" using e by blast
  obtain s1 q where b: "Memory_Begin None None env now intent s = (s1, Inr (q, True))" "first = dispatch (Memory_Complete None done_at) c intent s1"
    using e assms(2,6) by fastforce
  have ok1: "memory_store_ok s1" using begin_effect(1) [OF assms(1), of None None env now intent] b(1) by simp
  note q = begin_fresh [OF b(1)]
  have ret1: "0 < memory_retention s1" using ok1 by (simp add: memory_store_ok_def)
  have q': "orResult q = None" "sameOperationIntent (orIntent q) intent"
    using q by (simp_all add: fresh_record_def same_intent_refl)
  obtain r where r: "msRecords (coStore first) (intent_key intent) = Some r" "orResult r = Some (coResult first)"
      "r = completed_record done_at (memory_retention s1) (coResult first) q"
      "TrimSpace (crOperationID (coResult first)) = TrimSpace (oiOperationID intent)" "Outcome_Valid (crOutcome (coResult first))"
    using dispatch_stores_result [OF assms(6) conjunct1 [OF q] q' assms(3) [unfolded b(2)]] b(2) by blast
  have prin: "TrimSpace (oiPrincipalID intent) \<noteq> []" using assms(6,7) by (auto simp: commandOperationIntent_def split: sum.splits)
  have opi: "TrimSpace (oiOperationID intent) \<noteq> []" using intent_fields(1) [OF assms(6)] op by simp
  have vr: "validateOperationRecord r = None"
    unfolding r(3) q [THEN conjunct2] by (rule completed_valid) (use prin opi assms ret1 r in simp_all)
  have same: "sameOperationIntent (orIntent r) intent" using q'(2) by (simp add: r(3) completed_record_def Let_def)
  have dl: "orRetainUntil r = 0 \<longrightarrow> \<not> terminalOperationOutcome (crOutcome (coResult first))"
    using assms(4,5) ret1 by (auto simp: r(3) q completed_record_def fresh_record_def Let_def monotonicOperationTime_def)
  have okf: "memory_store_ok (coStore first)" unfolding b(2) by (rule dispatch_ok [OF ok1])
  let ?s2 = "run_ops memory_step ops (coStore first)"
  have nl: "never memory_step (memory_lapses (intent_key intent)) ops (coStore first)"
      "\<not> memory_lapses (intent_key intent) (OpBegin None None env' later intent) ?s2"
    using assms(10) by (simp_all add: never_append)
  have s2: "msRecords ?s2 (intent_key intent) = Some r" by (rule memory_store.receipt_kept [OF okf nl(1) r(1,2)])
  have ok2: "memory_store_ok ?s2" by (rule memory_store.run_inv [OF okf])
  have "\<not> expired later (memory_retention ?s2) r" using nl(2) s2 by (simp add: lapses_def)
  from begin_replays [OF ok2 s2 vr this same r(2) dl] obtain s3 where
    bg: "Memory_Begin None None env' later intent ?s2 = (s3, Inr (r, False))" by blast
  have "TrimSpace (clOperationID c') \<noteq> []" using intent_fields(1) [OF assms(11)] opi by simp
  then have "second = replay complete c' intent r s3"
    using assms(11-15) bg by (simp add: execute_def Let_def)
  then show ?thesis using r(2) by (simp add: replay_def Let_def)
qed

section \<open>Concrete instances\<close>

definition prompt_call :: command_call where
  "prompt_call = \<lparr>clPrincipalID = ''p'', clAction = ''prompt'', clOperationID = ''op'', clSessionID = ''s'', clTarget = ''s'', clDigest = Inr ''d'',
     clInvalid = None, clUnauthorized = None, clRecoverable = False, clLease = None, clRecovered = Inr (sample_result, False),
     clTransaction = None, clBackend = (sample_result, None)\<rparr>"

definition first_run :: "MemoryOperationStore command_outcome" where
  "first_run = execute (Memory_Begin None None sample_env 7) (Memory_Complete None 9) prompt_call sample_memory"

lemma prompt_call_intent: "commandOperationIntent prompt_call = Inr sample_intent"
  by (simp add: commandOperationIntent_def prompt_call_def sample_intent_def go_simps)

lemma sample_begin:
  "Memory_Begin None None sample_env 7 sample_intent sample_memory = (sample_begun, Inr (fresh_record 7 100 sample_intent, True))"
  "msRecords sample_begun (intent_key sample_intent) = Some (fresh_record 7 100 sample_intent)" "memory_retention sample_begun = 100"
  by (simp_all add: sample_ledger_defs)

lemma first_run_dispatch: "first_run = dispatch (Memory_Complete None 9) prompt_call sample_intent sample_begun"
proof -
  have "TrimSpace (clOperationID prompt_call) \<noteq> []" "clInvalid prompt_call = None" "clUnauthorized prompt_call = None"
      "clRecoverable prompt_call = False" by (simp_all add: prompt_call_def go_simps)
  then show ?thesis by (simp add: first_run_def execute_def prompt_call_intent sample_begin(1) Let_def)
qed

lemma first_run_facts: "coDispatched first_run" "coResult first_run = sample_result"
    "msRecords (coStore first_run) (intent_key sample_intent) = Some (completed_record 9 100 sample_result (fresh_record 7 100 sample_intent))"
proof -
  let ?r = "completed_record 9 100 sample_result (fresh_record 7 100 sample_intent)"
  have c: "Memory_Complete None 9 sample_intent sample_result sample_begun =
      (sample_begun\<lparr>msRecords := (msRecords sample_begun)(intent_key sample_intent \<mapsto> ?r)\<rparr>, Inr ?r)"
    using sample_begin(2,3) by (simp add: Memory_Complete_def Let_def fresh_record_def same_intent_refl) (simp add: sample_result_def sample_intent_def)
  have v: "valid_outcome (stamp_result (TrimSpace (clOperationID prompt_call)) (TrimSpace (clSessionID prompt_call)) sample_result) = sample_result"
    by (simp add: valid_outcome_def stamp_result_def prompt_call_def sample_result_def go_simps)
  have d: "dispatch (Memory_Complete None 9) prompt_call sample_intent sample_begun =
      \<lparr>coStore = sample_begun\<lparr>msRecords := (msRecords sample_begun)(intent_key sample_intent \<mapsto> ?r)\<rparr>, coResult = sample_result, coError = None, coDispatched = True\<rparr>"
    using c v by (simp add: dispatch_def Let_def) (simp add: prompt_call_def transaction_actions_def)
  show "coDispatched first_run" "coResult first_run = sample_result" "msRecords (coStore first_run) (intent_key sample_intent) = Some ?r"
    by (simp_all add: first_run_dispatch d)
qed

lemma dispatch_requires_admission_witness: "clUnauthorized prompt_call = None \<and> coDispatched first_run"
  using dispatch_requires_admission [OF first_run_facts(1) [unfolded first_run_def]] first_run_facts(1) by blast

lemma retried_command_returns_receipt_witness:
  "coResult (execute (Memory_Begin None None sample_env 20) (Memory_Complete None 21) prompt_call (run_ops memory_step [] (coStore first_run))) = sample_result"
proof -
  have n: "never memory_step (memory_lapses (intent_key sample_intent)) ([] @ [OpBegin None None sample_env 20 sample_intent]) (coStore first_run)"
    using first_run_facts(3) expired_deadline [of 20 "memory_retention (coStore first_run)" "completed_record 9 100 sample_result (fresh_record 7 100 sample_intent)"]
    by (auto simp: lapses_def completed_record_def Let_def fresh_record_def monotonicOperationTime_def sample_result_def sample_intent_def)
  have c: "clInvalid prompt_call = None" "clUnauthorized prompt_call = None" "clLease prompt_call = None" by (simp_all add: prompt_call_def)
  have i: "oiPrincipalID sample_intent \<noteq> []" "TrimSpace (oiAction sample_intent) \<noteq> []" "TrimSpace (oiDigest sample_intent) \<noteq> []"
    by (simp_all add: sample_intent_def go_simps)
  show ?thesis
    using retried_command_returns_receipt [OF new_store_ok [OF sample_new] first_run_def first_run_facts(1) _ _ prompt_call_intent i n prompt_call_intent c refl]
      first_run_facts(2) by simp
qed

end
