(* ===== verification/Execution_Journal.thy ===== *)
theory Execution_Journal
  imports Approval_Decision "HOL-Library.Word"
begin

text \<open>
  The durable execution journal: \<open>agent-sdk/session/execution.go\<close>.

  A status text is read as the constructor of its trimmed value, the empty text being
  \<open>\<dots>None\<close> and an unknown one \<open>\<dots>Other\<close>.  Revisions are 64-bit.  \<open>sha\<close> is the hexadecimal SHA-256
  digest and \<open>valid\<close> the check that a record can be encoded as JSON; both are arguments.  The protocol
  envelope of a tool execution, the presentation and metadata of a pause token and the times are
  only copied and are left out; \<open>ptContext\<close> says that the approval of a token has a permission context.
\<close>

section \<open>Records\<close>

datatype JournalKind =
    JournalKindRun
  | JournalKindTurn
  | JournalKindStep
  | JournalKindToolExecution
  | JournalKindPauseToken
  | JournalKindOther string

datatype PauseTokenStatus = PauseTokenNone | PauseTokenPending | PauseTokenResolved | PauseTokenCancelled | PauseTokenOther string

record PauseToken =
  ptSchema :: int
  ptTokenID :: string
  ptSessionID :: string
  ptRunID :: string
  ptTurnID :: string
  ptToolCallID :: string
  ptToolName :: string
  ptItemID :: string
  ptRevision :: "64 word"
  ptStatus :: PauseTokenStatus
  ptApproval :: "ProtocolApproval option"
  ptContext :: bool
  ptOutcome :: string
  ptOptionID :: string
  ptApproved :: bool
  ptReason :: string
  ptReviewText :: string

datatype ExecutionStatus =
    ExecutionNone
  | ExecutionPrepared
  | ExecutionStarted
  | ExecutionWaitingApproval
  | ExecutionSucceeded
  | ExecutionFailed
  | ExecutionCancelRequested
  | ExecutionCancelled
  | ExecutionInterrupted
  | ExecutionUnknownOutcome
  | ExecutionOther string

record ExecutionRecord =
  xrSchema :: int
  xrKind :: JournalKind
  xrSessionID :: string
  xrRunID :: string
  xrTurnID :: string
  xrStepID :: string
  xrIdentity :: string
  xrRevision :: "64 word"
  xrStatus :: ExecutionStatus
  xrRecoveredFrom :: ExecutionStatus
  xrError :: string
  xrReason :: string

datatype ToolExecutionStatus =
    ToolExecutionNone
  | ToolExecutionPrepared
  | ToolExecutionApproved
  | ToolExecutionStarted
  | ToolExecutionSucceeded
  | ToolExecutionFailed
  | ToolExecutionCancelRequested
  | ToolExecutionCancelled
  | ToolExecutionUnknownOutcome
  | ToolExecutionOther string

record ExecutionKey =
  ekSessionID :: string
  ekRunID :: string
  ekTurnID :: string
  ekStepID :: string
  ekToolCallID :: string

record ToolExecution =
  txSchema :: int
  txKey :: ExecutionKey
  txIdentity :: string
  txRevision :: "64 word"
  txToolName :: string
  txEffectClass :: string
  txStatus :: ToolExecutionStatus
  txRecoveredFrom :: ToolExecutionStatus
  txInput :: string
  txResult :: string
  txError :: string
  txReason :: string

record ExecutionJournalEntry =
  jeSchema :: int
  jeKind :: JournalKind
  jeExecution :: "ExecutionRecord option"
  jeToolExecution :: "ToolExecution option"
  jePauseToken :: "PauseToken option"

definition ToolExecutionSchemaVersion :: int where "ToolExecutionSchemaVersion = 1"

definition ExecutionJournalSchemaVersion :: int where "ExecutionJournalSchemaVersion = 1"

definition empty_key :: ExecutionKey where
  "empty_key = \<lparr>ekSessionID = [], ekRunID = [], ekTurnID = [], ekStepID = [], ekToolCallID = []\<rparr>"

definition empty_tool :: ToolExecution where
  "empty_tool =
     \<lparr>txSchema = 0, txKey = empty_key, txIdentity = [], txRevision = 0, txToolName = [], txEffectClass = [], txStatus = ToolExecutionNone,
      txRecoveredFrom = ToolExecutionNone, txInput = [], txResult = [], txError = [], txReason = []\<rparr>"

definition empty_record :: ExecutionRecord where
  "empty_record =
     \<lparr>xrSchema = 0, xrKind = JournalKindOther [], xrSessionID = [], xrRunID = [], xrTurnID = [], xrStepID = [], xrIdentity = [],
      xrRevision = 0, xrStatus = ExecutionNone, xrRecoveredFrom = ExecutionNone, xrError = [], xrReason = []\<rparr>"

definition empty_token :: PauseToken where
  "empty_token =
     \<lparr>ptSchema = 0, ptTokenID = [], ptSessionID = [], ptRunID = [], ptTurnID = [], ptToolCallID = [], ptToolName = [], ptItemID = [],
      ptRevision = 0, ptStatus = PauseTokenNone, ptApproval = None, ptContext = False, ptOutcome = [], ptOptionID = [],
      ptApproved = False, ptReason = [], ptReviewText = []\<rparr>"

section \<open>Identities and normal forms\<close>

definition NormalizeExecutionKey :: "ExecutionKey \<Rightarrow> ExecutionKey" where
  "NormalizeExecutionKey k =
     \<lparr>ekSessionID = TrimSpace (ekSessionID k), ekRunID = TrimSpace (ekRunID k), ekTurnID = TrimSpace (ekTurnID k),
      ekStepID = TrimSpace (ekStepID k), ekToolCallID = TrimSpace (ekToolCallID k)\<rparr>"

definition ExecutionIdentity :: "(string \<Rightarrow> string) \<Rightarrow> ExecutionKey \<Rightarrow> string" where
  "ExecutionIdentity sha key =
     (let k = NormalizeExecutionKey key
      in sha (marshal_strings [ekSessionID k, ekRunID k, ekTurnID k, ekStepID k, ekToolCallID k]))"

definition NormalizeToolExecution :: "(string \<Rightarrow> string) \<Rightarrow> ToolExecution \<Rightarrow> ToolExecution" where
  "NormalizeToolExecution sha r =
     (let key = NormalizeExecutionKey (txKey r); i = TrimSpace (txIdentity r)
      in r\<lparr>txKey := key, txIdentity := (if i = [] then ExecutionIdentity sha key else i), txToolName := TrimSpace (txToolName r),
           txEffectClass := TrimSpace (txEffectClass r), txError := TrimSpace (txError r), txReason := TrimSpace (txReason r)\<rparr>)"

fun kind_text :: "JournalKind \<Rightarrow> string" where
  "kind_text JournalKindRun = ''run''"
| "kind_text JournalKindTurn = ''turn''"
| "kind_text JournalKindStep = ''step''"
| "kind_text JournalKindToolExecution = ''tool_execution''"
| "kind_text JournalKindPauseToken = ''pause_token''"
| "kind_text (JournalKindOther s) = s"

definition ExecutionRecordIdentity :: "(string \<Rightarrow> string) \<Rightarrow> ExecutionRecord \<Rightarrow> string" where
  "ExecutionRecordIdentity sha r =
     sha (marshal_strings [TrimSpace (kind_text (xrKind r)), TrimSpace (xrSessionID r), TrimSpace (xrRunID r), TrimSpace (xrTurnID r), TrimSpace (xrStepID r)])"

definition NormalizeExecutionRecord :: "(string \<Rightarrow> string) \<Rightarrow> ExecutionRecord \<Rightarrow> ExecutionRecord" where
  "NormalizeExecutionRecord sha r =
     (let out = r\<lparr>xrSessionID := TrimSpace (xrSessionID r), xrRunID := TrimSpace (xrRunID r), xrTurnID := TrimSpace (xrTurnID r),
                   xrStepID := TrimSpace (xrStepID r), xrError := TrimSpace (xrError r), xrReason := TrimSpace (xrReason r)\<rparr>;
          i = TrimSpace (xrIdentity r)
      in out\<lparr>xrIdentity := (if i = [] then ExecutionRecordIdentity sha out else i)\<rparr>)"

definition ClonePauseToken :: "PauseToken \<Rightarrow> PauseToken" where
  "ClonePauseToken t =
     t\<lparr>ptTokenID := TrimSpace (ptTokenID t), ptSessionID := TrimSpace (ptSessionID t), ptRunID := TrimSpace (ptRunID t),
       ptTurnID := TrimSpace (ptTurnID t), ptItemID := TrimSpace (ptItemID t),
       ptToolCallID := (if ptApproval t \<noteq> None \<and> ptContext t then ptToolCallID t else TrimSpace (ptToolCallID t)),
       ptToolName := (if ptApproval t \<noteq> None \<and> ptContext t then ptToolName t else TrimSpace (ptToolName t)),
       ptOutcome := TrimSpace (ptOutcome t), ptOptionID := TrimSpace (ptOptionID t), ptReason := TrimSpace (ptReason t),
       ptReviewText := TrimSpace (ptReviewText t)\<rparr>"

section \<open>Transitions\<close>

datatype transition_error =
    InvalidSchemaOrKey
  | NotEncodable
  | UnexpectedTurnOrStep
  | UnsupportedKind
  | FirstRecordExpected
  | IdentityOrRevision
  | TransitionNotAllowed

fun tool_allowed :: "ToolExecutionStatus \<Rightarrow> ToolExecutionStatus set" where
  "tool_allowed ToolExecutionPrepared = {ToolExecutionApproved, ToolExecutionFailed, ToolExecutionCancelled}"
| "tool_allowed ToolExecutionApproved = {ToolExecutionStarted, ToolExecutionCancelled}"
| "tool_allowed ToolExecutionStarted =
     {ToolExecutionSucceeded, ToolExecutionFailed, ToolExecutionCancelRequested, ToolExecutionUnknownOutcome}"
| "tool_allowed ToolExecutionCancelRequested =
     {ToolExecutionCancelled, ToolExecutionSucceeded, ToolExecutionFailed, ToolExecutionUnknownOutcome}"
| "tool_allowed _ = {}"

definition ValidateToolExecutionTransition ::
  "(string \<Rightarrow> string) \<Rightarrow> (ToolExecution \<Rightarrow> bool) \<Rightarrow> ToolExecution \<Rightarrow> ToolExecution \<Rightarrow> transition_error option" where
  "ValidateToolExecutionTransition sha valid previous0 next0 =
     (let next = NormalizeToolExecution sha next0; previous = NormalizeToolExecution sha previous0; key = txKey next
      in if txSchema next \<noteq> ToolExecutionSchemaVersion \<or> txIdentity next = [] \<or> ekSessionID key = [] \<or> ekRunID key = [] \<or>
            ekTurnID key = [] \<or> ekToolCallID key = [] then Some InvalidSchemaOrKey
         else if \<not> valid next then Some NotEncodable
         else if txStatus previous = ToolExecutionNone
         then (if txStatus next = ToolExecutionPrepared \<and> txRevision next = 1 then None else Some FirstRecordExpected)
         else if txIdentity previous \<noteq> txIdentity next \<or> txRevision next \<noteq> txRevision previous + 1 then Some IdentityOrRevision
         else if txStatus next \<notin> tool_allowed (txStatus previous) then Some TransitionNotAllowed
         else None)"

fun execution_allowed :: "ExecutionStatus \<Rightarrow> ExecutionStatus set" where
  "execution_allowed ExecutionPrepared = {ExecutionStarted, ExecutionFailed, ExecutionCancelled}"
| "execution_allowed ExecutionStarted =
     {ExecutionWaitingApproval, ExecutionSucceeded, ExecutionFailed, ExecutionCancelRequested, ExecutionCancelled,
      ExecutionInterrupted, ExecutionUnknownOutcome}"
| "execution_allowed ExecutionWaitingApproval =
     {ExecutionStarted, ExecutionFailed, ExecutionCancelRequested, ExecutionCancelled, ExecutionInterrupted}"
| "execution_allowed ExecutionCancelRequested =
     {ExecutionCancelled, ExecutionSucceeded, ExecutionFailed, ExecutionInterrupted, ExecutionUnknownOutcome}"
| "execution_allowed _ = {}"

definition kind_error :: "ExecutionRecord \<Rightarrow> transition_error option" where
  "kind_error r =
     (case xrKind r of
        JournalKindRun \<Rightarrow> if xrTurnID r \<noteq> [] \<or> xrStepID r \<noteq> [] then Some UnexpectedTurnOrStep else None
      | JournalKindTurn \<Rightarrow> if xrTurnID r = [] \<or> xrStepID r \<noteq> [] then Some UnexpectedTurnOrStep else None
      | JournalKindStep \<Rightarrow> if xrTurnID r = [] \<or> xrStepID r = [] then Some UnexpectedTurnOrStep else None
      | _ \<Rightarrow> Some UnsupportedKind)"

definition ValidateExecutionTransition ::
  "(string \<Rightarrow> string) \<Rightarrow> (ExecutionRecord \<Rightarrow> bool) \<Rightarrow> ExecutionRecord \<Rightarrow> ExecutionRecord \<Rightarrow> transition_error option" where
  "ValidateExecutionTransition sha valid previous0 next0 =
     (let previous = NormalizeExecutionRecord sha previous0; next = NormalizeExecutionRecord sha next0
      in if xrSchema next \<noteq> ExecutionJournalSchemaVersion \<or> xrSessionID next = [] \<or> xrRunID next = [] then Some InvalidSchemaOrKey
         else case kind_error next of
           Some e \<Rightarrow> Some e
         | None \<Rightarrow>
             if \<not> valid next then Some NotEncodable
             else if xrStatus previous = ExecutionNone
             then (if xrStatus next = ExecutionPrepared \<and> xrRevision next = 1 then None else Some FirstRecordExpected)
             else if xrIdentity previous \<noteq> xrIdentity next \<or> xrKind previous \<noteq> xrKind next \<or> xrRevision next \<noteq> xrRevision previous + 1
             then Some IdentityOrRevision
             else if xrStatus next \<notin> execution_allowed (xrStatus previous) then Some TransitionNotAllowed
             else None)"

definition ValidatePauseTokenTransition :: "PauseToken \<Rightarrow> PauseToken \<Rightarrow> transition_error option" where
  "ValidatePauseTokenTransition previous0 next0 =
     (let previous = ClonePauseToken previous0; next = ClonePauseToken next0
      in if ptSchema next \<noteq> ExecutionJournalSchemaVersion \<or> ptTokenID next = [] \<or> ptSessionID next = [] \<or> ptRunID next = [] \<or> ptTurnID next = []
         then Some InvalidSchemaOrKey
         else if ptStatus previous = PauseTokenNone
         then (if ptStatus next = PauseTokenPending \<and> ptRevision next = 1 then None else Some FirstRecordExpected)
         else if ptTokenID previous \<noteq> ptTokenID next \<or> ptSessionID previous \<noteq> ptSessionID next \<or> ptRunID previous \<noteq> ptRunID next \<or>
                 ptItemID previous \<noteq> ptItemID next \<or> ptRevision next \<noteq> ptRevision previous + 1 then Some IdentityOrRevision
         else if ptStatus previous \<noteq> PauseTokenPending \<or> ptStatus next \<notin> {PauseTokenResolved, PauseTokenCancelled}
         then Some TransitionNotAllowed
         else None)"

section \<open>Journal entries\<close>

datatype entry_error =
    UnsupportedSchema int
  | EmptyEntry
  | KindMismatch
  | InvalidExecution
  | InvalidToolExecution
  | InvalidToolKey
  | StepMismatch
  | InvalidPauseToken
  | PauseTokenRevision
  | EntryNotEncodable

definition validExecutionStatus :: "ExecutionStatus \<Rightarrow> bool" where
  "validExecutionStatus s = (case s of ExecutionNone \<Rightarrow> False | ExecutionOther _ \<Rightarrow> False | _ \<Rightarrow> True)"

definition validToolExecutionStatus :: "ToolExecutionStatus \<Rightarrow> bool" where
  "validToolExecutionStatus s = (case s of ToolExecutionNone \<Rightarrow> False | ToolExecutionOther _ \<Rightarrow> False | _ \<Rightarrow> True)"

definition validateExecutionRecordKey :: "ExecutionRecord \<Rightarrow> bool" where
  "validateExecutionRecordKey r \<longleftrightarrow>
     xrSchema r = ExecutionJournalSchemaVersion \<and> xrSessionID r \<noteq> [] \<and> xrRunID r \<noteq> [] \<and>
     (case xrKind r of
        JournalKindRun \<Rightarrow> xrTurnID r = [] \<and> xrStepID r = []
      | JournalKindTurn \<Rightarrow> xrTurnID r \<noteq> [] \<and> xrStepID r = []
      | JournalKindStep \<Rightarrow> xrTurnID r \<noteq> [] \<and> xrStepID r \<noteq> []
      | _ \<Rightarrow> False)"

definition check_execution :: "(string \<Rightarrow> string) \<Rightarrow> JournalKind \<Rightarrow> ExecutionRecord \<Rightarrow> entry_error option" where
  "check_execution sha kind r0 =
     (let r = NormalizeExecutionRecord sha r0
      in if xrKind r \<noteq> kind \<and> kind \<noteq> JournalKindToolExecution then Some KindMismatch
         else if xrIdentity r \<noteq> ExecutionRecordIdentity sha r \<or> xrRevision r = 0 \<or> \<not> validExecutionStatus (xrStatus r) then Some InvalidExecution
         else if \<not> validateExecutionRecordKey r then Some InvalidExecution else None)"

definition check_tool :: "(string \<Rightarrow> string) \<Rightarrow> JournalKind \<Rightarrow> ExecutionRecord option \<Rightarrow> ToolExecution \<Rightarrow> entry_error option" where
  "check_tool sha kind step r0 =
     (let r = NormalizeToolExecution sha r0; key = txKey r
      in if kind \<noteq> JournalKindToolExecution \<or> txSchema r \<noteq> ToolExecutionSchemaVersion \<or> txIdentity r \<noteq> ExecutionIdentity sha key \<or>
            txRevision r = 0 \<or> \<not> validToolExecutionStatus (txStatus r) then Some InvalidToolExecution
         else if ekSessionID key = [] \<or> ekRunID key = [] \<or> ekTurnID key = [] \<or> ekToolCallID key = [] then Some InvalidToolKey
         else case step of
           None \<Rightarrow> None
         | Some s0 \<Rightarrow>
             let s = NormalizeExecutionRecord sha s0
             in if xrKind s \<noteq> JournalKindStep \<or> xrSessionID s \<noteq> ekSessionID key \<or> xrRunID s \<noteq> ekRunID key \<or> xrTurnID s \<noteq> ekTurnID key \<or>
                   xrStepID s \<noteq> ekStepID key then Some StepMismatch else None)"

definition check_token :: "JournalKind \<Rightarrow> PauseToken \<Rightarrow> entry_error option" where
  "check_token kind t0 =
     (let t = ClonePauseToken t0
      in if kind \<noteq> JournalKindPauseToken \<or> ptSchema t \<noteq> ExecutionJournalSchemaVersion \<or> ptTokenID t = [] \<or> ptSessionID t = [] \<or>
            ptRunID t = [] \<or> ptTurnID t = [] \<or> ptRevision t = 0 then Some InvalidPauseToken
         else case ptStatus t of
           PauseTokenPending \<Rightarrow> if ptRevision t \<noteq> 1 then Some PauseTokenRevision else None
         | PauseTokenResolved \<Rightarrow> if ptRevision t \<noteq> 2 then Some PauseTokenRevision else None
         | PauseTokenCancelled \<Rightarrow> if ptRevision t \<noteq> 2 then Some PauseTokenRevision else None
         | _ \<Rightarrow> Some InvalidPauseToken)"

definition ValidateExecutionJournalEntry ::
  "(string \<Rightarrow> string) \<Rightarrow> (ExecutionJournalEntry \<Rightarrow> bool) \<Rightarrow> ExecutionJournalEntry \<Rightarrow> entry_error option" where
  "ValidateExecutionJournalEntry sha valid e =
     (if jeSchema e \<noteq> ExecutionJournalSchemaVersion then Some (UnsupportedSchema (jeSchema e))
      else if jeExecution e = None \<and> jeToolExecution e = None \<and> jePauseToken e = None then Some EmptyEntry
      else case (case jeExecution e of None \<Rightarrow> None | Some r \<Rightarrow> check_execution sha (jeKind e) r) of
        Some x \<Rightarrow> Some x
      | None \<Rightarrow>
          (case (case jeToolExecution e of None \<Rightarrow> None | Some r \<Rightarrow> check_tool sha (jeKind e) (jeExecution e) r) of
             Some x \<Rightarrow> Some x
           | None \<Rightarrow>
               (case (case jePauseToken e of None \<Rightarrow> None | Some t \<Rightarrow> check_token (jeKind e) t) of
                  Some x \<Rightarrow> Some x
                | None \<Rightarrow> if valid e then None else Some EntryNotEncodable)))"

section \<open>Recovery of tool executions\<close>





section \<open>Histories\<close>

text \<open>A validator of transitions between records with a status and a revision.\<close>

fun history :: "('r \<Rightarrow> 'r \<Rightarrow> bool) \<Rightarrow> 'r \<Rightarrow> 'r list \<Rightarrow> bool" where
  "history step p [] = True"
| "history step p (r # rs) = (step p r \<and> history step r rs)"

locale status_machine =
  fixes step :: "'r \<Rightarrow> 'r \<Rightarrow> bool" and status :: "'r \<Rightarrow> 's" and rev :: "'r \<Rightarrow> 64 word" and none :: 's and initial :: 's
    and allowed :: "'s \<Rightarrow> 's set"
  assumes first_step: "step p r \<Longrightarrow> status p = none \<Longrightarrow> status r = initial \<and> rev r = 1"
    and later_step: "step p r \<Longrightarrow> status p \<noteq> none \<Longrightarrow> status r \<in> allowed (status p) \<and> rev r = rev p + 1"
    and started: "initial \<noteq> none" and none_allowed: "none \<notin> allowed s"
begin

lemma tail_rev:
  "history step p rs \<Longrightarrow> status p \<noteq> none \<Longrightarrow> k < length rs \<Longrightarrow> rev (rs ! k) = rev p + of_nat (Suc k) \<and> status (rs ! k) \<noteq> none"
proof (induction rs arbitrary: p k)
  case (Cons r rs)
  then have r: "status r \<in> allowed (status p)" "rev r = rev p + 1" "history step r rs" using later_step [of p r] by auto
  with none_allowed have ne: "status r \<noteq> none" by metis
  show ?case
  proof (cases k)
    case 0
    with r ne show ?thesis by simp
  next
    case (Suc j)
    with Cons.IH [OF r(3) ne] Cons.prems(3) r(2) show ?thesis by (simp add: algebra_simps)
  qed
qed simp

lemma head: "history step p (r # rs) \<Longrightarrow> status p = none \<Longrightarrow> status r = initial \<and> rev r = 1 \<and> history step r rs"
  using first_step [of p r] by simp

lemma revisions:
  assumes "history step p h" and "status p = none" and "k < length h"
  shows "rev (h ! k) = of_nat (Suc k)"
proof (cases h)
  case Nil
  with assms(3) show ?thesis by simp
next
  case (Cons r rs)
  with head [of p r rs] assms have r: "status r = initial" "rev r = 1" "history step r rs" by auto
  show ?thesis
  proof (cases k)
    case 0
    with r Cons show ?thesis by simp
  next
    case (Suc j)
    with tail_rev [OF r(3), of j] r started Cons assms(3) show ?thesis by simp
  qed
qed

lemma consecutive:
  assumes "history step p h" and "status p = none" and "Suc k < length h"
  shows "status (h ! Suc k) \<in> allowed (status (h ! k))"
proof -
  have *: "Suc k < length rs \<Longrightarrow> history step q rs \<Longrightarrow> step (rs ! k) (rs ! Suc k)" for q rs
  proof (induction rs arbitrary: q k)
    case (Cons r rs)
    then show ?case by (cases k; cases rs) auto
  qed simp
  have "status (h ! k) \<noteq> none"
  proof (cases h)
    case (Cons r rs)
    with head [of p r rs] assms have r: "status r = initial" "history step r rs" by auto
    then show ?thesis using Cons assms(3) started tail_rev [OF r(2)] by (cases k) auto
  qed (use assms(3) in simp)
  with later_step [OF * [OF assms(3,1)]] show ?thesis by simp
qed

lemma terminal_last:
  assumes "history step p h" and "status p = none" and "k < length h" and "allowed (status (h ! k)) = {}"
  shows "Suc k = length h"
  using consecutive [OF assms(1,2), of k] assms(3,4) by (cases "Suc k < length h") auto

end

lemma tool_fields [simp]: "txStatus (NormalizeToolExecution sha r) = txStatus r" "txRevision (NormalizeToolExecution sha r) = txRevision r"
  "txSchema (NormalizeToolExecution sha r) = txSchema r"
  by (simp_all add: NormalizeToolExecution_def Let_def)

lemma record_fields [simp]: "xrStatus (NormalizeExecutionRecord sha r) = xrStatus r" "xrRevision (NormalizeExecutionRecord sha r) = xrRevision r"
  "xrKind (NormalizeExecutionRecord sha r) = xrKind r"
  by (simp_all add: NormalizeExecutionRecord_def Let_def)

lemma token_fields [simp]: "ptStatus (ClonePauseToken t) = ptStatus t" "ptRevision (ClonePauseToken t) = ptRevision t"
  by (simp_all add: ClonePauseToken_def)

lemma tool_allowed_none: "ToolExecutionNone \<notin> tool_allowed s"
  by (cases s) auto

lemma execution_allowed_none: "ExecutionNone \<notin> execution_allowed s"
  by (cases s) auto

interpretation tool_machine: status_machine "\<lambda>p r. ValidateToolExecutionTransition sha valid p r = None" txStatus txRevision
  ToolExecutionNone ToolExecutionPrepared tool_allowed for sha valid
  by unfold_locales (auto simp: ValidateToolExecutionTransition_def Let_def tool_allowed_none split: if_splits)

interpretation execution_machine: status_machine "\<lambda>p r. ValidateExecutionTransition sha valid p r = None" xrStatus xrRevision
  ExecutionNone ExecutionPrepared execution_allowed for sha valid
  by unfold_locales (auto simp: ValidateExecutionTransition_def Let_def execution_allowed_none split: if_splits option.splits)

definition token_allowed :: "PauseTokenStatus \<Rightarrow> PauseTokenStatus set" where
  "token_allowed s = (if s = PauseTokenPending then {PauseTokenResolved, PauseTokenCancelled} else {})"

interpretation token_machine: status_machine "\<lambda>p r. ValidatePauseTokenTransition p r = None" ptStatus ptRevision
  PauseTokenNone PauseTokenPending token_allowed
  by unfold_locales (auto simp: ValidatePauseTokenTransition_def Let_def token_allowed_def split: if_splits)

abbreviation tool_history :: "(string \<Rightarrow> string) \<Rightarrow> (ToolExecution \<Rightarrow> bool) \<Rightarrow> ToolExecution list \<Rightarrow> bool" where
  "tool_history sha valid h \<equiv> history (\<lambda>p r. ValidateToolExecutionTransition sha valid p r = None) empty_tool h"

abbreviation execution_history :: "(string \<Rightarrow> string) \<Rightarrow> (ExecutionRecord \<Rightarrow> bool) \<Rightarrow> ExecutionRecord list \<Rightarrow> bool" where
  "execution_history sha valid h \<equiv> history (\<lambda>p r. ValidateExecutionTransition sha valid p r = None) empty_record h"

abbreviation token_history :: "PauseToken list \<Rightarrow> bool" where
  "token_history h \<equiv> history (\<lambda>p r. ValidatePauseTokenTransition p r = None) empty_token h"

lemma empty_status [simp]: "txStatus empty_tool = ToolExecutionNone" "xrStatus empty_record = ExecutionNone" "ptStatus empty_token = PauseTokenNone"
  by (simp_all add: empty_tool_def empty_record_def empty_token_def)

fun tool_rank :: "ToolExecutionStatus \<Rightarrow> nat" where
  "tool_rank ToolExecutionPrepared = 1"
| "tool_rank ToolExecutionApproved = 2"
| "tool_rank ToolExecutionStarted = 3"
| "tool_rank ToolExecutionCancelRequested = 4"
| "tool_rank _ = 5"

lemma tool_rank_le: "tool_rank s \<le> 5"
  by (cases s) auto

lemma tool_rank_step: "s' \<in> tool_allowed s \<Longrightarrow> tool_rank s < tool_rank s'"
  by (cases s) auto

lemma tool_sources:
  "s' \<in> tool_allowed s \<Longrightarrow> s' \<noteq> ToolExecutionPrepared \<and> (s' = ToolExecutionStarted \<longrightarrow> s = ToolExecutionApproved) \<and>
     (s' = ToolExecutionApproved \<longrightarrow> s = ToolExecutionPrepared)"
  by (cases s) auto

lemma tool_history_rank: "tool_history sha valid h \<Longrightarrow> k < length h \<Longrightarrow> Suc k \<le> tool_rank (txStatus (h ! k))"
proof (induction k)
  case 0
  then obtain r rs where "h = r # rs" by (cases h) auto
  with 0 tool_machine.head [of sha valid empty_tool r rs] show ?case by simp
next
  case (Suc k)
  then have "tool_rank (txStatus (h ! k)) < tool_rank (txStatus (h ! Suc k))"
    using tool_machine.consecutive [OF Suc.prems(1), of k] by (simp add: tool_rank_step)
  with Suc show ?case by simp
qed

text \<open>C36 (bounds).  The journal of a tool execution is a short, ordered story: at most five records, numbered from one
  without gaps, and an execution starts at most once, as its third record, right after it was
  recorded as approved.\<close>

theorem tool_history_shape:
  assumes "tool_history sha valid h"
  shows "length h \<le> 5 \<and> (\<forall>k < length h. txRevision (h ! k) = of_nat (Suc k) \<and>
           (if txStatus (h ! k) = ToolExecutionStarted then k = 2 \<and> txStatus (h ! 1) = ToolExecutionApproved else True))"
proof -
  have len: "length h \<le> 5"
    using tool_history_rank [OF assms, of "length h - 1"] tool_rank_le [of "txStatus (h ! (length h - 1))"] by (cases h) auto
  have prev: "txStatus (h ! k) = ToolExecutionPrepared \<Longrightarrow> k < length h \<Longrightarrow> k = 0" for k
    using tool_machine.consecutive [OF assms, of "k - 1"] tool_sources by (cases k) fastforce+
  have first: "txStatus (h ! 0) = ToolExecutionPrepared" if "h \<noteq> []"
    using that assms tool_machine.head [of sha valid empty_tool "hd h" "tl h"] by (cases h) simp_all
  have appr: "txStatus (h ! k) = ToolExecutionApproved \<Longrightarrow> k < length h \<Longrightarrow> k = 1" for k
    using tool_machine.consecutive [OF assms, of "k - 1"] tool_sources prev [of "k - 1"] first by (cases k) fastforce+
  have "k = 2 \<and> txStatus (h ! 1) = ToolExecutionApproved" if "txStatus (h ! k) = ToolExecutionStarted" "k < length h" for k
  proof (cases k)
    case 0
    with first that show ?thesis by auto
  next
    case (Suc j)
    with tool_machine.consecutive [OF assms, of j] that tool_sources have "txStatus (h ! j) = ToolExecutionApproved" by auto
    with appr [of j] Suc that show ?thesis by simp
  qed
  with len tool_machine.revisions [OF assms] show ?thesis by simp
qed

text \<open>C37 (safety).  A terminal state is final: in the journal of a run, turn or step nothing follows a record that
  succeeded, failed, was cancelled or interrupted or has an unknown outcome, and in the journal of a pause
  token at most one record follows the pending one, so a pause has at most one resolution.\<close>

theorem terminal_is_final:
  assumes "execution_history sha valid h" and "k < length h" and "token_history t"
  shows "(if execution_allowed (xrStatus (h ! k)) = {} then Suc k = length h else
            xrStatus (h ! k) \<in> {ExecutionPrepared, ExecutionStarted, ExecutionWaitingApproval, ExecutionCancelRequested}) \<and>
         length t \<le> 2 \<and> length (filter (\<lambda>r. ptStatus r = PauseTokenResolved) t) \<le> 1"
proof -
  have "length t \<le> 2"
  proof (rule ccontr)
    assume "\<not> length t \<le> 2"
    then have "Suc 0 < length t" "Suc 1 < length t" by simp_all
    from this [THEN token_machine.consecutive [OF assms(3) empty_status(3)]] show False
      by (auto simp: token_allowed_def split: if_splits)
  qed
  moreover have "length (filter (\<lambda>r. ptStatus r = PauseTokenResolved) t) \<le> 1"
  proof (cases t)
    case (Cons r rs)
    with token_machine.head [of empty_token r rs] assms(3) have "ptStatus r = PauseTokenPending" by simp
    with Cons \<open>length t \<le> 2\<close> show ?thesis
      using length_filter_le [of "\<lambda>r. ptStatus r = PauseTokenResolved" rs] by (simp del: length_filter_le)
  qed simp
  moreover have "xrStatus (h ! k) \<in> {ExecutionPrepared, ExecutionStarted, ExecutionWaitingApproval, ExecutionCancelRequested}"
    if "execution_allowed (xrStatus (h ! k)) \<noteq> {}"
    using that by (cases "xrStatus (h ! k)") auto
  ultimately show ?thesis using execution_machine.terminal_last [OF assms(1) _ assms(2)] by auto
qed

section \<open>Recovery is complete and idempotent\<close>



lemma normal_key [simp]: "NormalizeExecutionKey (NormalizeExecutionKey k) = NormalizeExecutionKey k"
  by (simp add: NormalizeExecutionKey_def)














section \<open>Concrete journals\<close>

definition sample_tool :: "64 word \<Rightarrow> ToolExecutionStatus \<Rightarrow> ToolExecution" where
  "sample_tool n s =
     empty_tool\<lparr>txSchema := 1, txKey := \<lparr>ekSessionID = ''s'', ekRunID = ''r'', ekTurnID = ''t'', ekStepID = ''i'', ekToolCallID = ''c''\<rparr>,
       txIdentity := ''digest'', txRevision := n, txStatus := s\<rparr>"

definition sample_run :: "64 word \<Rightarrow> ExecutionStatus \<Rightarrow> ExecutionRecord" where
  "sample_run n s = empty_record\<lparr>xrSchema := 1, xrKind := JournalKindRun, xrSessionID := ''s'', xrRunID := ''r'', xrRevision := n, xrStatus := s\<rparr>"

definition sample_token :: "64 word \<Rightarrow> PauseTokenStatus \<Rightarrow> PauseToken" where
  "sample_token n s =
     empty_token\<lparr>ptSchema := 1, ptTokenID := ''p'', ptSessionID := ''s'', ptRunID := ''r'', ptTurnID := ''t'', ptRevision := n, ptStatus := s\<rparr>"

lemmas sample_journal_defs = sample_tool_def sample_run_def sample_token_def empty_tool_def empty_record_def empty_token_def empty_key_def
  ValidateToolExecutionTransition_def ValidateExecutionTransition_def ValidatePauseTokenTransition_def NormalizeToolExecution_def
  NormalizeExecutionRecord_def NormalizeExecutionKey_def ClonePauseToken_def ToolExecutionSchemaVersion_def ExecutionJournalSchemaVersion_def
  ExecutionRecordIdentity_def kind_error_def Let_def go_simps

theorem tool_history_shape_witness:
  "length [sample_tool 1 ToolExecutionPrepared, sample_tool 2 ToolExecutionApproved, sample_tool 3 ToolExecutionStarted] \<le> 5"
proof -
  have "tool_history (\<lambda>_. ''digest'') (\<lambda>_. True)
      [sample_tool 1 ToolExecutionPrepared, sample_tool 2 ToolExecutionApproved, sample_tool 3 ToolExecutionStarted]"
    by (simp add: sample_journal_defs)
  from tool_history_shape [OF this] show ?thesis by blast
qed

theorem terminal_is_final_witness:
  "Suc 2 = length [sample_run 1 ExecutionPrepared, sample_run 2 ExecutionStarted, sample_run 3 ExecutionSucceeded] \<and>
   length [sample_token 1 PauseTokenPending, sample_token 2 PauseTokenResolved] \<le> 2"
proof -
  have r: "execution_history (\<lambda>_. ''digest'') (\<lambda>_. True) [sample_run 1 ExecutionPrepared, sample_run 2 ExecutionStarted, sample_run 3 ExecutionSucceeded]"
    by (simp add: sample_journal_defs)
  have t: "token_history [sample_token 1 PauseTokenPending, sample_token 2 PauseTokenResolved]"
    by (simp add: sample_journal_defs)
  have "xrStatus ([sample_run 1 ExecutionPrepared, sample_run 2 ExecutionStarted, sample_run 3 ExecutionSucceeded] ! 2) = ExecutionSucceeded"
    by (simp add: sample_run_def)
  with terminal_is_final [OF r _ t, of 2] show ?thesis by simp
qed


end
