(* ===== verification/Journaled_Tool.thy ===== *)
theory Journaled_Tool
  imports Execution_Journal
begin

text \<open>
  A tool call under the execution journal: \<open>agent-sdk/runtime/tool_execution_journal.go\<close>.

  The journal is the list of appended entries.  What the environment does during one call is the
  argument \<open>call_env\<close>: the answer of each append (an append may fail with or without having committed), the
  answer of the wrapped tool, and whether the context was cancelled when the watching goroutine looked and
  when the result is recorded; the second follows from the first.  Times are left out.
\<close>

record journaledTool =
  jtSessionID :: string
  jtRunID :: string
  jtTurnID :: string

record tool_call =
  kcID :: string
  kcItemID :: string
  kcInput :: string
  kcName :: string
  kcEffect :: string

datatype append_answer = AppendOK | AppendLost string | AppendCommitted string

record call_env =
  ceAppend :: "nat \<Rightarrow> append_answer"
  ceWatched :: bool
  ceCancelled :: bool
  ceCtxErr :: string
  ceCallErr :: "string option"
  ceIsError :: bool
  ceResult :: "string + string"

datatype call_error = InvalidTransition transition_error | AppendError string

definition journal_entry :: "(string \<Rightarrow> string) \<Rightarrow> ToolExecution \<Rightarrow> ExecutionRecord \<Rightarrow> ExecutionJournalEntry" where
  "journal_entry sha nextTool nextExecution =
     \<lparr>jeSchema = ExecutionJournalSchemaVersion, jeKind = JournalKindToolExecution,
      jeExecution = (if xrStatus nextExecution \<noteq> ExecutionNone then Some (NormalizeExecutionRecord sha nextExecution) else None),
      jeToolExecution = Some (NormalizeToolExecution sha nextTool), jePauseToken = None\<rparr>"

type_synonym journal = "ExecutionJournalEntry option list"

definition appendEntry ::
  "(string \<Rightarrow> string) \<Rightarrow> (ToolExecution \<Rightarrow> bool) \<Rightarrow> (ExecutionRecord \<Rightarrow> bool) \<Rightarrow> append_answer \<Rightarrow> ToolExecution \<Rightarrow> ToolExecution \<Rightarrow>
   ExecutionRecord \<Rightarrow> ExecutionRecord \<Rightarrow> journal \<Rightarrow> call_error option \<times> journal" where
  "appendEntry sha vt vx answer previousTool nextTool previousExecution nextExecution j =
     (case ValidateToolExecutionTransition sha vt previousTool nextTool of
        Some e \<Rightarrow> (Some (InvalidTransition e), j)
      | None \<Rightarrow>
          (case (if xrStatus nextExecution \<noteq> ExecutionNone then ValidateExecutionTransition sha vx previousExecution nextExecution else None) of
             Some e \<Rightarrow> (Some (InvalidTransition e), j)
           | None \<Rightarrow>
               let j' = j @ [Some (journal_entry sha nextTool nextExecution)]
               in case answer of AppendOK \<Rightarrow> (None, j') | AppendLost msg \<Rightarrow> (Some (AppendError msg), j) | AppendCommitted msg \<Rightarrow> (Some (AppendError msg), j')))"

definition prepared_tool :: "(string \<Rightarrow> string) \<Rightarrow> journaledTool \<Rightarrow> tool_call \<Rightarrow> ToolExecution" where
  "prepared_tool sha t call =
     NormalizeToolExecution sha
       (empty_tool\<lparr>txSchema := ToolExecutionSchemaVersion,
          txKey := \<lparr>ekSessionID = jtSessionID t, ekRunID = jtRunID t, ekTurnID = jtTurnID t, ekStepID = kcItemID call, ekToolCallID = TrimSpace (kcID call)\<rparr>,
          txRevision := 1, txToolName := kcName call, txEffectClass := kcEffect call, txStatus := ToolExecutionPrepared, txInput := kcInput call\<rparr>)"

definition prepared_step :: "(string \<Rightarrow> string) \<Rightarrow> journaledTool \<Rightarrow> tool_call \<Rightarrow> ExecutionRecord" where
  "prepared_step sha t call =
     NormalizeExecutionRecord sha
       (empty_record\<lparr>xrSchema := ExecutionJournalSchemaVersion, xrKind := JournalKindStep, xrSessionID := jtSessionID t, xrRunID := jtRunID t,
          xrTurnID := jtTurnID t, xrStepID := kcItemID call, xrRevision := 1, xrStatus := ExecutionPrepared\<rparr>)"

definition next_tool :: "ToolExecutionStatus \<Rightarrow> ToolExecution \<Rightarrow> ToolExecution" where
  "next_tool s r = r\<lparr>txRevision := txRevision r + 1, txStatus := s\<rparr>"

definition next_step :: "ExecutionStatus \<Rightarrow> ExecutionRecord \<Rightarrow> ExecutionRecord" where
  "next_step s r = r\<lparr>xrRevision := xrRevision r + 1, xrStatus := s\<rparr>"

text \<open>The outcome of a call: the journal, whether the wrapped tool was called, the error, and the last record with the
  terminal entry that travels in the metadata of the result.\<close>

record call_outcome =
  oJournal :: journal
  oEffect :: bool
  oError :: "call_error option"
  oLast :: ToolExecution
  oTerminal :: "ExecutionJournalEntry option"

definition stopped :: "journal \<Rightarrow> bool \<Rightarrow> call_error \<Rightarrow> ToolExecution \<Rightarrow> call_outcome" where
  "stopped j effect e r = \<lparr>oJournal = j, oEffect = effect, oError = Some e, oLast = r, oTerminal = None\<rparr>"

definition terminal_tool :: "call_env \<Rightarrow> ToolExecution \<Rightarrow> ToolExecution" where
  "terminal_tool env r =
     (let failed = (ceCallErr env \<noteq> None \<or> ceIsError env); callText = (case ceCallErr env of Some e \<Rightarrow> e | None \<Rightarrow> []);
          r1 = r\<lparr>txRevision := txRevision r + 1, txResult := (case ceResult env of Inr raw \<Rightarrow> raw | Inl _ \<Rightarrow> txResult r)\<rparr>
      in if ceCancelled env \<and> failed then r1\<lparr>txStatus := ToolExecutionCancelled, txError := firstNonEmpty [callText, ceCtxErr env]\<rparr>
         else if failed then r1\<lparr>txStatus := ToolExecutionFailed, txError := callText\<rparr>
         else case ceResult env of
           Inl marshalErr \<Rightarrow> r1\<lparr>txStatus := ToolExecutionFailed, txError := marshalErr\<rparr>
         | Inr _ \<Rightarrow> r1\<lparr>txStatus := ToolExecutionSucceeded\<rparr>)"

definition terminal_step :: "ToolExecution \<Rightarrow> ExecutionRecord \<Rightarrow> ExecutionRecord" where
  "terminal_step r s =
     s\<lparr>xrRevision := xrRevision s + 1, xrError := txError r, xrReason := txReason r,
       xrStatus := (if txStatus r = ToolExecutionSucceeded then ExecutionSucceeded
                    else if txStatus r = ToolExecutionCancelled then ExecutionCancelled else ExecutionFailed)\<rparr>"

text \<open>\<open>requestCancellation\<close> of the watching goroutine, the fourth append; the record is started when it runs.\<close>

definition cancel_records :: "call_env \<Rightarrow> ToolExecution \<Rightarrow> ExecutionRecord \<Rightarrow> ToolExecution \<times> ExecutionRecord" where
  "cancel_records env r s =
     (let r' = (next_tool ToolExecutionCancelRequested r)\<lparr>txReason := ceCtxErr env\<rparr>
      in (r', (next_step ExecutionCancelRequested s)\<lparr>xrReason := txReason r'\<rparr>))"

definition finish_call :: "(string \<Rightarrow> string) \<Rightarrow> (ToolExecution \<Rightarrow> bool) \<Rightarrow> (ExecutionRecord \<Rightarrow> bool) \<Rightarrow> call_env \<Rightarrow> ToolExecution \<Rightarrow> ExecutionRecord \<Rightarrow> journal \<Rightarrow> call_outcome" where
  "finish_call sha vt vx env r s j =
     (let terminal = (\<lambda>r s j. let r' = terminal_tool env r
            in \<lparr>oJournal = j, oEffect = True, oError = None, oLast = r,
                oTerminal = Some \<lparr>jeSchema = ExecutionJournalSchemaVersion, jeKind = JournalKindToolExecution,
                                   jeExecution = Some (terminal_step r' s), jeToolExecution = Some r', jePauseToken = None\<rparr>\<rparr>)
      in if ceWatched env
         then (case cancel_records env r s of
                 (r', s') \<Rightarrow>
                   (case appendEntry sha vt vx (ceAppend env 3) r r' s s' j of
                      (Some e, j') \<Rightarrow> stopped j' True e r
                    | (None, j') \<Rightarrow> terminal r' s' j'))
         else terminal r s j)"

definition Call :: "(string \<Rightarrow> string) \<Rightarrow> (ToolExecution \<Rightarrow> bool) \<Rightarrow> (ExecutionRecord \<Rightarrow> bool) \<Rightarrow> call_env \<Rightarrow> journaledTool \<Rightarrow> tool_call \<Rightarrow> journal \<Rightarrow> call_outcome" where
  "Call sha vt vx env t call j =
     (let r1 = prepared_tool sha t call; s1 = prepared_step sha t call
      in case appendEntry sha vt vx (ceAppend env 0) empty_tool r1 empty_record s1 j of
           (Some e, j1) \<Rightarrow> stopped j1 False e r1
         | (None, j1) \<Rightarrow>
             let r2 = next_tool ToolExecutionApproved r1
             in case appendEntry sha vt vx (ceAppend env 1) r1 r2 empty_record empty_record j1 of
                  (Some e, j2) \<Rightarrow> stopped j2 False e r2
                | (None, j2) \<Rightarrow>
                    let r3 = next_tool ToolExecutionStarted r2; s3 = next_step ExecutionStarted s1
                    in case appendEntry sha vt vx (ceAppend env 2) r2 r3 s1 s3 j2 of
                         (Some e, j3) \<Rightarrow> stopped j3 False e r3
                       | (None, j3) \<Rightarrow> finish_call sha vt vx env r3 s3 j3)"

section \<open>Effects are journaled first\<close>

lemma append_ok:
  "appendEntry sha vt vx answer p r ps s j = (None, j') \<Longrightarrow>
   ValidateToolExecutionTransition sha vt p r = None \<and> j' = j @ [Some (journal_entry sha r s)]"
  by (auto simp: appendEntry_def Let_def split: option.splits append_answer.splits)

lemma append_grows: "appendEntry sha vt vx answer p r ps s j = (e, j') \<Longrightarrow> \<exists>ys. j' = j @ ys"
  by (auto simp: appendEntry_def Let_def split: option.splits append_answer.splits)

lemma finish_journal: "\<exists>ys. oJournal (finish_call sha vt vx env r s j) = j @ ys \<and> oEffect (finish_call sha vt vx env r s j)"
  by (auto simp: finish_call_def Let_def stopped_def split: prod.splits option.splits dest: append_grows)

lemma finish_effect [simp]: "oEffect (finish_call sha vt vx env r s j)"
  using finish_journal by blast

lemma Call_effect:
  assumes "oEffect (Call sha vt vx env t call j)"
  defines "r1 \<equiv> prepared_tool sha t call"
  defines "r2 \<equiv> next_tool ToolExecutionApproved r1"
  defines "r3 \<equiv> next_tool ToolExecutionStarted r2" and "s1 \<equiv> prepared_step sha t call"
  defines "started \<equiv> j @ [Some (journal_entry sha r1 s1), Some (journal_entry sha r2 empty_record), Some (journal_entry sha r3 (next_step ExecutionStarted s1))]"
  shows "Call sha vt vx env t call j = finish_call sha vt vx env r3 (next_step ExecutionStarted s1) started \<and> tool_history sha vt [r1, r2, r3]"
proof -
  let ?s3 = "next_step ExecutionStarted s1"
  obtain e1 j1 where 1: "appendEntry sha vt vx (ceAppend env 0) empty_tool r1 empty_record s1 j = (e1, j1)" by (rule prod.exhaust)
  with assms(1) have e1: "e1 = None" by (cases e1) (auto simp: Call_def stopped_def Let_def r1_def s1_def)
  obtain e2 j2 where 2: "appendEntry sha vt vx (ceAppend env 1) r1 r2 empty_record empty_record j1 = (e2, j2)" by (rule prod.exhaust)
  with 1 e1 assms(1) have e2: "e2 = None" by (cases e2) (auto simp: Call_def stopped_def Let_def r1_def s1_def r2_def)
  obtain e3 j3 where 3: "appendEntry sha vt vx (ceAppend env 2) r2 r3 s1 ?s3 j2 = (e3, j3)" by (rule prod.exhaust)
  with 1 2 e1 e2 assms(1) have e3: "e3 = None" by (cases e3) (auto simp: Call_def stopped_def Let_def r1_def s1_def r2_def r3_def)
  from append_ok [OF 1 [unfolded e1]] append_ok [OF 2 [unfolded e2]] append_ok [OF 3 [unfolded e3]]
  have "j3 = started" and "tool_history sha vt [r1, r2, r3]" by (simp_all add: started_def)
  moreover have "Call sha vt vx env t call j = finish_call sha vt vx env r3 ?s3 j3"
    using 1 2 3 e1 e2 e3 by (simp add: Call_def Let_def r1_def s1_def r2_def r3_def)
  ultimately show ?thesis by simp
qed

lemma entry_status [simp]: "map_option txStatus (jeToolExecution (journal_entry sha r s)) = Some (txStatus r)"
  by (simp add: journal_entry_def)

text \<open>C7 (safety).  No effect without a durable start: the wrapped tool is called only after the journal holds, in this
  order, a prepared, an approved and a started record of the call.\<close>

theorem tool_effect_after_durable_start:
  assumes "oEffect (Call sha vt vx env t call j)"
  shows "map (\<lambda>e. map_option txStatus (Option.bind e jeToolExecution)) (take 3 (drop (length j) (oJournal (Call sha vt vx env t call j)))) =
         [Some ToolExecutionPrepared, Some ToolExecutionApproved, Some ToolExecutionStarted]"
proof -
  note c = Call_effect [OF assms, THEN conjunct1]
  obtain ys where "oJournal (Call sha vt vx env t call j) = j @
      [Some (journal_entry sha (prepared_tool sha t call) (prepared_step sha t call)),
       Some (journal_entry sha (next_tool ToolExecutionApproved (prepared_tool sha t call)) empty_record),
       Some (journal_entry sha (next_tool ToolExecutionStarted (next_tool ToolExecutionApproved (prepared_tool sha t call)))
         (next_step ExecutionStarted (prepared_step sha t call)))] @ ys"
    unfolding c using finish_journal by (metis append.assoc)
  then show ?thesis by (simp add: next_tool_def prepared_tool_def)
qed

lemma valid_key:
  assumes "ValidateToolExecutionTransition sha vt p r = None" and "txSchema r' = txSchema r" "txKey r' = txKey r" "txIdentity r' = txIdentity r"
    and "txRevision r' = txRevision r + 1" and "txStatus r' \<in> tool_allowed (txStatus r)"
  shows "ValidateToolExecutionTransition sha vt r r' \<in> {None, Some NotEncodable}"
proof -
  have "txKey (NormalizeToolExecution sha r') = txKey (NormalizeToolExecution sha r)"
    "txIdentity (NormalizeToolExecution sha r') = txIdentity (NormalizeToolExecution sha r)"
    using assms(3,4) by (simp_all add: NormalizeToolExecution_def Let_def)
  moreover have "txStatus r \<noteq> ToolExecutionNone" using assms(6) by (cases "txStatus r") auto
  ultimately show ?thesis
    using assms by (auto simp: ValidateToolExecutionTransition_def Let_def split: if_splits)
qed

lemma terminal_same:
  "txSchema (terminal_tool env r) = txSchema r" "txKey (terminal_tool env r) = txKey r" "txIdentity (terminal_tool env r) = txIdentity r"
  "txRevision (terminal_tool env r) = txRevision r + 1"
  by (auto simp: terminal_tool_def Let_def split: sum.splits)

lemma terminal_status:
  "txStatus (terminal_tool env r) \<in> {ToolExecutionSucceeded, ToolExecutionFailed} \<or>
   ceCancelled env \<and> txStatus (terminal_tool env r) = ToolExecutionCancelled"
  by (auto simp: terminal_tool_def Let_def split: sum.splits)

text \<open>C39 (safety).  If the context is not cancelled between the end of the tool and the record of its result, the terminal
  record that the call hands on is a valid transition of the last journaled one (if it can be encoded).\<close>

theorem terminal_record_follows:
  assumes "oTerminal (Call sha vt vx env t call j) = Some e" and "jeToolExecution e = Some r" and "ceWatched env = ceCancelled env"
  shows "ValidateToolExecutionTransition sha vt (oLast (Call sha vt vx env t call j)) r \<in> {None, Some NotEncodable}"
proof -
  let ?o = "Call sha vt vx env t call j"
  have "oEffect ?o"
    using assms(1) by (auto simp: Call_def Let_def stopped_def split: prod.splits option.splits)
  define r2 r3 s3 where "r2 = next_tool ToolExecutionApproved (prepared_tool sha t call)" and "r3 = next_tool ToolExecutionStarted r2"
    and "s3 = next_step ExecutionStarted (prepared_step sha t call)"
  obtain j3 where c: "?o = finish_call sha vt vx env r3 s3 j3" and v: "ValidateToolExecutionTransition sha vt r2 r3 = None"
    using Call_effect [OF \<open>oEffect ?o\<close>] by (auto simp: r2_def r3_def s3_def)
  have st: "txStatus r3 = ToolExecutionStarted" by (simp add: r3_def next_tool_def)
  show ?thesis
  proof (cases "ceWatched env")
    case False
    then have "oLast ?o = r3" "r = terminal_tool env r3" using assms(1,2) c by (auto simp: finish_call_def Let_def)
    moreover have "txStatus (terminal_tool env r3) \<in> tool_allowed (txStatus r3)"
      using terminal_status [of env r3] False assms(3) st by auto
    ultimately show ?thesis using valid_key [OF v terminal_same] by simp
  next
    case True
    obtain r4 s4 where r4: "cancel_records env r3 s3 = (r4, s4)" by (cases "cancel_records env r3 s3")
    obtain err j4 where a: "appendEntry sha vt vx (ceAppend env 3) r3 r4 s3 s4 j3 = (err, j4)" by (rule prod.exhaust)
    have err: "err = None" using assms(1) c True r4 a by (cases err) (auto simp: finish_call_def Let_def stopped_def)
    with assms(1,2) c True r4 a have o: "oLast ?o = r4" "r = terminal_tool env r4" by (auto simp: finish_call_def Let_def)
    have v4: "ValidateToolExecutionTransition sha vt r3 r4 = None" using append_ok a err by blast
    have "txStatus r4 = ToolExecutionCancelRequested" using r4 by (auto simp: cancel_records_def Let_def next_tool_def)
    then have "txStatus (terminal_tool env r4) \<in> tool_allowed (txStatus r4)" using terminal_status [of env r4] by auto
    with o valid_key [OF v4 terminal_same] show ?thesis by simp
  qed
qed

definition demo_tool :: journaledTool where "demo_tool = \<lparr>jtSessionID = ''s'', jtRunID = ''r'', jtTurnID = ''t''\<rparr>"

definition demo_call :: tool_call where
  "demo_call = \<lparr>kcID = ''c1'', kcItemID = ''i1'', kcInput = ''{}'', kcName = ''RUN_COMMAND'', kcEffect = ''write''\<rparr>"

definition demo_answers :: "bool \<Rightarrow> bool \<Rightarrow> call_env" where
  "demo_answers watched cancelled =
     \<lparr>ceAppend = (\<lambda>_. AppendOK), ceWatched = watched, ceCancelled = cancelled, ceCtxErr = ''context canceled'',
      ceCallErr = Some ''killed'', ceIsError = False, ceResult = Inr ''{}''\<rparr>"

abbreviation demo_run :: "bool \<Rightarrow> bool \<Rightarrow> call_outcome" where
  "demo_run watched cancelled \<equiv> Call (\<lambda>_. ''digest'') (\<lambda>_. True) (\<lambda>_. True) (demo_answers watched cancelled) demo_tool demo_call []"

theorem tool_effect_after_durable_start_witness:
  "map (\<lambda>e. map_option txStatus (Option.bind e jeToolExecution)) (take 3 (oJournal (demo_run True True))) =
   [Some ToolExecutionPrepared, Some ToolExecutionApproved, Some ToolExecutionStarted]"
proof -
  have "oEffect (demo_run True True)" by code_simp
  then show ?thesis using tool_effect_after_durable_start [of "\<lambda>_. ''digest''" "\<lambda>_. True" "\<lambda>_. True" "demo_answers True True" demo_tool demo_call "[]"] by simp
qed

theorem terminal_record_follows_witness:
  "\<exists>r. map_option txStatus (Option.bind (oTerminal (demo_run True True)) jeToolExecution) = Some ToolExecutionCancelled \<and>
     ValidateToolExecutionTransition (\<lambda>_. ''digest'') (\<lambda>_. True) (oLast (demo_run True True)) r \<in> {None, Some NotEncodable}"
proof -
  have st: "map_option txStatus (Option.bind (oTerminal (demo_run True True)) jeToolExecution) = Some ToolExecutionCancelled" by code_simp
  then obtain e r where e: "oTerminal (demo_run True True) = Some e" "jeToolExecution e = Some r" by (auto simp: Option.bind_eq_Some_conv)
  moreover have "ceWatched (demo_answers True True) = ceCancelled (demo_answers True True)" by (simp add: demo_answers_def)
  ultimately show ?thesis using terminal_record_follows st by blast
qed

text \<open>C40 (error).  The terminal record is not validated before it is handed on.  When the context is cancelled after
  the watching goroutine has returned and the tool failed, the call records a cancellation straight after the
  start, a transition that the validator refuses.\<close>

theorem late_cancellation_breaks_journal:
  "txStatus (oLast (demo_run False True)) = ToolExecutionStarted \<and>
   (case oTerminal (demo_run False True) of
      Some e \<Rightarrow> (case jeToolExecution e of
                   Some r \<Rightarrow> ValidateToolExecutionTransition (\<lambda>_. ''digest'') (\<lambda>_. True) (oLast (demo_run False True)) r = Some TransitionNotAllowed
                 | None \<Rightarrow> False)
    | None \<Rightarrow> False)"
  by code_simp

end
