(* ===== verification/Spec2Isabelle.thy ===== *)
theory Spec2Isabelle
  imports Policy_Presets Approval_Subject Approval_Queue Session_Store Collab_Mailbox Collab_Credentials Collab_User_Input
    Command_Service Journaled_Tool
begin

text \<open>
  \<^bold>\<open>What the program is.\<close>  The repository is an agent runtime (\<open>agent-sdk\<close>) with a control plane
  (\<open>control\<close>, \<open>internal/kernel\<close>) and several surfaces.  A model proposes tool calls; a policy decides
  whether a call runs, is denied or needs approval; approvals pass a queue that a client or an automatic
  reviewer answers; sessions are mutated under a fence that excludes stale writers; a tool runs only under a durable journal record; agents exchange
  mail and inputs through a durable store; and commands of clients are admitted at most once through an
  operation ledger.  This library models these parts: everything that decides whether an effect may
  happen, and that it happens once.

  \<^bold>\<open>How the parts interact.\<close>  \<open>Policy_Presets\<close> decides one tool call from the command and file
  policies; a decision that asks for approval becomes a permission with options
  (\<open>Approval_Subject\<close> is what is shown of it).  \<open>Approval_Queue\<close> admits the permission, publishes
  it or gives it to a reviewer, and resolves the answer through \<open>ResolveNativeResponse\<close> of
  \<open>Approval_Decision\<close> before the waiting tool call gets it.  \<open>Command_Service\<close> runs a client's
  command: it authorizes, admits through the ledger interface and dispatches or replays; the ledger is
  \<open>Operation_Memory\<close>.  Mutations of a session carry a guard that \<open>Session_Fence\<close> checks inside every
  operation of \<open>Session_Store\<close>.  The collaboration theories share one table store.

  \<^bold>\<open>Theories and sources.\<close>  All paths are below \<open>src/\<close>.

  \<^item> \<open>Go_Prelude\<close>, \<open>Go_Path\<close>: package \<open>strings\<close> and \<open>path/filepath\<close> as far as used, JSON values,
    runs of operations (\<open>run_ops\<close>) and the locale \<open>step_system\<close> of invariants of step relations.
  \<^item> \<open>Shell_Parse\<close>, \<open>Shell_Fields\<close>: \<open>agent-sdk/policy/presets/shell_parse.go\<close>.  Fields of a
    command text, command starts, deletion targets, payloads handed to a shell.  Printing fields and
    scanning them again gives the same fields, payloads shrink and starts are in range.
  \<^item> \<open>Git_Policy\<close>: \<open>git_policy.go\<close>, with an inductive specification of nested Git invocations that the
    recursive search refines.
  \<^item> \<open>Remote_Script\<close>: \<open>remote_script.go\<close> and its tokens; downloads that flow into interpreters.
  \<^item> \<open>Sandbox_Types\<close>: constraints, descriptors and derived policies of \<open>agent-sdk/sandbox\<close>.
  \<^item> \<open>Fs_Boundary\<close>: \<open>sandbox/backend/fsboundary/boundary.go\<close>; containment is the prefix order on
    components of physical paths.
  \<^item> \<open>Policy_Core\<close>: \<open>agent-sdk/policy/policy.go\<close> and \<open>registry.go\<close>; decisions are normalized fail-closed.
    The locale \<open>mode_registry\<close> is the interface of the registry, interpreted on the memory registry.
  \<^item> \<open>Preset_Base\<close>, \<open>Filesystem_Policy\<close>, \<open>Command_Policy\<close>, \<open>Policy_Presets\<close>: the workspace-write mode of
    \<open>policy/presets\<close>: hard denials dominate, leaving the sandbox needs approval, writes stay inside
    physical roots, and a command is allowed exactly when no scanner objects.
  \<^item> \<open>Approval_Subject\<close>: \<open>session/approval_subject.go\<close>; copied evidence is bounded and redacted.
  \<^item> \<open>Approval_Decision\<close>: \<open>agent-sdk/approval\<close> (strict options, native responses, review results) and the
    headless answer.  Labels do not change the resolution of an answer; a denying review stays a
    denial when labels agree with kinds, and a concrete run shows that it does not otherwise.
  \<^item> \<open>Approval_Queue\<close>: \<open>internal/kernel/approval_queue.go\<close> with the admission barrier of \<open>tool.go\<close>.  Pending
    approvals are objects of a heap, since the code compares them by identity; an inductive step
    relation has every operation, and the invariant \<open>plane_ok\<close> gives at most one answer per
    request, one active cohort, no stall, no panic and no reopening.
  \<^item> \<open>Execution_Journal\<close>: \<open>agent-sdk/session/execution.go\<close>.  The locale \<open>status_machine\<close> is a validated history of
    records with status and revision; it is interpreted on the three validators (tool executions;
    runs, turns and steps; pause tokens).  Histories are short or end at a terminal record, and recovery
    is complete and idempotent.
  \<^item> \<open>Journaled_Tool\<close>: \<open>agent-sdk/runtime/tool_execution_journal.go\<close>, one tool call under the journal: the effect
    comes after a durable start, and the terminal record follows unless the context is cancelled late.
  \<^item> \<open>Session_Fence\<close>, \<open>Session_Store\<close>: \<open>session/mutation_guard.go\<close>, \<open>fence_claim.go\<close> and the memory store.
    The locale \<open>session_mutation\<close> states what every guarded mutation owes the fence; it is interpreted on
    the five mutations.
  \<^item> \<open>Collab_Store\<close>, \<open>Collab_Mailbox\<close>, \<open>Collab_Credentials\<close>, \<open>Collab_User_Input\<close>: \<open>control/collaboration\<close>.  Mail is
    first-in first-out and handed out at most once (locale \<open>fifo_mailbox\<close>), the shared log is bounded,
    tokens die with revocation, and an input is dispatched once and its receipt is final.
  \<^item> \<open>Operation_Ledger\<close>, \<open>Operation_Memory\<close>: \<open>control/appserver/operation_store.go\<close> and its retention.  The
    locale \<open>operation_store\<close> is the contract of a ledger, a record machine \<open>evolves\<close> per operation
    identity; the in-memory store refines it.
  \<^item> \<open>Command_Service\<close>: \<open>control/appserver/command_service.go\<close>, the execution path over that ledger.

  \<^bold>\<open>Modelling choices.\<close>  Structs are records, errors are constructors of an error type or an \<open>Inl\<close>, tables
  are lists of rows in insertion order.  Strings are ASCII.  Mutexes make each operation one step, and
  ordering is the order of steps.  Revisions, fencing tokens and request counters are 64-bit words where
  they wrap.  Recursions that are not structural have their termination proved: the nested shell
  searches by the length of the field list, the activation loop of the approval queue by the number of
  waiting entries.  The remote-script scan takes fuel \<open>scan_fuel\<close>, computed from the token list, and
  is proved to return on every text.  Code outside the modelled files enters as parameters: the digest of
  a claim, random tokens, symbolic-link resolution, clocks, the backend of a command, the durable
  callbacks of a turn.

  \<^bold>\<open>Not modelled.\<close>  The agent loop and the model providers, tool effects and the sandbox
  back ends (they act on streams, processes and kernels), Windows variants, event feeds and
  projections to clients, session events and append transactions, the SQLite ledger (its behaviour is that of
  SQL transactions), request validation per action, texts of approval titles, configuration
  loading and every surface except the headless approval answer.
\<close>

end
